(* ===== verification/Prelude.thy ===== *)
theory Prelude
  imports Main "HOL-Library.Sublist" "HOL-Library.AList"
begin

text \<open>
  Shared vocabulary of the development: the Python values the program handles
  (strings, metadata dictionaries, exceptions), Python's whitespace predicate and
  \<open>str()\<close> of integers, and the generic list lemmas the component theories share.
  A Python \<open>str\<close> is modelled as a HOL \<open>string\<close>, one \<open>char\<close> per code point
  (the chunker counts characters with \<open>len\<close>, which counts code points); the
  whitespace set is the part of Python's \<open>str.isspace\<close> below code point 256.
\<close>

named_theorems chunk_simps "equations of the chunker used by the component proofs"

section \<open>Python values\<close>

type_synonym pystr = string

text \<open>Metadata values stored in a chunk's metadata dictionary: the extractor
  writes strings, the assembler writes the integers \<open>chunk_index\<close> and
  \<open>chunk_size\<close>.\<close>

datatype mval = MStr string | MInt int

text \<open>A Python \<open>dict\<close> keeps insertion order and one entry per key; it is an
  association list updated with \<open>AList.update\<close> (replace in place, or append).\<close>

type_synonym meta = "(string \<times> mval) list"

text \<open>The exceptions the program raises or catches.\<close>

datatype py_error =
    InvalidPolicyError
  | EmptyContentError
  | KeyError string
  | SourceFetchError string
  | ExtractError string
  | CollectionNotFound string
  | ValueError string
  | DuplicateIDError

section \<open>Whitespace\<close>

definition py_whitespace :: "char list" where
  "py_whitespace = [CHR 0x09, CHR 0x0A, CHR 0x0B, CHR 0x0C, CHR 0x0D,
     CHR 0x1C, CHR 0x1D, CHR 0x1E, CHR 0x1F, CHR 0x20, CHR 0x85, CHR 0xA0]"

definition py_isspace :: "char \<Rightarrow> bool" where
  "py_isspace c \<longleftrightarrow> c \<in> set py_whitespace"

text \<open>\<open>not s.strip()\<close>: the string is empty or whitespace only.\<close>

definition py_blank :: "pystr \<Rightarrow> bool" where
  "py_blank s \<longleftrightarrow> list_all py_isspace s"

lemma py_blank_Nil [simp]: "py_blank []"
  by (simp add: py_blank_def)

lemma py_blank_append [simp]: "py_blank (xs @ ys) \<longleftrightarrow> py_blank xs \<and> py_blank ys"
  by (simp add: py_blank_def)

lemma py_blank_concat: "py_blank (concat xss) \<longleftrightarrow> (\<forall>xs \<in> set xss. py_blank xs)"
  by (induction xss) auto

lemma py_blank_subset: "set xs \<subseteq> set ys \<Longrightarrow> py_blank ys \<Longrightarrow> py_blank xs"
  by (auto simp: py_blank_def list_all_iff)

lemma py_blank_drop: "py_blank xs \<Longrightarrow> py_blank (drop k xs)"
  by (auto simp: py_blank_def list_all_iff dest: in_set_dropD)

lemma py_isspace_underscore [simp]: "\<not> py_isspace CHR ''_''"
  by (simp add: py_isspace_def py_whitespace_def)

section \<open>\<open>str()\<close> of integers\<close>

definition digit_char :: "nat \<Rightarrow> char" where
  "digit_char d = char_of (48 + d)"

fun nat_str :: "nat \<Rightarrow> string" where
  "nat_str n = (if n < 10 then [digit_char n] else nat_str (n div 10) @ [digit_char (n mod 10)])"

declare nat_str.simps [simp del]

definition int_str :: "int \<Rightarrow> string" where
  "int_str i = (if i < 0 then CHR ''-'' # nat_str (nat (- i)) else nat_str (nat i))"

definition is_digit :: "char \<Rightarrow> bool" where
  "is_digit c \<longleftrightarrow> 48 \<le> (of_char c :: nat) \<and> (of_char c :: nat) < 58"

text \<open>\<open>str(v)\<close> of a metadata value, as an f-string renders it.\<close>

fun py_str :: "mval \<Rightarrow> string" where
  "py_str (MStr s) = s"
| "py_str (MInt i) = int_str i"

text \<open>The value of a string of decimal digits (the inverse of \<open>nat_str\<close>).\<close>

definition digits_val :: "string \<Rightarrow> nat" where
  "digits_val s = foldl (\<lambda>n c. 10 * n + (of_char c - 48)) 0 s"

lemma digit_char_is_digit: "d < 10 \<Longrightarrow> is_digit (digit_char d)"
  by (simp add: is_digit_def digit_char_def)

lemma digit_char_inj: "d < 10 \<Longrightarrow> e < 10 \<Longrightarrow> digit_char d = digit_char e \<Longrightarrow> d = e"
  by (simp add: digit_char_def)

lemma digit_char_value: "d < 10 \<Longrightarrow> of_char (digit_char d) - 48 = (d::nat)"
  by (simp add: digit_char_def)

lemma digits_val_snoc: "digits_val (s @ [c]) = 10 * digits_val s + (of_char c - 48)"
  by (simp add: digits_val_def)

lemma digits_val_nat_str [simp]: "digits_val (nat_str n) = n"
proof (induction n rule: nat_str.induct)
  case (1 n)
  show ?case
  proof (cases "n < 10")
    case True
    then show ?thesis
      by (simp add: nat_str.simps [of n] digits_val_def digit_char_value)
  next
    case False
    with "1.IH" have "digits_val (nat_str (n div 10)) = n div 10" by simp
    with False show ?thesis
      by (simp add: nat_str.simps [of n] digits_val_snoc digit_char_value)
  qed
qed

lemma nat_str_inj: "nat_str m = nat_str n \<Longrightarrow> m = n"
  by (metis digits_val_nat_str)

lemma nat_str_digits: "\<forall>c \<in> set (nat_str n). is_digit c"
proof (induction n rule: nat_str.induct)
  case (1 n)
  then show ?case
    by (cases "n < 10") (simp_all add: nat_str.simps [of n] digit_char_is_digit)
qed

lemma underscore_not_in_nat_str [simp]: "CHR ''_'' \<notin> set (nat_str n)"
  using nat_str_digits [of n] by (auto simp: is_digit_def)

lemma nat_str_nonempty [simp]: "nat_str n \<noteq> []"
  by (simp add: nat_str.simps [of n])

text \<open>A string cut at the first occurrence of a delimiter that the first part does
  not contain is cut in one way only.\<close>

lemma split_at_delim:
  assumes "d \<notin> set a" and "d \<notin> set a'" and "a @ d # b = a' @ d # b'"
  shows "a = a' \<and> b = b'"
proof -
  have tw: "d \<notin> set xs \<Longrightarrow> takeWhile (\<lambda>x. x \<noteq> d) (xs @ d # ys) = xs" for xs ys
    by (induction xs) auto
  from assms(3) have "takeWhile (\<lambda>x. x \<noteq> d) (a @ d # b) = takeWhile (\<lambda>x. x \<noteq> d) (a' @ d # b')"
    by simp
  with tw [OF assms(1)] tw [OF assms(2)] have "a = a'" by simp
  with assms(3) show ?thesis by simp
qed

section \<open>Exceptions over a state\<close>

text \<open>A Python statement sequence inside \<open>try\<close>: each step returns a value or
  raises, and the state it reached persists either way; a raise skips the rest of the
  sequence. \<open>exc_bind\<close> is the sequencing, \<open>exc_return\<close> a step that only
  returns.\<close>

type_synonym ('s, 'a) exc = "'s \<Rightarrow> (py_error + 'a) \<times> 's"

definition exc_bind :: "('s, 'a) exc \<Rightarrow> ('a \<Rightarrow> ('s, 'b) exc) \<Rightarrow> ('s, 'b) exc" where
  "exc_bind m f s = (case m s of (Inl e, s') \<Rightarrow> (Inl e, s') | (Inr a, s') \<Rightarrow> f a s')"

definition exc_return :: "'a \<Rightarrow> ('s, 'a) exc" where
  "exc_return a s = (Inr a, s)"

text \<open>A \<open>for\<close> loop over a list whose body may raise, collecting the values, and
  an \<open>except Exception\<close> that catches whatever the block raised: the caller goes on
  with the outcome as a value and the state the block reached.\<close>

fun exc_map :: "('a \<Rightarrow> ('s, 'b) exc) \<Rightarrow> 'a list \<Rightarrow> ('s, 'b list) exc" where
  "exc_map f [] = exc_return []"
| "exc_map f (x # xs) = exc_bind (f x) (\<lambda>y. exc_bind (exc_map f xs) (\<lambda>ys. exc_return (y # ys)))"

definition exc_catch :: "('s, 'a) exc \<Rightarrow> ('s, py_error + 'a) exc" where
  "exc_catch m s = (case m s of (r, s') \<Rightarrow> (Inr r, s'))"

text \<open>Total correctness of such a sequence: from every state satisfying \<open>P\<close> it
  returns, without raising, a value and a state satisfying \<open>Q\<close>.\<close>

definition exc_spec :: "('s \<Rightarrow> bool) \<Rightarrow> ('s, 'a) exc \<Rightarrow> ('a \<Rightarrow> 's \<Rightarrow> bool) \<Rightarrow> bool" where
  "exc_spec P m Q \<longleftrightarrow> (\<forall>s. P s \<longrightarrow> (\<exists>a s'. m s = (Inr a, s') \<and> Q a s'))"

lemma exc_bind_Inr [simp]: "m s = (Inr a, s') \<Longrightarrow> exc_bind m f s = f a s'"
  by (simp add: exc_bind_def)

lemma exc_bind_Inl [simp]: "m s = (Inl e, s') \<Longrightarrow> exc_bind m f s = (Inl e, s')"
  by (simp add: exc_bind_def)

lemma exc_return_bind [simp]: "exc_bind (exc_return a) f s = f a s"
  by (simp add: exc_bind_def exc_return_def)

lemma exc_spec_bind:
  "exc_spec P m Q \<Longrightarrow> (\<And>a. exc_spec (Q a) (f a) R) \<Longrightarrow> exc_spec P (exc_bind m f) R"
  by (fastforce simp: exc_spec_def exc_bind_def)

lemma exc_spec_return: "(\<And>s. P s \<Longrightarrow> Q a s) \<Longrightarrow> exc_spec P (exc_return a) Q"
  by (simp add: exc_spec_def exc_return_def)

lemma exc_spec_if:
  "(b \<Longrightarrow> exc_spec P m1 Q) \<Longrightarrow> (\<not> b \<Longrightarrow> exc_spec P m2 Q) \<Longrightarrow> exc_spec P (if b then m1 else m2) Q"
  by simp

lemma exc_spec_weaken: "exc_spec P m Q \<Longrightarrow> (\<And>s. P' s \<Longrightarrow> P s) \<Longrightarrow> exc_spec P' m Q"
  by (simp add: exc_spec_def)

lemma exc_specD: "exc_spec P m Q \<Longrightarrow> P s \<Longrightarrow> \<exists>a s'. m s = (Inr a, s') \<and> Q a s'"
  by (simp add: exc_spec_def)

text \<open>A key with a value in an association list is one of its keys.\<close>

lemma map_of_Some_key: "map_of al k = Some v \<Longrightarrow> k \<in> fst ` set al"
  by (metis domI dom_map_of_conv_image_fst)

lemma enumerate_eq_Nil [simp]: "enumerate n xs = [] \<longleftrightarrow> xs = []"
  by (cases xs) simp_all

lemma map_enumerate_upt: "map (\<lambda>(i, c). f i c) (enumerate 0 xs) = map (\<lambda>i. f i (xs ! i)) [0..<length xs]"
  by (rule nth_equalityI) (simp_all add: nth_enumerate_eq)

lemma distinct_concat_map_disjoint:
  "distinct (concat (map f xs)) \<Longrightarrow> i \<in> set xs \<Longrightarrow> j \<in> set xs \<Longrightarrow> i \<noteq> j \<Longrightarrow> set (f i) \<inter> set (f j) = {}"
  by (induction xs) auto

end
