(* ===== verification/Chunker.thy ===== *)
theory Chunker
  imports Prelude
begin

text \<open>
  The separator chunker of spec section 4.1 (SeparatorChunker). The program builds it
  as langchain's \<open>RecursiveCharacterTextSplitter\<close> (src/src/url_processor.py,
  \<open>URLChunker.__init__\<close> and \<open>process_url\<close>; src/src/chroma_manager.py,
  \<open>add_texts\<close>), whose code is not part of the repository: the algorithm is
  modelled from the spec. Every chunk is produced together with the length of the
  overlap seed it starts with, so that the lossless reconstruction of spec section 8
  can be stated; the public \<open>split_text\<close> forgets the seeds.
\<close>

section \<open>Policy\<close>

record chunk_policy =
  chunk_size :: nat
  chunk_overlap :: nat
  separators :: "string list"

text \<open>Construction rejects a non-positive target size, a negative overlap and an
  overlap that is not below the target size (spec section 3, InvalidPolicyError).\<close>

definition make_policy :: "int \<Rightarrow> int \<Rightarrow> string list \<Rightarrow> py_error + chunk_policy" where
  "make_policy sz ov seps =
     (if sz \<le> 0 \<or> ov < 0 \<or> sz \<le> ov then Inl InvalidPolicyError
      else Inr \<lparr>chunk_size = nat sz, chunk_overlap = nat ov, separators = seps\<rparr>)"

definition valid_policy :: "chunk_policy \<Rightarrow> bool" where
  "valid_policy p \<longleftrightarrow> 0 < chunk_size p \<and> chunk_overlap p < chunk_size p"

section \<open>Step 1: choosing the separator\<close>

fun occurs :: "string \<Rightarrow> string \<Rightarrow> bool" where
  "occurs s [] \<longleftrightarrow> s = []"
| "occurs s (c # cs) \<longleftrightarrow> prefix s (c # cs) \<or> occurs s cs"

text \<open>The first separator of the priority list that occurs in the text, and the
  separators after it; the empty separator occurs in every text, and an exhausted
  list falls back to it.\<close>

fun choose_sep :: "string list \<Rightarrow> string \<Rightarrow> string \<times> string list" where
  "choose_sep [] t = ([], [])"
| "choose_sep (s # ss) t = (if occurs s t then (s, ss) else choose_sep ss t)"

section \<open>Step 2: splitting on the separator, separator kept\<close>

text \<open>The separator is re-attached to the end of every piece but the last; an empty
  last piece (text ending in the separator) is dropped.\<close>

function cut_pieces :: "string \<Rightarrow> string \<Rightarrow> string \<Rightarrow> string list" where
  "cut_pieces sep acc [] = (if acc = [] then [] else [acc])"
| "cut_pieces sep acc (c # cs) =
     (if sep \<noteq> [] \<and> prefix sep (c # cs)
      then (acc @ sep) # cut_pieces sep [] (drop (length sep) (c # cs))
      else cut_pieces sep (acc @ [c]) cs)"
  by pat_completeness auto
termination
  by (relation "measure (\<lambda>(sep, acc, t). length t)") (auto simp: prefix_def)

definition split_pieces :: "string \<Rightarrow> string \<Rightarrow> string list" where
  "split_pieces sep t = (if sep = [] then map (\<lambda>c. [c]) t else cut_pieces sep [] t)"

section \<open>Step 4 fallback: the hard cut\<close>

text \<open>Windows of \<open>sz\<close> characters, one every \<open>step\<close> characters.\<close>

function hard_windows :: "nat \<Rightarrow> nat \<Rightarrow> string \<Rightarrow> string list" where
  "hard_windows sz step t =
     (if length t \<le> sz \<or> step = 0 then [t]
      else take sz t # hard_windows sz step (drop step t))"
  by pat_completeness auto
termination
  by (relation "measure (\<lambda>(sz, step, t). length t)") auto

declare hard_windows.simps [simp del]

definition hard_cut :: "nat \<Rightarrow> nat \<Rightarrow> string \<Rightarrow> (nat \<times> string) list" where
  "hard_cut sz ov t =
     (case hard_windows sz (sz - ov) t of
        [] \<Rightarrow> []
      | w # ws \<Rightarrow> (0, w) # map (Pair ov) ws)"

section \<open>Steps 3 to 5: greedy packing with overlap, recursion on oversized pieces\<close>

definition emit :: "string \<Rightarrow> nat \<Rightarrow> (nat \<times> string) list" where
  "emit buf k = (if buf = [] then [] else [(k, buf)])"

text \<open>The seed of the next buffer: the trailing \<open>overlap\<close> characters of the chunk
  just emitted, shortened so that seed and piece fit in one chunk.\<close>

definition overlap_seed :: "nat \<Rightarrow> nat \<Rightarrow> string \<Rightarrow> string \<Rightarrow> string" where
  "overlap_seed sz ov buf x = drop (length buf - min ov (sz - length x)) buf"

text \<open>The ranks that decrease along the recursion below: a call of \<open>split_rec\<close>
  ranks above the packing it starts, and a packing that may recurse ranks above the
  \<open>split_rec\<close> calls on its remaining separators; within one packing the pieces
  left decrease.\<close>

definition sep_rank ::
  "(chunk_policy \<times> string list \<times> string) + (chunk_policy \<times> string list \<times> string list \<times> string \<times> nat)
   \<Rightarrow> nat" where
  "sep_rank a = (case a of Inl (p, seps, t) \<Rightarrow> 2 * length seps + 1
                         | Inr (p, rest, xs, buf, k) \<Rightarrow> (if rest = [] then 0 else 2 * length rest + 2))"

definition pieces_rank ::
  "(chunk_policy \<times> string list \<times> string) + (chunk_policy \<times> string list \<times> string list \<times> string \<times> nat)
   \<Rightarrow> nat" where
  "pieces_rank a = (case a of Inl _ \<Rightarrow> 0 | Inr (p, rest, xs, buf, k) \<Rightarrow> length xs)"

function (sequential) split_rec :: "chunk_policy \<Rightarrow> string list \<Rightarrow> string \<Rightarrow> (nat \<times> string) list"
  and pack :: "chunk_policy \<Rightarrow> string list \<Rightarrow> string list \<Rightarrow> string \<Rightarrow> nat \<Rightarrow> (nat \<times> string) list"
where
  "split_rec p seps t =
     (case choose_sep seps t of (sep, rest) \<Rightarrow> pack p rest (split_pieces sep t) [] 0)"
| "pack p rest [] buf k = emit buf k"
| "pack p rest (x # xs) buf k =
     (if chunk_size p < length x then
        emit buf k
        @ (if rest = [] then hard_cut (chunk_size p) (chunk_overlap p) x else split_rec p rest x)
        @ pack p rest xs [] 0
      else if length buf + length x \<le> chunk_size p then pack p rest xs (buf @ x) k
      else (let s = overlap_seed (chunk_size p) (chunk_overlap p) buf x
            in (k, buf) # pack p rest xs (s @ x) (length s)))"
  by pat_completeness auto

termination
proof (relation "measures [sep_rank, pieces_rank]", goal_cases)
  case 1
  then show ?case by simp
next
  case (2 p seps t sep rest)
  have le: "length (snd (choose_sep seps t)) \<le> length seps - 1"
    by (induction seps t rule: choose_sep.induct) auto
  from 2 have "choose_sep seps t = (sep, rest)" by simp
  with le show ?case by (cases seps) (auto simp: sep_rank_def)
qed (auto simp: sep_rank_def pieces_rank_def)

definition split_text :: "chunk_policy \<Rightarrow> string \<Rightarrow> string list" where
  "split_text p t = filter (\<lambda>c. \<not> py_blank c) (map snd (split_rec p (separators p) t))"

section \<open>Observations on the chunk sequence\<close>

text \<open>The text a chunk adds to its predecessors: the chunk without its overlap seed.\<close>

definition fresh_text :: "(nat \<times> string) list \<Rightarrow> string" where
  "fresh_text cs = concat (map (\<lambda>(k, c). drop k c) cs)"

text \<open>Consecutive chunks overlap: the seed of each chunk is the end of the one before.\<close>

fun chained :: "(nat \<times> string) list \<Rightarrow> bool" where
  "chained ((k1, c1) # (k2, c2) # cs) \<longleftrightarrow> suffix (take k2 c2) c1 \<and> chained ((k2, c2) # cs)"
| "chained _ \<longleftrightarrow> True"

definition starts_fresh :: "(nat \<times> string) list \<Rightarrow> bool" where
  "starts_fresh cs \<longleftrightarrow> (case cs of [] \<Rightarrow> True | (k, c) # _ \<Rightarrow> k = 0)"

text \<open>The example policy of spec section 8.\<close>

definition example_policy :: chunk_policy where
  "example_policy = \<lparr>chunk_size = 5, chunk_overlap = 2, separators = [''. '', '' '', '''']\<rparr>"

declare split_rec.simps [simp del]

section \<open>Lemmas\<close>

lemma choose_sep_rest_length: "length (snd (choose_sep seps t)) \<le> length seps - 1"
  by (induction seps t rule: choose_sep.induct) auto

lemma fresh_text_Nil [simp]: "fresh_text [] = []"
  and fresh_text_Cons [simp]: "fresh_text ((k, c) # cs) = drop k c @ fresh_text cs"
  and fresh_text_append [simp]: "fresh_text (cs @ ds) = fresh_text cs @ fresh_text ds"
  by (simp_all add: fresh_text_def)

lemma fresh_text_emit [simp]: "fresh_text (emit buf k) = drop k buf"
  by (simp add: emit_def)

lemma cut_pieces_concat: "concat (cut_pieces sep acc t) = acc @ t"
proof (induction sep acc t rule: cut_pieces.induct)
  case (2 sep acc c cs)
  then show ?case
    by (auto simp: prefix_def)
qed simp

lemma split_pieces_concat [chunk_simps]: "concat (split_pieces sep t) = t"
  by (simp add: split_pieces_def cut_pieces_concat)

lemma hard_windows_fresh:
  assumes "0 < step" "ov + step = sz"
  shows "concat (map (drop ov) (hard_windows sz step t)) = drop ov t"
  using assms
proof (induction sz step t rule: hard_windows.induct)
  case (1 sz step t)
  show ?case
  proof (cases "length t \<le> sz")
    case True
    with "1.prems" show ?thesis by (simp add: hard_windows.simps [of sz step t])
  next
    case False
    with "1.prems" "1.IH" have "concat (map (drop ov) (hard_windows sz step (drop step t)))
        = drop ov (drop step t)" by simp
    moreover have "sz - ov = step"
      using "1.prems" by simp
    then have "drop ov (take sz t) = take step (drop ov t)"
      by (simp add: drop_take)
    moreover have "drop ov (drop step t) = drop step (drop ov t)"
      by (simp add: add.commute)
    ultimately have "concat (map (drop ov) (hard_windows sz step (drop step t)))
        = drop step (drop ov t)" and "drop ov (take sz t) = take step (drop ov t)"
      by simp_all
    moreover have "take step (drop ov t) @ drop (step + ov) t = drop ov t"
      by (metis append_take_drop_id drop_drop)
    ultimately show ?thesis
      using False "1.prems" by (simp add: hard_windows.simps [of sz step t])
  qed
qed

lemma fresh_text_Pair: "fresh_text (map (Pair k) ws) = concat (map (drop k) ws)"
  by (induction ws) auto

lemma hard_cut_fresh: "fresh_text (hard_cut sz ov t) = t"
proof (cases "sz - ov = 0 \<or> length t \<le> sz")
  case True
  then show ?thesis by (auto simp: hard_cut_def hard_windows.simps [of sz _ t])
next
  case False
  then have "concat (map (drop ov) (hard_windows sz (sz - ov) (drop (sz - ov) t)))
      = drop ov (drop (sz - ov) t)"
    by (intro hard_windows_fresh) auto
  moreover have "take sz t @ drop ov (drop (sz - ov) t) = t"
    using False by simp
  ultimately show ?thesis
    using False by (simp add: hard_cut_def hard_windows.simps [of sz _ t] fresh_text_Pair)
qed

lemma split_rec_unfold:
  "split_rec p seps t = pack p (snd (choose_sep seps t)) (split_pieces (fst (choose_sep seps t)) t) [] 0"
  by (simp add: split_rec.simps split: prod.split)

lemma split_rec_fresh: "fresh_text (split_rec p seps t) = t"
  and pack_fresh: "k \<le> length buf \<Longrightarrow> fresh_text (pack p rest xs buf k) = drop k buf @ concat xs"
proof (induction p seps t and p rest xs buf k rule: split_rec_pack.induct)
  case (1 p seps t)
  then show ?case
    by (simp add: split_rec_unfold split_pieces_concat split: prod.splits)
next
  case (2 p rest buf k)
  then show ?case by simp
next
  case (3 p rest x xs buf k)
  show ?case
  proof (cases "chunk_size p < length x")
    case True
    with "3.IH"(1,2) show ?thesis
      by (simp add: hard_cut_fresh)
  next
    case False
    note out = False
    show ?thesis
    proof (cases "length buf + length x \<le> chunk_size p")
      case True
      with out "3.IH"(3) "3.prems" show ?thesis by simp
    next
      case False
      let ?s = "overlap_seed (chunk_size p) (chunk_overlap p) buf x"
      from out False "3.IH"(4) [of ?s] "3.prems" show ?thesis by (simp add: Let_def)
    qed
  qed
qed

lemma hard_windows_size: "0 < step \<Longrightarrow> \<forall>w \<in> set (hard_windows sz step t). length w \<le> sz"
proof (induction sz step t rule: hard_windows.induct)
  case (1 sz step t)
  then show ?case
    by (cases "length t \<le> sz") (auto simp: hard_windows.simps [of sz step t])
qed

lemma hard_cut_Ball:
  "\<forall>w \<in> set (hard_windows sz (sz - ov) t). P w \<Longrightarrow> \<forall>(k, c) \<in> set (hard_cut sz ov t). P c"
  by (cases "hard_windows sz (sz - ov) t") (auto simp: hard_cut_def)

lemma hard_cut_size: "ov < sz \<Longrightarrow> \<forall>(k, c) \<in> set (hard_cut sz ov t). length c \<le> sz"
  by (rule hard_cut_Ball, rule hard_windows_size) simp

lemma overlap_seed_length:
  "length (overlap_seed sz ov buf x) = min (length buf) (min ov (sz - length x))"
  by (simp add: overlap_seed_def)

lemma set_overlap_seed: "set (overlap_seed sz ov buf x) \<subseteq> set buf"
  by (simp add: overlap_seed_def set_drop_subset)

lemma pack_fits:
  "length buf + length (concat xs) \<le> chunk_size p \<Longrightarrow> pack p rest xs buf k = emit (buf @ concat xs) k"
  by (induction xs arbitrary: buf) auto

lemma split_rec_size:
  "chunk_overlap p < chunk_size p \<Longrightarrow> \<forall>(k, c) \<in> set (split_rec p seps t). length c \<le> chunk_size p"
  and pack_size: "chunk_overlap p < chunk_size p \<Longrightarrow> length buf \<le> chunk_size p \<Longrightarrow>
    \<forall>(k, c) \<in> set (pack p rest xs buf k). length c \<le> chunk_size p"
proof (induction p seps t and p rest xs buf k rule: split_rec_pack.induct)
  case (1 p seps t)
  from "1.IH" [OF prod.collapse] "1.prems" show ?case by (simp add: split_rec_unfold)
next
  case (2 p rest buf k)
  then show ?case by (simp add: emit_def)
next
  case (3 p rest x xs buf k)
  show ?case
  proof (cases "chunk_size p < length x")
    case True
    with "3.IH"(1,2) "3.prems" show ?thesis
      by (auto simp: emit_def dest: hard_cut_size [of "chunk_overlap p" "chunk_size p" x])
  next
    case False
    note out = False
    show ?thesis
    proof (cases "length buf + length x \<le> chunk_size p")
      case True
      with out "3.IH"(3) "3.prems" show ?thesis by simp
    next
      case False
      let ?s = "overlap_seed (chunk_size p) (chunk_overlap p) buf x"
      have "length (?s @ x) \<le> chunk_size p"
        using out by (simp add: overlap_seed_length)
      with out False "3.IH"(4) [of ?s] "3.prems" show ?thesis by (simp add: Let_def)
    qed
  qed
qed

lemma hard_windows_set: "\<forall>w \<in> set (hard_windows sz step t). set w \<subseteq> set t"
proof (induction sz step t rule: hard_windows.induct)
  case (1 sz step t)
  then show ?case
    by (cases "length t \<le> sz \<or> step = 0")
      (auto simp: hard_windows.simps [of sz step t] dest: in_set_takeD in_set_dropD)
qed

lemma hard_cut_set: "\<forall>(k, c) \<in> set (hard_cut sz ov t). set c \<subseteq> set t"
  by (rule hard_cut_Ball, rule hard_windows_set)

lemma split_rec_set: "\<forall>(k, c) \<in> set (split_rec p seps t). set c \<subseteq> set t"
  and pack_set: "\<forall>(k, c) \<in> set (pack p rest xs buf k). set c \<subseteq> set buf \<union> set (concat xs)"
proof (induction p seps t and p rest xs buf k rule: split_rec_pack.induct)
  case (1 p seps t)
  from "1.IH" [OF prod.collapse] show ?case by (simp add: split_rec_unfold split_pieces_concat)
next
  case (2 p rest buf k)
  then show ?case by (simp add: emit_def)
next
  case (3 p rest x xs buf k)
  show ?case
  proof (cases "chunk_size p < length x")
    case True
    have M: "\<forall>(k', c) \<in> set (if rest = [] then hard_cut (chunk_size p) (chunk_overlap p) x
        else split_rec p rest x). set c \<subseteq> set x"
      using "3.IH"(1) True hard_cut_set [of "chunk_size p" "chunk_overlap p" x] by simp
    have P: "\<forall>(k', c) \<in> set (pack p rest xs [] 0). set c \<subseteq> set (concat xs)"
      using "3.IH"(2) True by simp
    have B: "\<forall>(k', c) \<in> set (emit buf k). set c \<subseteq> set buf"
      by (simp add: emit_def)
    from True have "pack p rest (x # xs) buf k = emit buf k
        @ (if rest = [] then hard_cut (chunk_size p) (chunk_overlap p) x else split_rec p rest x)
        @ pack p rest xs [] 0" by simp
    with M P B show ?thesis by fastforce
  next
    case False
    note out = False
    show ?thesis
    proof (cases "length buf + length x \<le> chunk_size p")
      case True
      with out "3.IH"(3) show ?thesis by fastforce
    next
      case False
      let ?s = "overlap_seed (chunk_size p) (chunk_overlap p) buf x"
      have "\<forall>(k', c) \<in> set (pack p rest xs (?s @ x) (length ?s)). set c \<subseteq> set (?s @ x) \<union> set (concat xs)"
        using out False "3.IH"(4) [of ?s] by simp
      moreover have "set (?s @ x) \<subseteq> set buf \<union> set x"
        using set_overlap_seed [of "chunk_size p" "chunk_overlap p" buf x] by auto
      ultimately show ?thesis
        using out False by (fastforce simp: Let_def)
    qed
  qed
qed

lemma pack_head:
  "buf \<noteq> [] \<Longrightarrow> \<exists>c cs. pack p rest xs buf k = (k, c) # cs \<and> prefix buf c"
proof (induction xs arbitrary: buf)
  case Nil
  then show ?case by (simp add: emit_def)
next
  case (Cons x xs)
  show ?case
  proof (cases "chunk_size p < length x \<or> \<not> length buf + length x \<le> chunk_size p")
    case True
    with Cons.prems show ?thesis by (auto simp: emit_def Let_def)
  next
    case False
    with Cons.prems Cons.IH [of "buf @ x"] show ?thesis
      by (auto dest: append_prefixD)
  qed
qed

lemma starts_fresh_append [simp]:
  "starts_fresh (cs @ ds) \<longleftrightarrow> (if cs = [] then starts_fresh ds else starts_fresh cs)"
  by (cases cs) (auto simp: starts_fresh_def)

lemma hard_cut_starts_fresh: "starts_fresh (hard_cut sz ov t)"
  by (simp add: hard_cut_def starts_fresh_def split: list.split)

lemma split_rec_starts_fresh: "starts_fresh (split_rec p seps t)"
  and pack_starts_fresh: "buf = [] \<Longrightarrow> k = 0 \<Longrightarrow> starts_fresh (pack p rest xs buf k)"
proof (induction p seps t and p rest xs buf k rule: split_rec_pack.induct)
  case (1 p seps t)
  from "1.IH" [OF prod.collapse] show ?case by (simp add: split_rec_unfold)
next
  case (2 p rest buf k)
  then show ?case by (simp add: emit_def starts_fresh_def)
next
  case (3 p rest x xs buf k)
  show ?case
  proof (cases "chunk_size p < length x")
    case True
    with "3.IH"(1,2) "3.prems" show ?thesis
      by (simp add: emit_def hard_cut_starts_fresh)
  next
    case False
    show ?thesis
    proof (cases "x = []")
      case True
      with False "3.IH"(3) "3.prems" show ?thesis by simp
    next
      case nonempty: False
      with pack_head [of x p rest xs 0] obtain c cs where "pack p rest xs x 0 = (0, c) # cs"
        by blast
      with False "3.prems" show ?thesis by (simp add: starts_fresh_def)
    qed
  qed
qed

lemma chained_Cons_fresh: "starts_fresh cs \<Longrightarrow> chained cs \<Longrightarrow> chained ((k, c) # cs)"
  by (cases cs) (auto simp: starts_fresh_def)

lemma chained_append:
  "chained cs \<Longrightarrow> chained ds \<Longrightarrow> starts_fresh ds \<Longrightarrow> chained (cs @ ds)"
  by (induction cs rule: chained.induct) (auto simp: chained_Cons_fresh)

lemma chained_first_seed: "chained ((k, c) # cs) \<longleftrightarrow> chained ((k', c) # cs)"
  by (cases cs) auto

lemma hard_windows_hd:
  "\<exists>ws. hard_windows sz step t = (if length t \<le> sz \<or> step = 0 then t else take sz t) # ws"
  by (cases "length t \<le> sz \<or> step = 0") (simp_all add: hard_windows.simps [of sz step t])

lemma hard_windows_chained:
  assumes "ov + step = sz"
  shows "chained (map (Pair ov) (hard_windows sz step t))"
  using assms
proof (induction sz step t rule: hard_windows.induct)
  case (1 sz step t)
  show ?case
  proof (cases "length t \<le> sz \<or> step = 0")
    case True
    then show ?thesis by (simp add: hard_windows.simps [of sz step t])
  next
    case False
    obtain ws where ws: "hard_windows sz step (drop step t)
        = (if length (drop step t) \<le> sz \<or> step = 0 then drop step t else take sz (drop step t)) # ws"
      using hard_windows_hd [of sz step "drop step t"] by blast
    have "take ov (drop step t) = drop step (take sz t)"
      using "1.prems" by (simp add: take_drop add.commute)
    then have "suffix (take ov (drop step t)) (take sz t)"
      by (simp add: suffix_drop)
    then have "suffix (take ov (hd (hard_windows sz step (drop step t)))) (take sz t)"
      using "1.prems" by (simp add: ws)
    moreover have "chained (map (Pair ov) (hard_windows sz step (drop step t)))"
      using False "1.IH" "1.prems" by simp
    ultimately show ?thesis
      using False ws by (simp add: hard_windows.simps [of sz step t])
  qed
qed

lemma hard_cut_chained: "chained (hard_cut sz ov t)"
proof (cases "sz - ov = 0")
  case True
  then show ?thesis by (simp add: hard_cut_def hard_windows.simps [of sz 0 t])
next
  case False
  then show ?thesis
    using hard_windows_chained [of ov "sz - ov" sz t]
    by (cases "hard_windows sz (sz - ov) t")
      (auto simp: hard_cut_def chained_first_seed [of 0 _ _ ov])
qed

lemma split_rec_chained: "chained (split_rec p seps t)"
  and pack_chained: "chained (pack p rest xs buf k)"
proof (induction p seps t and p rest xs buf k rule: split_rec_pack.induct)
  case (1 p seps t)
  from "1.IH" [OF prod.collapse] show ?case by (simp add: split_rec_unfold)
next
  case (2 p rest buf k)
  then show ?case by (simp add: emit_def)
next
  case (3 p rest x xs buf k)
  show ?case
  proof (cases "chunk_size p < length x")
    case True
    let ?M = "if rest = [] then hard_cut (chunk_size p) (chunk_overlap p) x else split_rec p rest x"
    have "chained ?M" and "starts_fresh ?M"
      using "3.IH"(1) True hard_cut_chained hard_cut_starts_fresh split_rec_starts_fresh by simp_all
    moreover have "chained (pack p rest xs [] 0)" and "starts_fresh (pack p rest xs [] 0)"
      using "3.IH"(2) True pack_starts_fresh by simp_all
    ultimately have "chained (?M @ pack p rest xs [] 0)" and "starts_fresh (?M @ pack p rest xs [] 0)"
      by (simp_all add: chained_append)
    then have "chained (emit buf k @ ?M @ pack p rest xs [] 0)"
      using chained_append [of "emit buf k" "?M @ pack p rest xs [] 0"] by (simp add: emit_def)
    with True show ?thesis by simp
  next
    case False
    note out = False
    show ?thesis
    proof (cases "length buf + length x \<le> chunk_size p")
      case True
      with out "3.IH"(3) show ?thesis by simp
    next
      case False
      let ?s = "overlap_seed (chunk_size p) (chunk_overlap p) buf x"
      have IH: "chained (pack p rest xs (?s @ x) (length ?s))"
        using out False "3.IH"(4) [of ?s] by simp
      have "chained ((k, buf) # pack p rest xs (?s @ x) (length ?s))"
      proof (cases "?s @ x = []")
        case True
        then have l: "length ?s = 0" by (metis append_is_Nil_conv list.size(3))
        have "chained (pack p rest xs [] 0)"
          using IH unfolding True l .
        moreover have "starts_fresh (pack p rest xs [] 0)"
          by (rule pack_starts_fresh) simp_all
        ultimately show ?thesis
          unfolding True l by (simp add: chained_Cons_fresh)
      next
        case False
        then obtain c cs where hd: "pack p rest xs (?s @ x) (length ?s) = (length ?s, c) # cs"
          and pre: "prefix (?s @ x) c"
          using pack_head by blast
        from pre have "take (length ?s) c = ?s"
          by (auto simp: prefix_def)
        moreover have "suffix ?s buf"
          by (simp add: overlap_seed_def suffix_drop)
        ultimately show ?thesis
          using IH hd by simp
      qed
      with out False show ?thesis by (simp add: Let_def)
    qed
  qed
qed

lemma hard_windows_long:
  "ov + step = sz \<Longrightarrow> ov \<le> length t \<Longrightarrow> \<forall>w \<in> set (hard_windows sz step t). ov \<le> length w"
proof (induction sz step t rule: hard_windows.induct)
  case (1 sz step t)
  then show ?case
    by (cases "length t \<le> sz \<or> step = 0") (auto simp: hard_windows.simps [of sz step t])
qed

lemma hard_cut_seeds: "\<forall>(k, c) \<in> set (hard_cut sz ov t). k \<le> ov \<and> k \<le> length c"
proof (cases "length t \<le> sz \<or> sz - ov = 0")
  case True
  then show ?thesis by (auto simp: hard_cut_def hard_windows.simps [of sz _ t])
next
  case False
  then have "\<forall>w \<in> set (hard_windows sz (sz - ov) (drop (sz - ov) t)). ov \<le> length w"
    by (intro hard_windows_long) auto
  with False show ?thesis
    by (auto simp: hard_cut_def hard_windows.simps [of sz _ t])
qed

lemma split_rec_seeds: "\<forall>(k, c) \<in> set (split_rec p seps t). k \<le> chunk_overlap p \<and> k \<le> length c"
  and pack_seeds: "k \<le> chunk_overlap p \<Longrightarrow> k \<le> length buf \<Longrightarrow>
    \<forall>(k', c) \<in> set (pack p rest xs buf k). k' \<le> chunk_overlap p \<and> k' \<le> length c"
proof (induction p seps t and p rest xs buf k rule: split_rec_pack.induct)
  case (1 p seps t)
  from "1.IH" [OF prod.collapse] show ?case by (simp add: split_rec_unfold)
next
  case (2 p rest buf k)
  then show ?case by (simp add: emit_def)
next
  case (3 p rest x xs buf k)
  show ?case
  proof (cases "chunk_size p < length x")
    case True
    let ?M = "if rest = [] then hard_cut (chunk_size p) (chunk_overlap p) x else split_rec p rest x"
    have "\<forall>(k', c) \<in> set ?M. k' \<le> chunk_overlap p \<and> k' \<le> length c"
      using "3.IH"(1) True hard_cut_seeds by simp
    moreover have "\<forall>(k', c) \<in> set (pack p rest xs [] 0). k' \<le> chunk_overlap p \<and> k' \<le> length c"
      using "3.IH"(2) True by simp
    ultimately show ?thesis
      using True "3.prems" by (auto simp: emit_def)
  next
    case False
    note out = False
    show ?thesis
    proof (cases "length buf + length x \<le> chunk_size p")
      case True
      with out "3.IH"(3) "3.prems" show ?thesis by simp
    next
      case False
      let ?s = "overlap_seed (chunk_size p) (chunk_overlap p) buf x"
      have "length ?s \<le> chunk_overlap p"
        by (simp add: overlap_seed_length)
      then have "\<forall>(k', c) \<in> set (pack p rest xs (?s @ x) (length ?s)).
          k' \<le> chunk_overlap p \<and> k' \<le> length c"
        using out False "3.IH"(4) [of ?s] by simp
      with out False "3.prems" show ?thesis by (simp add: Let_def)
    qed
  qed
qed

lemma occurs_iff_sublist: "occurs s t \<longleftrightarrow> sublist s t"
  by (induction t) (auto simp: sublist_Cons_right)

lemma fresh_text_blank: "\<forall>(k, c) \<in> set cs. py_blank c \<Longrightarrow> py_blank (fresh_text cs)"
  by (induction cs) (auto simp: py_blank_drop)

lemma split_rec_short: "length t \<le> chunk_size p \<Longrightarrow> split_rec p seps t = emit t 0"
  by (simp add: split_rec_unfold pack_fits split_pieces_concat)

lemma example_split_rec:
  "split_rec example_policy (separators example_policy) ''A. B. C. D.''
     = [(0, ''A. ''), (2, ''. B. ''), (2, ''. C. ''), (2, ''. D.'')]"
  by (simp add: split_rec_unfold example_policy_def split_pieces_def overlap_seed_def emit_def Let_def)

lemma example_split_text:
  "split_text example_policy ''A. B. C. D.'' = [''A. '', ''. B. '', ''. C. '', ''. D.'']"
  by (simp add: split_text_def example_split_rec py_blank_def py_isspace_def py_whitespace_def)

lemma example_policy_valid: "valid_policy example_policy"
  by (simp add: valid_policy_def example_policy_def)

lemma split_text_blank: "py_blank t \<Longrightarrow> split_text p t = []"
proof -
  assume "py_blank t"
  then have "\<forall>(k, c) \<in> set (split_rec p (separators p) t). py_blank c"
    using split_rec_set [of p "separators p" t] py_blank_subset by blast
  then show "split_text p t = []"
    by (auto simp: split_text_def filter_empty_conv)
qed

lemma split_text_nonblank: "split_text p t = [] \<Longrightarrow> py_blank t"
proof -
  assume "split_text p t = []"
  then have "\<forall>(k, c) \<in> set (split_rec p (separators p) t). py_blank c"
    by (auto simp: split_text_def filter_empty_conv)
  then have "py_blank (fresh_text (split_rec p (separators p) t))"
    by (rule fresh_text_blank)
  then show "py_blank t" by (simp add: split_rec_fresh)
qed

text \<open>Size bound (spec section 8): under a valid policy every
  chunk \<open>split\<close> returns has at most \<open>targetSize\<close> characters. The hard-cut fallback
  makes the bound hold even for pieces no separator can split.\<close>

lemma split_text_within_size:
  assumes "valid_policy p" and "c \<in> set (split_text p t)"
  shows "length c \<le> chunk_size p"
proof -
  from assms(2) obtain k where "(k, c) \<in> set (split_rec p (separators p) t)"
    by (auto simp: split_text_def)
  with split_rec_size [of p "separators p" t] assms(1) show ?thesis
    by (fastforce simp: valid_policy_def)
qed

text \<open>Lossless reconstitution (spec sections 4.1 and 8): dropping
  from each chunk the overlap seed it starts with and concatenating gives back the text,
  for every policy and every text.\<close>

lemma split_rec_lossless:
  "concat (map (\<lambda>(k, c). drop k c) (split_rec p (separators p) t)) = t"
  using split_rec_fresh [of p "separators p" t] by (simp add: fresh_text_def)

text \<open>Overlap property (spec section 8): each chunk begins with a
  seed of at most \<open>overlap\<close> characters, and that seed is a suffix of the chunk before
  it, so consecutive chunks share content at their boundary.\<close>

lemma split_rec_overlap:
  "chained (split_rec p (separators p) t) \<and>
   (\<forall>(k, c) \<in> set (split_rec p (separators p) t). k \<le> chunk_overlap p \<and> k \<le> length c)"
  using split_rec_chained split_rec_seeds by blast

text \<open>The chunker's contract (spec section 4.1):
  \<open>split\<close> returns no chunk exactly when the text is empty or whitespace only.\<close>

lemma split_text_empty_iff_blank: "split_text p t = [] \<longleftrightarrow> py_blank t"
  using split_text_blank split_text_nonblank by blast

text \<open>Edge case (spec section 4.1): a text no longer than
  \<open>targetSize\<close> yields exactly one chunk, the text itself, unless it is blank.\<close>

lemma split_text_short:
  "length t \<le> chunk_size p \<Longrightarrow> split_text p t = (if py_blank t then [] else [t])"
  by (auto simp: split_text_def split_rec_short emit_def)

text \<open>Separator priority (spec section 4.1, step 1): the
  separator chosen is the first of the list that occurs in the text, whatever the
  other separators' frequencies, and the recursion continues with the ones after it;
  when none occurs, the empty separator is chosen.\<close>

lemma choose_sep_first_occurring:
  "choose_sep seps t = (s, rest) \<Longrightarrow>
   (\<exists>pre. seps = pre @ s # rest \<and> sublist s t \<and> (\<forall>s' \<in> set pre. \<not> sublist s' t))
   \<or> (s = [] \<and> rest = [] \<and> (\<forall>s' \<in> set seps. \<not> sublist s' t))"
proof (induction seps t rule: choose_sep.induct)
  case (1 t)
  then show ?case by simp
next
  case (2 s' ss t)
  show ?case
  proof (cases "occurs s' t")
    case True
    with "2.prems" show ?thesis by (auto simp: occurs_iff_sublist)
  next
    case False
    with "2.prems" "2.IH" show ?thesis
      by (auto simp: occurs_iff_sublist)
  qed
qed

lemma split_text_chunk:
  "valid_policy p \<Longrightarrow> c \<in> set (split_text p t) \<Longrightarrow> \<not> py_blank c \<and> length c \<le> chunk_size p"
  using split_text_within_size by (auto simp: split_text_def)

end
