(* ===== verification/Addresser.thy ===== *)
theory Addresser
  imports Prelude
begin

text \<open>
  Content addressing (spec section 4.2, ContentAddresser). The program derives chunk ids
  in two places: \<open>URLChunker.create_chunks\<close> (src/src/url_processor.py) hashes
  \<open>f"{metadata['url']}_{i}_{chunk}"\<close>, and \<open>ChromaDBManager.add_texts\<close>
  (src/src/chroma_manager.py) hashes the chunk text alone. SHA-256 is a library call
  (\<open>hashlib\<close>) and is a parameter \<open>sha\<close> of the model; the string it is applied to
  is modelled exactly.
\<close>

definition chunk_id_preimage :: "mval \<Rightarrow> nat \<Rightarrow> string \<Rightarrow> string" where
  "chunk_id_preimage url i chunk = py_str url @ CHR ''_'' # nat_str i @ CHR ''_'' # chunk"

definition chunk_id :: "(string \<Rightarrow> string) \<Rightarrow> mval \<Rightarrow> nat \<Rightarrow> string \<Rightarrow> string" where
  "chunk_id sha url i chunk = sha (chunk_id_preimage url i chunk)"

definition content_id :: "(string \<Rightarrow> string) \<Rightarrow> string \<Rightarrow> string" where
  "content_id sha chunk = sha chunk"

text \<open>Within one document the id preimage determines the chunk: two chunks of the
  same URL with the same preimage have the same index and the same text.\<close>

lemma chunk_id_preimage_tail:
  "chunk_id_preimage url i c = chunk_id_preimage url i' c' \<Longrightarrow> i = i' \<and> c = c'"
  using split_at_delim [of "CHR ''_''" "nat_str i" "nat_str i'" c c']
  by (auto simp: chunk_id_preimage_def dest: nat_str_inj)

text \<open>C18. Across documents the delimiter \<open>_\<close> is ambiguous (spec section 4.2 asks for
  a delimiter no legal input can produce): for every URL \<open>u\<close>, indices \<open>i\<close>, \<open>j\<close>
  and chunk text \<open>c\<close>, chunk \<open>j\<close> of the document at \<open>u_i\<close> with text \<open>c\<close> and
  chunk \<open>i\<close> of the document at \<open>u\<close> with text \<open>j_c\<close> have the same id, though
  their URLs differ.\<close>

theorem chunk_id_ambiguous:
  "chunk_id sha (MStr (u @ CHR ''_'' # nat_str i)) j c = chunk_id sha (MStr u) i (nat_str j @ CHR ''_'' # c)
   \<and> MStr (u @ CHR ''_'' # nat_str i) \<noteq> MStr u"
  by (simp add: chunk_id_def chunk_id_preimage_def)

text \<open>C19. Without \<open>_\<close> in the URLs the preimage is unambiguous: equal preimages
  come from equal URLs, indices and texts.\<close>

theorem chunk_id_preimage_inj:
  assumes "CHR ''_'' \<notin> set (py_str u)" and "CHR ''_'' \<notin> set (py_str u')"
    and "chunk_id_preimage u i c = chunk_id_preimage u' i' c'"
  shows "py_str u = py_str u' \<and> i = i' \<and> c = c'"
proof -
  from split_at_delim [OF assms(1,2)] assms(3)
  have u: "py_str u = py_str u'"
    and "nat_str i @ CHR ''_'' # c = nat_str i' @ CHR ''_'' # c'"
    by (auto simp: chunk_id_preimage_def)
  with split_at_delim [of "CHR ''_''" "nat_str i" "nat_str i'" c c']
  show ?thesis by (auto dest: nat_str_inj)
qed

theorem chunk_id_preimage_inj_witness:
  "CHR ''_'' \<notin> set (py_str (MStr ''u'')) \<and> py_str (MStr ''u'') = ''u''"
proof -
  have h: "CHR ''_'' \<notin> set (py_str (MStr ''u''))" by simp
  have "chunk_id_preimage (MStr ''u'') 1 ''x'' = chunk_id_preimage (MStr ''u'') 1 ''x''" by simp
  from chunk_id_preimage_inj [OF h h this] h show ?thesis by simp
qed

end
