(* ===== verification/Assembler.thy ===== *)
theory Assembler
  imports Chunker Addresser
begin

text \<open>
  The chunk assembler (spec section 4.3): \<open>URLChunker.create_chunks\<close> of
  src/src/url_processor.py. It splits the text with the chunker's current splitter and,
  for every chunk at position \<open>i\<close>, derives the id from \<open>metadata['url']\<close>, \<open>i\<close>
  and the text, and copies the document metadata with \<open>chunk_index\<close>,
  \<open>chunk_size\<close> and (when a source name is given) \<open>source\<close> set. The three
  parallel lists it returns are the record \<open>chunks_data\<close>; a missing \<open>url\<close> key
  raises \<open>KeyError\<close> at the first chunk. \<open>assemble_spec\<close> is the assembler of the
  spec, written independently, which the loop refines.
\<close>

record chunks_data =
  cd_chunks :: "string list"
  cd_ids :: "string list"
  cd_metadatas :: "meta list"

text \<open>\<open>chunk_metadata = metadata.copy()\<close>, then the three assignments; an
  assignment to a key already present keeps its place, a new key goes last
  (\<open>AList.update\<close>). \<open>if source_name:\<close> is false for \<open>None\<close> and for \<open>''''\<close>.\<close>

definition chunk_metadata :: "meta \<Rightarrow> nat \<Rightarrow> string \<Rightarrow> string option \<Rightarrow> meta" where
  "chunk_metadata metadata i chunk source_name =
     (let m = AList.update ''chunk_size'' (MInt (int (length chunk)))
                (AList.update ''chunk_index'' (MInt (int i)) metadata)
      in case source_name of
           Some s \<Rightarrow> if s \<noteq> [] then AList.update ''source'' (MStr s) m else m
         | None \<Rightarrow> m)"

text \<open>The \<open>for i, chunk in enumerate(text_chunks)\<close> loop, from index \<open>i\<close>.\<close>

fun chunk_records ::
  "(string \<Rightarrow> string) \<Rightarrow> meta \<Rightarrow> string option \<Rightarrow> nat \<Rightarrow> string list
   \<Rightarrow> py_error + (string \<times> string \<times> meta) list" where
  "chunk_records sha metadata source_name i [] = Inr []"
| "chunk_records sha metadata source_name i (chunk # cs) =
     (case map_of metadata ''url'' of
        None \<Rightarrow> Inl (KeyError ''url'')
      | Some url \<Rightarrow>
          (case chunk_records sha metadata source_name (Suc i) cs of
             Inl e \<Rightarrow> Inl e
           | Inr rs \<Rightarrow> Inr ((chunk, chunk_id sha url i chunk,
                              chunk_metadata metadata i chunk source_name) # rs)))"

definition create_chunks ::
  "(string \<Rightarrow> string) \<Rightarrow> chunk_policy \<Rightarrow> string \<Rightarrow> meta \<Rightarrow> string option
   \<Rightarrow> py_error + chunks_data" where
  "create_chunks sha text_splitter text metadata source_name =
     (case chunk_records sha metadata source_name 0 (split_text text_splitter text) of
        Inl e \<Rightarrow> Inl e
      | Inr rs \<Rightarrow> Inr \<lparr>cd_chunks = map fst rs, cd_ids = map (fst \<circ> snd) rs,
                       cd_metadatas = map (snd \<circ> snd) rs\<rparr>)"

text \<open>The assembler as spec section 4.3 states it, written independently of the loop:
  a chunk record is an id, the chunk and its metadata as a map; the id of the chunk at
  position \<open>i\<close> is \<open>identify docref i chunk\<close> for the document reference
  \<open>docref\<close> (the spec's content addresser); the metadata is a copy of the base
  metadata with the chunk index and size set and the source set when one is provided;
  zero chunks is \<open>EmptyContentError\<close>.\<close>

definition spec_chunk_meta :: "meta \<Rightarrow> nat \<Rightarrow> string \<Rightarrow> string option \<Rightarrow> string \<rightharpoonup> mval" where
  "spec_chunk_meta md i c src =
     (map_of md)(''chunk_index'' \<mapsto> MInt (int i), ''chunk_size'' \<mapsto> MInt (int (length c)))
       ++ (case src of Some s \<Rightarrow> [''source'' \<mapsto> MStr s] | None \<Rightarrow> Map.empty)"

definition assemble_spec ::
  "(mval \<Rightarrow> nat \<Rightarrow> string \<Rightarrow> string) \<Rightarrow> chunk_policy \<Rightarrow> string \<Rightarrow> meta \<Rightarrow> string option \<Rightarrow> mval
   \<Rightarrow> py_error + (string \<times> string \<times> (string \<rightharpoonup> mval)) list" where
  "assemble_spec identify p text md src docref =
     (let cs = split_text p text
      in if cs = [] then Inl EmptyContentError
         else Inr (map (\<lambda>i. (identify docref i (cs ! i), cs ! i, spec_chunk_meta md i (cs ! i) src))
                       [0..<length cs]))"

text \<open>The records of the three parallel lists \<open>create_chunks\<close> returns, position by
  position, each metadata dictionary read as a map.\<close>

definition chunk_record_view :: "chunks_data \<Rightarrow> (string \<times> string \<times> (string \<rightharpoonup> mval)) list" where
  "chunk_record_view d =
     map (\<lambda>i. (cd_ids d ! i, cd_chunks d ! i, map_of (cd_metadatas d ! i))) [0..<length (cd_chunks d)]"

lemma chunk_records_url:
  "map_of metadata ''url'' = Some u \<Longrightarrow>
   chunk_records sha metadata src i cs
     = Inr (map (\<lambda>(j, c). (c, chunk_id sha u j c, chunk_metadata metadata j c src)) (enumerate i cs))"
  by (induction cs arbitrary: i) auto

lemma chunk_records_no_url:
  "map_of metadata ''url'' = None \<Longrightarrow>
   chunk_records sha metadata src i cs = (if cs = [] then Inr [] else Inl (KeyError ''url''))"
  by (cases cs) auto

lemma create_chunks_url:
  "map_of metadata ''url'' = Some u \<Longrightarrow>
   create_chunks sha p text metadata src = Inr
     \<lparr>cd_chunks = split_text p text,
      cd_ids = map (\<lambda>(i, c). chunk_id sha u i c) (enumerate 0 (split_text p text)),
      cd_metadatas = map (\<lambda>(i, c). chunk_metadata metadata i c src) (enumerate 0 (split_text p text))\<rparr>"
proof -
  assume u: "map_of metadata ''url'' = Some u"
  have "map fst (enumerate 0 xs) = [0..<length xs]" and "map snd (enumerate 0 xs) = xs" for xs :: "string list"
    by simp_all
  then show ?thesis
    by (simp add: create_chunks_def chunk_records_url [OF u] case_prod_beta comp_def)
qed

lemma create_chunks_no_url:
  "map_of metadata ''url'' = None \<Longrightarrow>
   create_chunks sha p text metadata src
     = (if py_blank text then Inr \<lparr>cd_chunks = [], cd_ids = [], cd_metadatas = []\<rparr>
        else Inl (KeyError ''url''))"
  by (cases "py_blank text")
    (auto simp: create_chunks_def chunk_records_no_url split_text_blank dest: split_text_nonblank)

lemma map_fst_update: "map fst (AList.update k v al) = (if k \<in> set (map fst al) then map fst al else map fst al @ [k])"
  by (induction al) auto

lemma chunk_metadata_lookup:
  "map_of (chunk_metadata md i c src)
     = ((map_of md)(''chunk_index'' \<mapsto> MInt (int i), ''chunk_size'' \<mapsto> MInt (int (length c))))
       ++ (case src of Some s \<Rightarrow> if s \<noteq> [] then [''source'' \<mapsto> MStr s] else Map.empty | None \<Rightarrow> Map.empty)"
  by (auto simp: chunk_metadata_def Let_def update_conv' split: option.split)

lemma chunk_metadata_keys: "prefix (map fst md) (map fst (chunk_metadata md i c src))"
  by (auto simp: chunk_metadata_def Let_def map_fst_update split: option.split)

lemma create_chunks_Inr:
  "create_chunks sha p text md src = Inr d \<Longrightarrow>
   \<exists>u. cd_chunks d = split_text p text
     \<and> cd_ids d = map (\<lambda>(i, c). chunk_id sha u i c) (enumerate 0 (split_text p text))
     \<and> cd_metadatas d = map (\<lambda>(i, c). chunk_metadata md i c src) (enumerate 0 (split_text p text))"
proof (cases "map_of md ''url''")
  case None
  moreover assume "create_chunks sha p text md src = Inr d"
  ultimately have "py_blank text" and "d = \<lparr>cd_chunks = [], cd_ids = [], cd_metadatas = []\<rparr>"
    by (simp_all add: create_chunks_no_url split: if_splits)
  moreover from \<open>py_blank text\<close> have "split_text p text = []"
    by (simp add: split_text_blank)
  ultimately show ?thesis by simp
next
  case (Some u)
  moreover assume "create_chunks sha p text md src = Inr d"
  ultimately show ?thesis by (auto simp: create_chunks_url)
qed

lemma example_create_chunks:
  "create_chunks id example_policy ''A. B. C. D.'' [(''url'', MStr ''u'')] (Some ''web'')
     = Inr \<lparr>cd_chunks = [''A. '', ''. B. '', ''. C. '', ''. D.''],
            cd_ids = [''u_0_A. '', ''u_1_. B. '', ''u_2_. C. '', ''u_3_. D.''],
            cd_metadatas = map (\<lambda>(i, c). chunk_metadata [(''url'', MStr ''u'')] i c (Some ''web''))
               (enumerate 0 [''A. '', ''. B. '', ''. C. '', ''. D.''])\<rparr>"
  by (simp add: create_chunks_url example_split_text chunk_id_def chunk_id_preimage_def) code_simp

text \<open>C7. \<open>create_chunks\<close> returns the chunks of the current
  splitter in order, and the metadata of chunk \<open>i\<close> is the document's metadata with
  \<open>chunk_index = i\<close>, \<open>chunk_size = len(chunk)\<close> and, when a non-empty source name
  is given, \<open>source\<close> overridden by it; every other key passes through unchanged
  (spec section 4.3).\<close>

theorem create_chunks_metadata:
  assumes "create_chunks sha p text md src = Inr d" and "i < length (cd_chunks d)"
  shows "cd_chunks d = split_text p text
    \<and> length (cd_ids d) = length (cd_chunks d) \<and> length (cd_metadatas d) = length (cd_chunks d)
    \<and> map_of (cd_metadatas d ! i) ''chunk_index'' = Some (MInt (int i))
    \<and> map_of (cd_metadatas d ! i) ''chunk_size'' = Some (MInt (int (length (cd_chunks d ! i))))
    \<and> map_of (cd_metadatas d ! i) ''source''
        = (case src of Some s \<Rightarrow> if s \<noteq> [] then Some (MStr s) else map_of md ''source''
                     | None \<Rightarrow> map_of md ''source'')
    \<and> (\<forall>k. k \<notin> {''chunk_index'', ''chunk_size'', ''source''} \<longrightarrow> map_of (cd_metadatas d ! i) k = map_of md k)"
proof -
  obtain u where d: "cd_chunks d = split_text p text"
    "cd_ids d = map (\<lambda>(i, c). chunk_id sha u i c) (enumerate 0 (split_text p text))"
    "cd_metadatas d = map (\<lambda>(i, c). chunk_metadata md i c src) (enumerate 0 (split_text p text))"
    using create_chunks_Inr [OF assms(1)] by blast
  have m: "cd_metadatas d ! i = chunk_metadata md i (cd_chunks d ! i) src"
    using assms(2) d by (simp add: nth_enumerate_eq)
  show ?thesis
    using d m by (auto simp: chunk_metadata_lookup map_add_def split: option.split)
qed

theorem create_chunks_metadata_witness:
  "cd_chunks \<lparr>cd_chunks = [''A. '', ''. B. '', ''. C. '', ''. D.''],
            cd_ids = [''u_0_A. '', ''u_1_. B. '', ''u_2_. C. '', ''u_3_. D.''],
            cd_metadatas = map (\<lambda>(i, c). chunk_metadata [(''url'', MStr ''u'')] i c (Some ''web''))
               (enumerate 0 [''A. '', ''. B. '', ''. C. '', ''. D.''])\<rparr>
     = split_text example_policy ''A. B. C. D.''"
proof -
  have h: "1 < length (cd_chunks \<lparr>cd_chunks = [''A. '', ''. B. '', ''. C. '', ''. D.''],
            cd_ids = [''u_0_A. '', ''u_1_. B. '', ''u_2_. C. '', ''u_3_. D.''],
            cd_metadatas = map (\<lambda>(i, c). chunk_metadata [(''url'', MStr ''u'')] i c (Some ''web''))
               (enumerate 0 [''A. '', ''. B. '', ''. C. '', ''. D.''])\<rparr>)"
    by simp
  from create_chunks_metadata [OF example_create_chunks h] show ?thesis
    by (rule conjunct1)
qed

lemma chunk_id_inj_on: "inj sha \<Longrightarrow> inj_on (\<lambda>(i, c). chunk_id sha u i c) A"
proof (rule inj_onI)
  fix a b :: "nat \<times> string"
  assume sha: "inj sha" and eq: "(\<lambda>(i, c). chunk_id sha u i c) a = (\<lambda>(i, c). chunk_id sha u i c) b"
  obtain i c j c' where ab: "a = (i, c)" "b = (j, c')" by (cases a, cases b)
  from eq ab have "chunk_id_preimage u i c = chunk_id_preimage u j c'"
    using sha by (simp add: chunk_id_def inj_eq)
  then have "i = j \<and> c = c'" by (rule chunk_id_preimage_tail)
  with ab show "a = b" by simp
qed

text \<open>C15. With a collision-free hash, the ids of one
  document's chunks are pairwise distinct: two chunks of a document never overwrite
  each other in the store.\<close>

theorem create_chunks_ids_distinct:
  assumes "inj sha" and "create_chunks sha p text md src = Inr d"
  shows "distinct (cd_ids d)"
proof -
  obtain u where ids: "cd_ids d = map (\<lambda>(i, c). chunk_id sha u i c) (enumerate 0 (split_text p text))"
    using create_chunks_Inr [OF assms(2)] by blast
  then show ?thesis
    using chunk_id_inj_on [OF assms(1)] by (simp add: distinct_map)
qed

theorem create_chunks_ids_distinct_witness:
  "inj (id :: string \<Rightarrow> string) \<and> distinct [''u_0_A. '', ''u_1_. B. '', ''u_2_. C. '', ''u_3_. D.'']"
proof -
  have i: "inj (id :: string \<Rightarrow> string)" by simp
  from create_chunks_ids_distinct [OF i example_create_chunks] i show ?thesis by simp
qed

text \<open>C30. \<open>create_chunks\<close> raises \<open>KeyError('url')\<close>
  exactly when the metadata has no \<open>url\<close> key and the text has a chunk; on a blank
  text it returns three empty lists and raises nothing (the empty-content check of spec
  section 4.3 is not in this function).\<close>

theorem create_chunks_key_error:
  "create_chunks sha p text md src = Inl e
     \<longleftrightarrow> e = KeyError ''url'' \<and> map_of md ''url'' = None \<and> \<not> py_blank text"
  by (cases "map_of md ''url''") (auto simp: create_chunks_url create_chunks_no_url)

theorem create_chunks_key_error_witness:
  "create_chunks id example_policy ''A. B.'' [(''title'', MStr ''t'')] None = Inl (KeyError ''url'')"
proof -
  have "KeyError ''url'' = KeyError ''url'' \<and> map_of [(''title'', MStr ''t'')] ''url'' = None
        \<and> \<not> py_blank ''A. B.''"
    by (simp add: py_blank_def py_isspace_def py_whitespace_def)
  then show ?thesis using create_chunks_key_error [of id example_policy "''A. B.''" "[(''title'', MStr ''t'')]" None "KeyError ''url''"]
    by blast
qed

text \<open>C4. Lossless, overlapping chunks (spec sections 4.1 and 8):
  the chunks \<open>create_chunks\<close> returns are the non-blank members of a chunk sequence
  that gives back the text when the overlap seed of each is dropped, in which each
  chunk's seed has at most \<open>overlap\<close> characters and is a suffix of the chunk
  before it.\<close>

theorem create_chunks_lossless:
  assumes "create_chunks sha p text md src = Inr d"
  shows "\<exists>cs. cd_chunks d = filter (\<lambda>c. \<not> py_blank c) (map snd cs)
           \<and> fresh_text cs = text \<and> chained cs
           \<and> (\<forall>(k, c) \<in> set cs. k \<le> chunk_overlap p \<and> k \<le> length c)"
proof (intro exI conjI)
  show "cd_chunks d = filter (\<lambda>c. \<not> py_blank c) (map snd (split_rec p (separators p) text))"
    using create_chunks_Inr [OF assms] by (auto simp: split_text_def)
  show "fresh_text (split_rec p (separators p) text) = text"
    by (rule split_rec_fresh)
qed (use split_rec_overlap [of p "text"] in blast)+

theorem create_chunks_lossless_witness:
  "\<exists>cs. [''A. '', ''. B. '', ''. C. '', ''. D.''] = filter (\<lambda>c. \<not> py_blank c) (map snd cs)
     \<and> fresh_text cs = ''A. B. C. D.'' \<and> chained cs
     \<and> (\<forall>(k, c) \<in> set cs. k \<le> chunk_overlap example_policy \<and> k \<le> length c)"
  using create_chunks_lossless [OF example_create_chunks] by simp

text \<open>C3. Size bound (spec section 8): under a valid policy
  every chunk \<open>create_chunks\<close> returns is non-blank and at most \<open>chunk_size\<close>
  characters long; the hard cut after the last separator keeps the bound even for a
  piece no separator can split.\<close>

theorem create_chunks_within_size:
  assumes "valid_policy p" and "create_chunks sha p text md src = Inr d"
  shows "\<forall>c \<in> set (cd_chunks d). \<not> py_blank c \<and> length c \<le> chunk_size p"
  using create_chunks_Inr [OF assms(2)] split_text_chunk [OF assms(1)] by auto

theorem create_chunks_within_size_witness:
  "list_all (\<lambda>c. \<not> py_blank c \<and> length c \<le> 5) [''A. '', ''. B. '', ''. C. '', ''. D.'']"
  using create_chunks_within_size [OF example_policy_valid example_create_chunks]
  by (simp add: example_policy_def)

text \<open>C25. On an empty or whitespace-only text \<open>create_chunks\<close>
  returns three empty lists instead of failing with \<open>EmptyContentError\<close> as spec
  section 4.3 asks; only \<open>process_url\<close>'s own check before the call reports the
  empty content.\<close>

theorem create_chunks_blank:
  "py_blank text \<Longrightarrow>
   create_chunks sha p text md src = Inr \<lparr>cd_chunks = [], cd_ids = [], cd_metadatas = []\<rparr>"
  by (simp add: create_chunks_def split_text_blank)

theorem create_chunks_blank_witness:
  "py_blank '' \<newline> '' \<and> create_chunks id example_policy '' \<newline> '' [] None
     = Inr \<lparr>cd_chunks = [], cd_ids = [], cd_metadatas = []\<rparr>"
proof -
  have b: "py_blank '' \<newline> ''" by (simp add: py_blank_def py_isspace_def py_whitespace_def)
  from create_chunks_blank [OF b] b show ?thesis by simp
qed

text \<open>C24. Edge case (spec section 4.1): a non-blank text no longer
  than \<open>chunk_size\<close> becomes exactly one chunk, the text itself, at index 0.\<close>

theorem create_chunks_short:
  assumes "length text \<le> chunk_size p" and "\<not> py_blank text" and "map_of md ''url'' = Some u"
  shows "create_chunks sha p text md src =
    Inr \<lparr>cd_chunks = [text], cd_ids = [chunk_id sha u 0 text], cd_metadatas = [chunk_metadata md 0 text src]\<rparr>"
  using assms by (simp add: create_chunks_url split_text_short)

theorem create_chunks_short_witness:
  "create_chunks id example_policy ''Hi.'' [(''url'', MStr ''u'')] None =
    Inr \<lparr>cd_chunks = [''Hi.''], cd_ids = [chunk_id id (MStr ''u'') 0 ''Hi.''],
         cd_metadatas = [chunk_metadata [(''url'', MStr ''u'')] 0 ''Hi.'' None]\<rparr>"
proof -
  have l: "length ''Hi.'' \<le> chunk_size example_policy" by (simp add: example_policy_def)
  have b: "\<not> py_blank ''Hi.''" by (simp add: py_blank_def py_isspace_def py_whitespace_def)
  have u: "map_of [(''url'', MStr ''u'')] ''url'' = Some (MStr ''u'')" by simp
  show ?thesis by (rule create_chunks_short [OF l b u])
qed

text \<open>C12. For a document with a \<open>url\<close>, a non-blank text and no
  empty source name, the loop of \<open>create_chunks\<close>, which builds three lists while it
  walks \<open>enumerate(text_chunks)\<close> and updates a copied dictionary key by key,
  returns exactly the records of the spec's assembler (section 4.3) with the url as
  document reference and the \<open>f"{url}_{i}_{chunk}"\<close> hash as addresser.\<close>

theorem create_chunks_equiv_spec:
  assumes "map_of md ''url'' = Some u" and "\<not> py_blank text" and "src \<noteq> Some []"
  shows "map_sum id chunk_record_view (create_chunks sha p text md src)
           = assemble_spec (chunk_id sha) p text md src u"
proof -
  have "split_text p text \<noteq> []"
    using assms(2) by (simp add: split_text_empty_iff_blank)
  moreover have "map_of (chunk_metadata md i c src) = spec_chunk_meta md i c src" for i c
    using assms(3) by (simp add: chunk_metadata_lookup spec_chunk_meta_def split: option.split)
  ultimately show ?thesis
    by (simp add: create_chunks_url [OF assms(1)] assemble_spec_def chunk_record_view_def
        map_enumerate_upt Let_def)
qed

theorem create_chunks_equiv_spec_witness:
  "map_sum id chunk_record_view
     (create_chunks id example_policy ''A. B. C. D.'' [(''url'', MStr ''u'')] (Some ''web''))
   = assemble_spec (chunk_id id) example_policy ''A. B. C. D.'' [(''url'', MStr ''u'')] (Some ''web'') (MStr ''u'')"
  by (rule create_chunks_equiv_spec) (simp_all add: py_blank_def py_isspace_def py_whitespace_def)

end
