(* ===== verification/Store.thy ===== *)
theory Store
  imports Chunker Addresser
begin

text \<open>
  The vector store and its manager. The store itself (ChromaDB, spec section 6) is a
  library the program calls; it is modelled from the spec's interface: a client holds
  named collections in creation order, a collection maps ids to (document, metadata)
  in insertion order, \<open>upsert\<close> replaces the entry of an existing id and appends a
  new one (a batch that is empty or repeats an id is rejected, as ChromaDB validates
  it), \<open>delete\<close> removes by ids or by a metadata filter of exactly one key,
  \<open>count\<close> and
  \<open>peek\<close> read it. Embeddings and ranking (\<open>query\<close>) are not modelled.
  \<open>ChromaDBManager\<close> (src/src/chroma_manager.py) wraps the client: each method is
  one definition, an exception it re-raises is an \<open>Inl\<close>, and an effect that
  happened before the exception (the collection \<open>add_texts\<close> creates) stays in the
  returned state.
\<close>

section \<open>Collections and the client\<close>

type_synonym collection = "(string \<times> (string \<times> meta)) list"

record chroma =
  collections :: "(string \<times> collection) list"

definition coll_upsert :: "(string \<times> string \<times> meta) list \<Rightarrow> collection \<Rightarrow> collection" where
  "coll_upsert recs c = AList.updates (map fst recs) (map snd recs) c"

definition coll_delete_ids :: "string list \<Rightarrow> collection \<Rightarrow> collection" where
  "coll_delete_ids ids c = filter (\<lambda>(i, _). i \<notin> set ids) c"

text \<open>ChromaDB's validation of a batch: the id list must be non-empty and
  without repetitions (\<open>DuplicateIDError\<close>); spec section 6 leaves a repeated id
  within one batch open.\<close>

definition upsert_batch :: "(string \<times> string \<times> meta) list \<Rightarrow> collection \<Rightarrow> py_error + collection" where
  "upsert_batch recs c =
     (if recs = [] then Inl (ValueError ''ids'')
      else if distinct (map fst recs) then Inr (coll_upsert recs c) else Inl DuplicateIDError)"

text \<open>A \<open>where\<close> dictionary: ChromaDB accepts exactly one key (several keys need
  an explicit \<open>$and\<close>, which the program never builds), and an entry matches when
  its metadata has that value under that key.\<close>

definition where_ok :: "meta \<Rightarrow> bool" where
  "where_ok w \<longleftrightarrow> length w = 1"

definition where_match :: "meta \<Rightarrow> meta \<Rightarrow> bool" where
  "where_match w m \<longleftrightarrow> list_all (\<lambda>(k, v). map_of m k = Some v) w"

definition coll_delete_where :: "meta \<Rightarrow> collection \<Rightarrow> collection" where
  "coll_delete_where w c = filter (\<lambda>(i, d, m). \<not> where_match w m) c"

definition client_get_or_create :: "string \<Rightarrow> chroma \<Rightarrow> chroma" where
  "client_get_or_create name db =
     (if name \<in> set (map fst (collections db)) then db
      else db\<lparr>collections := collections db @ [(name, [])]\<rparr>)"

definition client_get :: "string \<Rightarrow> chroma \<Rightarrow> py_error + collection" where
  "client_get name db =
     (case map_of (collections db) name of None \<Rightarrow> Inl (CollectionNotFound name) | Some c \<Rightarrow> Inr c)"

definition client_put :: "string \<Rightarrow> collection \<Rightarrow> chroma \<Rightarrow> chroma" where
  "client_put name c db = db\<lparr>collections := AList.update name c (collections db)\<rparr>"

definition client_delete :: "string \<Rightarrow> chroma \<Rightarrow> py_error + chroma" where
  "client_delete name db =
     (if name \<in> set (map fst (collections db))
      then Inr (db\<lparr>collections := AList.delete name (collections db)\<rparr>)
      else Inl (CollectionNotFound name))"

text \<open>Upsert into a named collection, creating it first (\<open>get_or_create\<close> then
  \<open>collection.upsert\<close>): when the upsert raises, the collection has been created.\<close>

definition client_upsert :: "string \<Rightarrow> (string \<times> string \<times> meta) list \<Rightarrow> chroma \<Rightarrow> (py_error + unit) \<times> chroma" where
  "client_upsert name recs db =
     (let db' = client_get_or_create name db
      in case upsert_batch recs (the (map_of (collections db') name)) of
           Inl e \<Rightarrow> (Inl e, db')
         | Inr c \<Rightarrow> (Inr (), client_put name c db'))"

text \<open>The collection a name denotes, an empty one when there is none (what
  \<open>get_or_create_collection\<close> returns).\<close>

abbreviation coll_or_empty :: "string \<Rightarrow> chroma \<Rightarrow> collection" where
  "coll_or_empty n db \<equiv> (case map_of (collections db) n of None \<Rightarrow> [] | Some c \<Rightarrow> c)"

definition store_wf :: "chroma \<Rightarrow> bool" where
  "store_wf db \<longleftrightarrow> distinct (map fst (collections db))
     \<and> (\<forall>(n, c) \<in> set (collections db). distinct (map fst c))"

section \<open>ChromaDBManager\<close>

text \<open>\<open>__init__\<close>: \<open>CHROMA_DB_PATH\<close> from the environment (after
  \<open>load_dotenv\<close>); a missing or empty value raises \<open>ValueError\<close>, otherwise the
  persistent client at that path is opened (\<open>open_db\<close>).\<close>

definition manager_init :: "(string \<Rightarrow> string option) \<Rightarrow> (string \<Rightarrow> chroma) \<Rightarrow> py_error + chroma" where
  "manager_init getenv open_db =
     (case getenv ''CHROMA_DB_PATH'' of
        None \<Rightarrow> Inl (ValueError ''CHROMA_DB_PATH'')
      | Some path \<Rightarrow> if path = [] then Inl (ValueError ''CHROMA_DB_PATH'') else Inr (open_db path))"

definition get_or_create_collection :: "string \<Rightarrow> chroma \<Rightarrow> chroma" where
  "get_or_create_collection name db = client_get_or_create name db"

definition delete_collection :: "string \<Rightarrow> chroma \<Rightarrow> py_error + chroma" where
  "delete_collection name db = client_delete name db"

definition list_collections :: "chroma \<Rightarrow> string list" where
  "list_collections db = map fst (collections db)"

text \<open>The splitter \<open>add_texts\<close> builds names no separators: langchain's default
  list applies.\<close>

definition default_separators :: "string list" where
  "default_separators = [''\<newline>\<newline>'', ''\<newline>'', '' '', '''']"

text \<open>Metadata of every chunk of text \<open>i\<close>: \<open>metadatas[i].copy() if metadatas and
  i < len(metadatas) else {}\<close>, then \<open>source\<close> if a source name is given.\<close>

definition text_metadata :: "meta list option \<Rightarrow> string option \<Rightarrow> nat \<Rightarrow> meta" where
  "text_metadata metadatas source_name i =
     (let m = (case metadatas of
                 Some ms \<Rightarrow> if ms \<noteq> [] \<and> i < length ms then ms ! i else []
               | None \<Rightarrow> [])
      in case source_name of
           Some s \<Rightarrow> if s \<noteq> [] then AList.update ''source'' (MStr s) m else m
         | None \<Rightarrow> m)"

definition text_records ::
  "(string \<Rightarrow> string) \<Rightarrow> chunk_policy \<Rightarrow> meta list option \<Rightarrow> string option \<Rightarrow> string list
   \<Rightarrow> (string \<times> string \<times> meta) list" where
  "text_records sha splitter metadatas source_name texts =
     concat (map (\<lambda>(i, text). map (\<lambda>chunk. (content_id sha chunk, chunk, text_metadata metadatas source_name i))
                                  (split_text splitter text))
                 (enumerate 0 texts))"

definition add_texts ::
  "(string \<Rightarrow> string) \<Rightarrow> string \<Rightarrow> string list \<Rightarrow> meta list option \<Rightarrow> string option
   \<Rightarrow> int \<Rightarrow> int \<Rightarrow> chroma \<Rightarrow> (py_error + unit) \<times> chroma" where
  "add_texts sha collection_name texts metadatas source_name sz ov db =
     (let db1 = get_or_create_collection collection_name db
      in case make_policy sz ov default_separators of
           Inl e \<Rightarrow> (Inl e, db1)
         | Inr splitter \<Rightarrow>
             (let recs = text_records sha splitter metadatas source_name texts
              in if recs = [] then (Inr (), db1)
                 else client_upsert collection_name recs db1))"

definition delete_by_ids :: "string \<Rightarrow> string list \<Rightarrow> chroma \<Rightarrow> py_error + chroma" where
  "delete_by_ids collection_name ids db =
     (case client_get collection_name db of
        Inl e \<Rightarrow> Inl e
      | Inr c \<Rightarrow> Inr (client_put collection_name (coll_delete_ids ids c) db))"

definition delete_by_metadata :: "string \<Rightarrow> meta \<Rightarrow> chroma \<Rightarrow> py_error + chroma" where
  "delete_by_metadata collection_name where_filter db =
     (case client_get collection_name db of
        Inl e \<Rightarrow> Inl e
      | Inr c \<Rightarrow> if where_ok where_filter
                 then Inr (client_put collection_name (coll_delete_where where_filter c) db)
                 else Inl (ValueError ''where''))"

definition count_items :: "string \<Rightarrow> chroma \<Rightarrow> py_error + nat" where
  "count_items collection_name db =
     (case client_get collection_name db of Inl e \<Rightarrow> Inl e | Inr c \<Rightarrow> Inr (length c))"

definition peek_collection :: "string \<Rightarrow> nat \<Rightarrow> chroma \<Rightarrow> py_error + collection" where
  "peek_collection collection_name n db =
     (case client_get collection_name db of Inl e \<Rightarrow> Inl e | Inr c \<Rightarrow> Inr (take n c))"

section \<open>The manager's state-changing calls\<close>

text \<open>The calls of \<open>ChromaDBManager\<close> that change the store, as a datatype, and
  the state each leaves, whether it returns or raises.\<close>

datatype manager_op =
    GetOrCreate string
  | DeleteCollection string
  | AddTexts string "string list" "meta list option" "string option" int int
  | DeleteByIds string "string list"
  | DeleteByMetadata string meta

definition state_after :: "chroma \<Rightarrow> py_error + chroma \<Rightarrow> chroma" where
  "state_after db r = (case r of Inl _ \<Rightarrow> db | Inr db' \<Rightarrow> db')"

fun manager_step :: "(string \<Rightarrow> string) \<Rightarrow> manager_op \<Rightarrow> chroma \<Rightarrow> chroma" where
  "manager_step sha (GetOrCreate n) db = get_or_create_collection n db"
| "manager_step sha (DeleteCollection n) db = state_after db (delete_collection n db)"
| "manager_step sha (AddTexts n texts ms src sz ov) db = snd (add_texts sha n texts ms src sz ov db)"
| "manager_step sha (DeleteByIds n ids) db = state_after db (delete_by_ids n ids db)"
| "manager_step sha (DeleteByMetadata n w) db = state_after db (delete_by_metadata n w db)"

fun manager_run :: "(string \<Rightarrow> string) \<Rightarrow> manager_op list \<Rightarrow> chroma \<Rightarrow> chroma" where
  "manager_run sha [] db = db"
| "manager_run sha (op # ops) db = manager_run sha ops (manager_step sha op db)"

section \<open>Lemmas on the store\<close>

lemma coll_upsert_lookup:
  "map_of (coll_upsert recs c) = (map_of c)(map fst recs [\<mapsto>] map snd recs)"
  by (simp add: coll_upsert_def updates_conv')

lemma coll_upsert_distinct: "distinct (map fst c) \<Longrightarrow> distinct (map fst (coll_upsert recs c))"
  by (simp add: coll_upsert_def distinct_updates)

lemma coll_upsert_keys: "fst ` set (coll_upsert recs c) = fst ` set c \<union> set (map fst recs)"
proof -
  have "dom (map_of (coll_upsert recs c)) = dom (map_of c) \<union> set (map fst recs)"
    by (auto simp: coll_upsert_lookup dom_map_upds)
  then show ?thesis by (simp add: dom_map_of_conv_image_fst Un_commute)
qed

lemma distinct_length_keys: "distinct (map fst c) \<Longrightarrow> length c = card (fst ` set c)"
  by (metis distinct_card length_map set_map)

lemma coll_upsert_length:
  "distinct (map fst c) \<Longrightarrow> length (coll_upsert recs c) = card (fst ` set c \<union> set (map fst recs))"
  using distinct_length_keys [OF coll_upsert_distinct] coll_upsert_keys by metis

lemma coll_upsert_same_keys:
  "distinct (map fst c) \<Longrightarrow> set (map fst recs) \<subseteq> fst ` set c \<Longrightarrow> length (coll_upsert recs c) = length c"
  by (simp add: coll_upsert_length distinct_length_keys Un_absorb2)

lemma distinct_map_fst_filter: "distinct (map fst c) \<Longrightarrow> distinct (map fst (filter P c))"
  by (induction c) auto

lemma collections_get_or_create:
  "collections (client_get_or_create name db) =
     (if name \<in> set (map fst (collections db)) then collections db else collections db @ [(name, [])])"
  by (simp add: client_get_or_create_def)

lemma store_wf_get_or_create: "store_wf db \<Longrightarrow> store_wf (client_get_or_create name db)"
  by (auto simp: store_wf_def client_get_or_create_def)

lemma set_update_subset: "set (AList.update k v al) \<subseteq> insert (k, v) (set al)"
  by (induction al) auto

lemma set_delete_subset: "set (AList.delete k al) \<subseteq> set al"
  by (induction al) auto

lemma store_wf_put: "store_wf db \<Longrightarrow> distinct (map fst c) \<Longrightarrow> store_wf (client_put name c db)"
proof -
  assume wf: "store_wf db" and c: "distinct (map fst c)"
  have "\<forall>(n, c') \<in> set (AList.update name c (collections db)). distinct (map fst c')"
    using wf c set_update_subset [of name c "collections db"] by (fastforce simp: store_wf_def)
  with wf show ?thesis by (simp add: store_wf_def client_put_def distinct_update)
qed

lemma client_get_wf: "store_wf db \<Longrightarrow> client_get name db = Inr c \<Longrightarrow> distinct (map fst c)"
  by (auto simp: store_wf_def client_get_def split: option.splits dest: map_of_SomeD)

lemma store_wf_delete: "store_wf db \<Longrightarrow> client_delete name db = Inr db' \<Longrightarrow> store_wf db'"
  using set_delete_subset [of name "collections db"]
  by (fastforce simp: store_wf_def client_delete_def distinct_delete split: if_splits)

lemma get_or_create_idem [simp]: "client_get_or_create n (client_get_or_create n db) = client_get_or_create n db"
  by (simp add: client_get_or_create_def)

lemma get_or_create_present: "name \<in> set (map fst (collections (client_get_or_create name db)))"
  by (simp add: client_get_or_create_def)

lemma map_of_get_or_create:
  "map_of (collections (client_get_or_create name db)) name
     = Some (case map_of (collections db) name of None \<Rightarrow> [] | Some c \<Rightarrow> c)"
proof (cases "map_of (collections db) name")
  case None
  then have "name \<notin> set (map fst (collections db))"
    by (simp add: map_of_eq_None_iff)
  with None show ?thesis by (simp add: client_get_or_create_def map_add_def)
next
  case (Some c)
  then have "name \<in> set (map fst (collections db))"
    by (force dest: map_of_SomeD)
  with Some show ?thesis by (simp add: client_get_or_create_def)
qed

lemma client_get_put: "client_get name (client_put name c db) = Inr c"
  by (simp add: client_get_def client_put_def update_conv')

lemma client_get_put_other: "name' \<noteq> name \<Longrightarrow> client_get name' (client_put name c db) = client_get name' db"
  by (simp add: client_get_def client_put_def update_conv')

lemma client_get_get_or_create:
  "client_get n (client_get_or_create n db) = Inr (case map_of (collections db) n of None \<Rightarrow> [] | Some c \<Rightarrow> c)"
  by (simp add: client_get_def map_of_get_or_create)

lemma client_upsert_eq:
  "client_upsert name recs db =
     (case upsert_batch recs (coll_or_empty name db) of
        Inl e \<Rightarrow> (Inl e, client_get_or_create name db)
      | Inr c \<Rightarrow> (Inr (), client_put name c (client_get_or_create name db)))"
  by (simp add: client_upsert_def Let_def map_of_get_or_create)

lemma upsert_batch_Inr: "upsert_batch recs c = Inr c' \<longleftrightarrow> recs \<noteq> [] \<and> distinct (map fst recs) \<and> c' = coll_upsert recs c"
  by (auto simp: upsert_batch_def)

lemma upsert_batch_cases:
  obtains (ok) "recs \<noteq> []" "distinct (map fst recs)" "upsert_batch recs c = Inr (coll_upsert recs c)"
  | (empty) "recs = []" "upsert_batch recs c = Inl (ValueError ''ids'')"
  | (dup) "recs \<noteq> []" "\<not> distinct (map fst recs)" "upsert_batch recs c = Inl DuplicateIDError"
  by (cases "recs = []"; cases "distinct (map fst recs)") (simp_all add: upsert_batch_def)

lemma client_upsert_ok:
  "recs \<noteq> [] \<Longrightarrow> distinct (map fst recs) \<Longrightarrow>
   client_upsert name recs db = (Inr (), client_put name (coll_upsert recs (coll_or_empty name db)) (client_get_or_create name db))"
  by (simp add: client_upsert_eq upsert_batch_def)

lemma client_upsert_get:
  "client_get name (snd (client_upsert name recs db))
     = Inr (case upsert_batch recs (coll_or_empty name db) of Inl _ \<Rightarrow> coll_or_empty name db | Inr c \<Rightarrow> c)"
  by (simp add: client_upsert_eq client_get_put client_get_get_or_create split: sum.split)

lemma client_upsert_fst:
  "fst (client_upsert name recs db) =
     (if recs = [] then Inl (ValueError ''ids'') else if distinct (map fst recs) then Inr () else Inl DuplicateIDError)"
  by (simp add: client_upsert_eq upsert_batch_def)

lemma client_upsert_snd:
  "snd (client_upsert name recs db) =
     (if recs \<noteq> [] \<and> distinct (map fst recs)
      then client_put name (coll_upsert recs (coll_or_empty name db)) (client_get_or_create name db)
      else client_get_or_create name db)"
  by (auto simp: client_upsert_eq upsert_batch_def)

lemma store_wf_upsert: "store_wf db \<Longrightarrow> store_wf (snd (client_upsert name recs db))"
proof -
  assume wf: "store_wf db"
  let ?db1 = "client_get_or_create name db"
  have wf1: "store_wf ?db1" using wf by (rule store_wf_get_or_create)
  have "(name, coll_or_empty name db) \<in> set (collections ?db1)"
    by (rule map_of_SomeD) (rule map_of_get_or_create)
  with wf1 have "distinct (map fst (coll_or_empty name db))"
    by (auto simp: store_wf_def)
  then show ?thesis
    using wf1 by (auto simp: client_upsert_eq upsert_batch_def store_wf_put coll_upsert_distinct split: sum.split)
qed

lemma store_wf_delete_by_ids: "store_wf db \<Longrightarrow> delete_by_ids n ids db = Inr db' \<Longrightarrow> store_wf db'"
  by (auto simp: delete_by_ids_def coll_delete_ids_def split: sum.splits
      intro!: store_wf_put distinct_map_fst_filter dest: client_get_wf)

lemma store_wf_delete_by_metadata: "store_wf db \<Longrightarrow> delete_by_metadata n w db = Inr db' \<Longrightarrow> store_wf db'"
  by (auto simp: delete_by_metadata_def coll_delete_where_def split: sum.splits if_splits
      intro!: store_wf_put distinct_map_fst_filter dest: client_get_wf)

lemma store_wf_add_texts: "store_wf db \<Longrightarrow> store_wf (snd (add_texts sha n texts ms src sz ov db))"
  by (auto simp: add_texts_def Let_def get_or_create_collection_def split: sum.split
      intro: store_wf_upsert store_wf_get_or_create)

lemma store_wf_manager_step: "store_wf db \<Longrightarrow> store_wf (manager_step sha op db)"
  by (cases op) (auto simp: state_after_def get_or_create_collection_def delete_collection_def
      store_wf_add_texts split: sum.split intro: store_wf_get_or_create store_wf_delete
      store_wf_delete_by_ids store_wf_delete_by_metadata)

lemma map_of_filter_keys: "map_of (filter (\<lambda>(i, _). i \<notin> S) c) = map_of c |` (- S)"
  by (induction c) (auto simp: restrict_map_def fun_eq_iff)

lemma coll_upsert_Nil [simp]: "coll_upsert [] c = c"
  by (simp add: coll_upsert_def)

lemma add_texts_get:
  "client_get n (snd (add_texts sha n texts ms src sz ov db)) =
     Inr (case make_policy sz ov default_separators of
            Inl _ \<Rightarrow> coll_or_empty n db
          | Inr sp \<Rightarrow> if distinct (map fst (text_records sha sp ms src texts))
                     then coll_upsert (text_records sha sp ms src texts) (coll_or_empty n db)
                     else coll_or_empty n db)"
  by (auto simp: add_texts_def Let_def get_or_create_collection_def client_get_get_or_create
      client_upsert_get upsert_batch_def map_of_get_or_create split: sum.split)

lemma add_texts_outcome:
  "fst (add_texts sha n texts ms src sz ov db) =
     (case make_policy sz ov default_separators of
        Inl e \<Rightarrow> Inl e
      | Inr sp \<Rightarrow> if distinct (map fst (text_records sha sp ms src texts)) then Inr () else Inl DuplicateIDError)"
  by (auto simp: add_texts_def Let_def client_upsert_eq upsert_batch_def split: sum.split)

lemma client_get_Inr: "client_get n db = Inr c \<longleftrightarrow> map_of (collections db) n = Some c"
  by (simp add: client_get_def split: option.split)

lemma store_wf_manager_run: "store_wf db \<Longrightarrow> store_wf (manager_run sha ops db)"
  by (induction ops arbitrary: db) (auto intro: store_wf_manager_step)

lemma text_metadata_eq:
  "text_metadata ms src i =
     (let m = (case ms of Some l \<Rightarrow> if i < length l then l ! i else [] | None \<Rightarrow> [])
      in case src of Some s \<Rightarrow> if s \<noteq> [] then AList.update ''source'' (MStr s) m else m | None \<Rightarrow> m)"
  by (cases ms) (auto simp: text_metadata_def)

lemma add_texts_not_distinct:
  "make_policy sz ov default_separators = Inr sp \<Longrightarrow> \<not> distinct (map fst (text_records sha sp ms src texts)) \<Longrightarrow>
   add_texts sha n texts ms src sz ov db = (Inl DuplicateIDError, get_or_create_collection n db)"
  by (auto simp: add_texts_def Let_def client_upsert_eq upsert_batch_def get_or_create_collection_def)

text \<open>C27. \<open>add_texts\<close> with a valid chunk policy and a batch without
  repeated ids returns normally and leaves the target collection as the old one (or an
  empty one) upserted with one record per chunk of every text, texts in order and chunks
  in order: id the SHA-256 of the chunk, document the chunk, metadata
  \<open>metadatas[i]\<close> (or an empty dictionary) with \<open>source\<close> set to a non-empty source
  name.\<close>

theorem add_texts_result:
  assumes "make_policy sz ov default_separators = Inr sp"
    and recs: "recs = concat (map (\<lambda>i. map (\<lambda>c. (content_id sha c, c,
                 (let m = (case ms of Some l \<Rightarrow> if i < length l then l ! i else [] | None \<Rightarrow> [])
                  in case src of Some s \<Rightarrow> if s \<noteq> [] then AList.update ''source'' (MStr s) m else m
                               | None \<Rightarrow> m)))
               (split_text sp (texts ! i))) [0..<length texts])"
    and "distinct (map fst recs)"
  shows "fst (add_texts sha n texts ms src sz ov db) = Inr ()
    \<and> client_get n (snd (add_texts sha n texts ms src sz ov db)) = Inr (coll_upsert recs (coll_or_empty n db))"
proof -
  have "text_records sha sp ms src texts = recs"
    unfolding recs text_records_def map_enumerate_upt by (simp add: text_metadata_eq)
  with assms show ?thesis
    by (simp add: add_texts_get add_texts_outcome)
qed

theorem add_texts_result_witness:
  "make_policy 1000 200 default_separators
     = Inr \<lparr>chunk_size = 1000, chunk_overlap = 200, separators = default_separators\<rparr>
   \<and> client_get ''docs'' (snd (add_texts id ''docs'' [''hello'', ''world''] None (Some ''s'') 1000 200
       \<lparr>collections = []\<rparr>))
     = Inr [(''hello'', ''hello'', [(''source'', MStr ''s'')]), (''world'', ''world'', [(''source'', MStr ''s'')])]"
proof -
  have p: "make_policy 1000 200 default_separators
     = Inr \<lparr>chunk_size = 1000, chunk_overlap = 200, separators = default_separators\<rparr>"
    by (simp add: make_policy_def)
  have r: "[(''hello'', ''hello'', [(''source'', MStr ''s'')]), (''world'', ''world'', [(''source'', MStr ''s'')])]
     = concat (map (\<lambda>i. map (\<lambda>c. (content_id id c, c,
                 (let m = (case (None :: meta list option) of Some l \<Rightarrow> if i < length l then l ! i else [] | None \<Rightarrow> [])
                  in case Some ''s'' of Some s \<Rightarrow> if s \<noteq> [] then AList.update ''source'' (MStr s) m else m
                               | None \<Rightarrow> m)))
               (split_text \<lparr>chunk_size = 1000, chunk_overlap = 200, separators = default_separators\<rparr>
                  ([''hello'', ''world''] ! i))) [0..<length [''hello'', ''world'']])"
    by code_simp
  have d: "distinct (map fst [(''hello'', ''hello'', [(''source'', MStr ''s'')]),
                              (''world'', ''world'', [(''source'', MStr ''s'')])])" by simp
  from add_texts_result [OF p r d, of "''docs''" "\<lparr>collections = []\<rparr>"] p
  show ?thesis by (simp add: coll_upsert_def)
qed



text \<open>C29. An invalid chunk size or overlap makes \<open>add_texts\<close>
  raise, but only after \<open>get_or_create_collection\<close> has run: the collection exists
  afterwards, empty if it was new.\<close>

theorem add_texts_invalid_policy:
  "make_policy sz ov default_separators = Inl e \<Longrightarrow>
   add_texts sha n texts ms src sz ov db = (Inl e, get_or_create_collection n db)
   \<and> n \<in> set (list_collections (snd (add_texts sha n texts ms src sz ov db)))"
  by (simp add: add_texts_def list_collections_def get_or_create_collection_def client_get_or_create_def)

theorem add_texts_invalid_policy_witness:
  "make_policy 100 100 default_separators = Inl InvalidPolicyError
   \<and> ''docs'' \<in> set (list_collections (snd (add_texts id ''docs'' [''x''] None None 100 100 \<lparr>collections = []\<rparr>)))"
proof -
  have p: "make_policy 100 100 default_separators = Inl InvalidPolicyError"
    by (simp add: make_policy_def)
  from add_texts_invalid_policy [OF p, of id "''docs''" "[''x'']" None None "\<lparr>collections = []\<rparr>"] p
  show ?thesis by blast
qed

text \<open>C26. Content-addressed ids make \<open>add_texts\<close> idempotent
  (spec section 8): adding the same texts again leaves the collection's count as it was.\<close>

theorem add_texts_idempotent:
  assumes "store_wf db"
  shows "count_items n (snd (add_texts sha n texts ms src sz ov (snd (add_texts sha n texts ms src sz ov db))))
       = count_items n (snd (add_texts sha n texts ms src sz ov db))"
proof -
  let ?db1 = "snd (add_texts sha n texts ms src sz ov db)"
  obtain c1 where c1: "client_get n ?db1 = Inr c1"
    using add_texts_get [of n sha texts ms src sz ov db] by blast
  have wf1: "store_wf ?db1" using assms by (rule store_wf_add_texts)
  have d1: "distinct (map fst c1)" using client_get_wf [OF wf1 c1] .
  have m1: "map_of (collections ?db1) n = Some c1" using c1 by (simp add: client_get_Inr)
  show ?thesis
  proof (cases "make_policy sz ov default_separators")
    case (Inl e)
    then show ?thesis
      using add_texts_get [of n sha texts ms src sz ov ?db1] c1 m1 by (simp add: count_items_def)
  next
    case (Inr sp)
    let ?recs = "text_records sha sp ms src texts"
    show ?thesis
    proof (cases "distinct (map fst ?recs)")
      case True
      then have "c1 = coll_upsert ?recs (coll_or_empty n db)"
        using c1 add_texts_get [of n sha texts ms src sz ov db] Inr by simp
      then have "set (map fst ?recs) \<subseteq> fst ` set c1"
        by (simp add: coll_upsert_keys)
      then have "length (coll_upsert ?recs c1) = length c1"
        using d1 by (rule coll_upsert_same_keys [rotated])
      then show ?thesis
        using add_texts_get [of n sha texts ms src sz ov ?db1] Inr c1 m1 True by (simp add: count_items_def)
    next
      case False
      then show ?thesis
        using add_texts_get [of n sha texts ms src sz ov ?db1] Inr c1 m1 by (simp add: count_items_def)
    qed
  qed
qed

theorem add_texts_idempotent_witness:
  "count_items ''docs'' (snd (add_texts id ''docs'' [''hi''] None None 1000 200
       (snd (add_texts id ''docs'' [''hi''] None None 1000 200 \<lparr>collections = []\<rparr>))))
   = count_items ''docs'' (snd (add_texts id ''docs'' [''hi''] None None 1000 200 \<lparr>collections = []\<rparr>))"
proof -
  have "store_wf \<lparr>collections = []\<rparr>" by (simp add: store_wf_def)
  then show ?thesis by (rule add_texts_idempotent)
qed

text \<open>C33. \<open>delete_by_ids\<close> on an existing collection removes
  exactly the listed ids from it and leaves every other collection as it was.\<close>

theorem delete_by_ids_result:
  assumes "client_get n db = Inr c"
  shows "\<exists>db'. delete_by_ids n ids db = Inr db'
           \<and> client_get n db' = Inr (coll_delete_ids ids c)
           \<and> map_of (coll_delete_ids ids c) = map_of c |` (- set ids)
           \<and> (\<forall>n'. n' \<noteq> n \<longrightarrow> client_get n' db' = client_get n' db)"
  using assms
  by (auto simp: delete_by_ids_def client_get_put client_get_put_other coll_delete_ids_def
      map_of_filter_keys)

theorem delete_by_ids_result_witness:
  "client_get ''docs'' \<lparr>collections = [(''docs'', [(''a'', (''x'', [])), (''b'', (''y'', []))])]\<rparr>
     = Inr [(''a'', (''x'', [])), (''b'', (''y'', []))]
   \<and> coll_delete_ids [''a''] [(''a'', (''x'', [])), (''b'', (''y'', []))] = [(''b'', (''y'', []))]"
proof -
  have g: "client_get ''docs'' \<lparr>collections = [(''docs'', [(''a'', (''x'', [])), (''b'', (''y'', []))])]\<rparr>
     = Inr [(''a'', (''x'', [])), (''b'', (''y'', []))]"
    by (simp add: client_get_def)
  from delete_by_ids_result [OF g, of "[''a'']"] g show ?thesis
    by (simp add: coll_delete_ids_def)
qed

text \<open>C34. The manager's calls on a collection that does not
  exist raise (\<open>get_collection\<close> or \<open>delete_collection\<close> fails) and change
  nothing: \<open>delete_collection\<close>, \<open>delete_by_ids\<close>, \<open>delete_by_metadata\<close>,
  \<open>count_items\<close> and \<open>peek_collection\<close>. For the last two this contradicts
  their docstrings (src/src/chroma_manager.py lines 269-270 and 289-290), which
  promise \<open>None\<close> on error: the code logs and re-raises, so the caller gets the
  exception, never \<open>None\<close>.\<close>

theorem missing_collection_errors:
  assumes "n \<notin> set (list_collections db)"
  shows "delete_collection n db = Inl (CollectionNotFound n)
    \<and> delete_by_ids n ids db = Inl (CollectionNotFound n)
    \<and> delete_by_metadata n w db = Inl (CollectionNotFound n)
    \<and> count_items n db = Inl (CollectionNotFound n)
    \<and> peek_collection n k db = Inl (CollectionNotFound n)"
proof -
  have "map_of (collections db) n = None"
    using assms by (simp add: list_collections_def map_of_eq_None_iff)
  with assms show ?thesis
    by (simp add: list_collections_def delete_collection_def client_delete_def delete_by_ids_def
        delete_by_metadata_def count_items_def peek_collection_def client_get_def)
qed

theorem missing_collection_errors_witness:
  "''gone'' \<notin> set (list_collections \<lparr>collections = []\<rparr>)
   \<and> count_items ''gone'' \<lparr>collections = []\<rparr> = Inl (CollectionNotFound ''gone'')"
proof -
  have h: "''gone'' \<notin> set (list_collections \<lparr>collections = []\<rparr>)" by (simp add: list_collections_def)
  from missing_collection_errors [OF h] h show ?thesis by simp
qed

text \<open>C35. The manager starts only with a non-empty
  \<open>CHROMA_DB_PATH\<close>, and then opens the client at that path; otherwise it raises
  \<open>ValueError\<close> naming the variable, and only when the variable is missing or
  empty.\<close>

theorem manager_init_result:
  "(manager_init getenv open_db = Inr db
      \<longleftrightarrow> (\<exists>path. getenv ''CHROMA_DB_PATH'' = Some path \<and> path \<noteq> [] \<and> db = open_db path))
   \<and> (manager_init getenv open_db = Inl e
      \<longleftrightarrow> e = ValueError ''CHROMA_DB_PATH''
          \<and> (getenv ''CHROMA_DB_PATH'' = None \<or> getenv ''CHROMA_DB_PATH'' = Some []))"
  by (auto simp: manager_init_def split: option.split)

end
