(* ===== verification/Extractor.thy ===== *)
theory Extractor
  imports Prelude
begin

text \<open>
  \<open>WebContentExtractor\<close> (src/src/url_processor.py). HTTP (\<open>requests\<close>) and HTML
  parsing (\<open>BeautifulSoup\<close>) are library calls and are parameters of the model, a
  record \<open>web_env\<close>: the scheme and host \<open>urlparse\<close> finds in a URL, the page
  fetched for a URL with a given \<open>User-Agent\<close> and timeout, or the error raised, the fields the
  parser finds in a page (or none, when parsing raises), the visible text the parser
  extracts, and the clock. What the program itself computes is modelled: its state
  (timeout and \<open>User-Agent\<close>, \<open>extractor_init\<close>), the URL check, the shape of
  the metadata dictionary with its fallback, and \<open>clean_text\<close>, the regular
  expression normalisation of the extracted text.
\<close>

record page_fields =
  pf_title :: string
  pf_description :: string
  pf_keywords :: string
  pf_author :: string
  pf_language :: string

record web_env =
  url_parts :: "string \<Rightarrow> string \<times> string"
  fetch_page :: "string \<Rightarrow> string \<Rightarrow> int \<Rightarrow> py_error + string"
  parse_fields :: "string \<Rightarrow> page_fields option"
  soup_text :: "string \<Rightarrow> py_error + string"
  clock :: string

text \<open>The extractor's own state: the timeout of its requests and the
  \<open>User-Agent\<close> header of its \<open>requests.Session\<close>; \<open>fetch_page env url ua t\<close>
  above is the response to a GET of \<open>url\<close> with that header and timeout.\<close>

record extractor =
  ex_timeout :: int
  ex_user_agent :: string

definition default_user_agent :: string where
  "default_user_agent = ''Mozilla/5.0 (Windows NT 10.0; Win64; x64) AppleWebKit/537.36''"

text \<open>\<open>WebContentExtractor.__init__\<close>: \<open>if user_agent:\<close> is Python truthiness, so
  \<open>None\<close> and the empty string both select the default header.\<close>

definition extractor_init :: "int \<Rightarrow> string option \<Rightarrow> extractor" where
  "extractor_init timeout user_agent =
     \<lparr>ex_timeout = timeout,
      ex_user_agent = (case user_agent of
                         Some ua \<Rightarrow> if ua \<noteq> [] then ua else default_user_agent
                       | None \<Rightarrow> default_user_agent)\<rparr>"

section \<open>Text normalisation\<close>

text \<open>\<open>re.sub(pattern, r, s)\<close> for a pattern matching the maximal runs of at least
  \<open>n\<close> characters of a class: every such run is replaced by \<open>r\<close>.\<close>

function squeeze_runs :: "(char \<Rightarrow> bool) \<Rightarrow> nat \<Rightarrow> string \<Rightarrow> string \<Rightarrow> string" where
  "squeeze_runs P n r [] = []"
| "squeeze_runs P n r (c # cs) =
     (if P c then (let run = c # takeWhile P cs
                   in (if n \<le> length run then r else run) @ squeeze_runs P n r (dropWhile P cs))
      else c # squeeze_runs P n r cs)"
  by pat_completeness auto
termination
  by (relation "measure (\<lambda>(P, n, r, s). length s)") (auto simp: le_imp_less_Suc length_dropWhile_le)

text \<open>\<open>str.strip()\<close>.\<close>

definition py_strip :: "string \<Rightarrow> string" where
  "py_strip s = rev (dropWhile py_isspace (rev (dropWhile py_isspace s)))"

definition is_crlftab :: "char \<Rightarrow> bool" where
  "is_crlftab c \<longleftrightarrow> c \<in> {CHR 0x0D, CHR 0x0A, CHR 0x09}"

definition clean_text :: "string \<Rightarrow> string" where
  "clean_text text =
     (if text = [] then []
      else (let t1 = squeeze_runs py_isspace 1 '' '' text;
                t2 = squeeze_runs (\<lambda>c. c = CHR ''.'') 3 ''...'' t1;
                t3 = squeeze_runs (\<lambda>c. c = CHR ''!'') 2 ''!'' t2;
                t4 = squeeze_runs (\<lambda>c. c = CHR ''?'') 2 ''?'' t3;
                t5 = squeeze_runs is_crlftab 1 '' '' t4
            in py_strip t5))"

section \<open>Extraction\<close>

text \<open>\<open>extract_text\<close>: the parser's text, then \<open>clean_text\<close>; a parser error
  propagates.\<close>

definition extract_text :: "web_env \<Rightarrow> string \<Rightarrow> py_error + string" where
  "extract_text env html =
     (case soup_text env html of Inl e \<Rightarrow> Inl e | Inr text \<Rightarrow> Inr (clean_text text))"

text \<open>\<open>extract_metadata\<close>: \<open>url\<close> and \<open>processed_date\<close> first, then the five page
  fields; when parsing raises, the same keys with empty values.\<close>

definition extract_metadata :: "web_env \<Rightarrow> string \<Rightarrow> string \<Rightarrow> meta" where
  "extract_metadata env html url =
     (case parse_fields env html of
        Some f \<Rightarrow>
          [(''url'', MStr url), (''processed_date'', MStr (clock env)),
           (''title'', MStr (pf_title f)), (''description'', MStr (pf_description f)),
           (''keywords'', MStr (pf_keywords f)), (''author'', MStr (pf_author f)),
           (''language'', MStr (pf_language f))]
      | None \<Rightarrow>
          [(''url'', MStr url), (''processed_date'', MStr (clock env)),
           (''title'', MStr ''''), (''description'', MStr ''''), (''keywords'', MStr ''''),
           (''author'', MStr ''''), (''language'', MStr '''')])"

text \<open>\<open>fetch_content\<close>: a URL without scheme or host (after \<open>urlparse\<close>) raises
  \<open>ValueError\<close>; otherwise the page, or the error of the HTTP request
  (\<open>self.session.get(url, timeout=self.timeout)\<close> and \<open>raise_for_status\<close>). The
  status code and the content-type warning do not reach the caller's result.\<close>

definition fetch_content :: "web_env \<Rightarrow> extractor \<Rightarrow> string \<Rightarrow> py_error + string" where
  "fetch_content env ex url =
     (let (scheme, netloc) = url_parts env url
      in if scheme = [] \<or> netloc = [] then Inl (ValueError url)
         else fetch_page env url (ex_user_agent ex) (ex_timeout ex))"

text \<open>Extraction reads the page, not the request: it does not depend on \<open>fetch_page\<close>.\<close>

lemma fetch_update_sel:
  "clock (env\<lparr>fetch_page := g\<rparr>) = clock env"
  "parse_fields (env\<lparr>fetch_page := g\<rparr>) = parse_fields env"
  "soup_text (env\<lparr>fetch_page := g\<rparr>) = soup_text env"
  "url_parts (env\<lparr>fetch_page := g\<rparr>) = url_parts env"
  by simp_all
lemma extract_text_fetch_update [simp]: "extract_text (env\<lparr>fetch_page := g\<rparr>) = extract_text env"
  unfolding extract_text_def fetch_update_sel ..
lemma extract_metadata_fetch_update [simp]: "extract_metadata (env\<lparr>fetch_page := g\<rparr>) = extract_metadata env"
  unfolding extract_metadata_def fetch_update_sel ..
lemma extract_metadata_url [simp]: "map_of (extract_metadata env html url) ''url'' = Some (MStr url)"
  by (simp add: extract_metadata_def split: option.split)

lemma set_squeeze_runs: "set (squeeze_runs P n r s) \<subseteq> set s \<union> set r"
proof (induction P n r s rule: squeeze_runs.induct)
  case (2 P n r c cs)
  then show ?case
    by (auto simp: Let_def dest: set_takeWhileD set_dropWhileD)
qed simp

lemma squeeze_runs_class:
  "n \<le> 1 \<Longrightarrow> x \<in> set (squeeze_runs P n r s) \<Longrightarrow> P x \<Longrightarrow> x \<in> set r"
proof (induction P n r s rule: squeeze_runs.induct)
  case (2 P n r c cs)
  then show ?case by (auto simp: Let_def split: if_splits)
qed simp

lemma set_py_strip: "set (py_strip s) \<subseteq> set s"
proof -
  have dw: "set (dropWhile P xs) \<subseteq> set xs" for P and xs :: string
    by (auto dest: set_dropWhileD)
  show ?thesis
    using dw [of py_isspace s] dw [of py_isspace "rev (dropWhile py_isspace s)"]
    by (simp add: py_strip_def)
qed

lemma clean_text_whitespace: "c \<in> set (clean_text t) \<Longrightarrow> py_isspace c \<Longrightarrow> c = CHR '' ''"
proof -
  assume c: "c \<in> set (clean_text t)" and sp: "py_isspace c"
  let ?t1 = "squeeze_runs py_isspace 1 '' '' t"
  let ?t2 = "squeeze_runs (\<lambda>c. c = CHR ''.'') 3 ''...'' ?t1"
  let ?t3 = "squeeze_runs (\<lambda>c. c = CHR ''!'') 2 ''!'' ?t2"
  let ?t4 = "squeeze_runs (\<lambda>c. c = CHR ''?'') 2 ''?'' ?t3"
  let ?t5 = "squeeze_runs is_crlftab 1 '' '' ?t4"
  have "set ?t5 \<subseteq> set ?t1 \<union> set ''...!? ''"
    using set_squeeze_runs [of is_crlftab 1 "'' ''" ?t4] set_squeeze_runs [of "\<lambda>c. c = CHR ''?''" 2 "''?''" ?t3]
      set_squeeze_runs [of "\<lambda>c. c = CHR ''!''" 2 "''!''" ?t2]
      set_squeeze_runs [of "\<lambda>c. c = CHR ''.''" 3 "''...''" ?t1]
    by auto
  moreover have "set (clean_text t) \<subseteq> set ?t5"
    using set_py_strip [of ?t5] by (simp add: clean_text_def Let_def)
  ultimately have "set (clean_text t) \<subseteq> set ?t1 \<union> set ''...!? ''" by blast
  with c have "c \<in> set ?t1 \<or> c \<in> set ''...!? ''" by blast
  then show ?thesis
  proof
    assume "c \<in> set ?t1"
    from squeeze_runs_class [OF _ this sp] show ?thesis by simp
  next
    assume "c \<in> set ''...!? ''"
    with sp show ?thesis by (auto simp: py_isspace_def py_whitespace_def)
  qed
qed


lemma last_dropWhile_eq: "dropWhile P xs \<noteq> [] \<Longrightarrow> last (dropWhile P xs) = last xs"
  by (induction xs) auto

lemma py_strip_ends:
  assumes "py_strip s \<noteq> []"
  shows "\<not> py_isspace (hd (py_strip s)) \<and> \<not> py_isspace (last (py_strip s))"
proof -
  let ?r = "rev (dropWhile py_isspace s)"
  have ne: "dropWhile py_isspace ?r \<noteq> []" using assms by (simp add: py_strip_def)
  have ne0: "dropWhile py_isspace s \<noteq> []"
  proof
    assume "dropWhile py_isspace s = []"
    with ne show False by simp
  qed
  have "last (py_strip s) = hd (dropWhile py_isspace ?r)"
    using ne by (simp add: py_strip_def last_rev)
  moreover have "hd (py_strip s) = hd (dropWhile py_isspace s)"
    using ne ne0 by (simp add: py_strip_def hd_rev last_dropWhile_eq last_rev)
  ultimately show ?thesis using ne ne0 by (simp add: hd_dropWhile)
qed

text \<open>C32. \<open>clean_text\<close> leaves no whitespace but the plain
  space, and none at either end of the text.\<close>

theorem clean_text_normalised:
  "(\<forall>c \<in> set (clean_text t). py_isspace c \<longrightarrow> c = CHR '' '')
   \<and> (clean_text t \<noteq> [] \<longrightarrow> \<not> py_isspace (hd (clean_text t)) \<and> \<not> py_isspace (last (clean_text t)))"
proof (rule conjI)
  show "\<forall>c \<in> set (clean_text t). py_isspace c \<longrightarrow> c = CHR '' ''"
    using clean_text_whitespace by blast
next
  show "clean_text t \<noteq> [] \<longrightarrow> \<not> py_isspace (hd (clean_text t)) \<and> \<not> py_isspace (last (clean_text t))"
  proof
    assume ne: "clean_text t \<noteq> []"
    then have "t \<noteq> []" by (auto simp: clean_text_def)
    then have "\<exists>s. clean_text t = py_strip s" by (simp add: clean_text_def Let_def) blast
    with ne show "\<not> py_isspace (hd (clean_text t)) \<and> \<not> py_isspace (last (clean_text t))"
      using py_strip_ends by auto
  qed
qed

theorem clean_text_normalised_witness:
  "clean_text '' Hello\<newline>\<newline>  world!!! '' = ''Hello world!''
   \<and> list_all (\<lambda>c. py_isspace c \<longrightarrow> c = CHR '' '') ''Hello world!''
   \<and> \<not> py_isspace (hd ''Hello world!'') \<and> \<not> py_isspace (last ''Hello world!'')"
proof -
  have e: "clean_text '' Hello\<newline>\<newline>  world!!! '' = ''Hello world!''" by code_simp
  from clean_text_normalised [of "'' Hello\<newline>\<newline>  world!!! ''"] e show ?thesis by simp
qed

end
