(* ===== verification/Pipeline.thy ===== *)
theory Pipeline
  imports Assembler Store Extractor
begin

text \<open>
  The ingestion pipeline (spec section 4.4): \<open>URLChunker\<close> of
  src/src/url_processor.py. Its state is the text splitter it keeps in
  \<open>self.text_splitter\<close> and the store behind its \<open>ChromaDBManager\<close>.
  \<open>process_url\<close> reconfigures the splitter when called with a non-default size or
  overlap (and keeps it for later calls), fetches and extracts the page, returns a
  failure for blank text, assembles the chunks and upserts them (the upsert may raise
  after creating the collection); every exception is caught and turned into a failure
  result. \<open>process_multiple_urls\<close> runs it over a
  list of URLs, in order, threading the state. Wall-clock time (\<open>processing_time\<close>,
  the one-second pause) and logging are not modelled.
\<close>

section \<open>State and results\<close>

text \<open>The separators of \<open>URLChunker\<close>'s splitter, most specific first.\<close>

definition ru_separators :: "string list" where
  "ru_separators = [''\<newline>\<newline>'', ''\<newline>'', ''. '', ''! '', ''? '', ''; '', '', '', '' '', '''']"

definition default_text_splitter :: chunk_policy where
  "default_text_splitter = \<lparr>chunk_size = 1000, chunk_overlap = 200, separators = ru_separators\<rparr>"

text \<open>The state of a \<open>URLChunker\<close>: its splitter, the store of its manager, and
  its extractor, which \<open>__init__\<close> builds from the \<open>timeout\<close> and \<open>user_agent\<close>
  arguments and nothing changes afterwards.\<close>

record url_chunker =
  text_splitter :: chunk_policy
  db :: chroma
  extractor :: extractor

definition url_chunker_init :: "chroma \<Rightarrow> int \<Rightarrow> string option \<Rightarrow> url_chunker" where
  "url_chunker_init store timeout user_agent =
     \<lparr>text_splitter = default_text_splitter, db = store, extractor = extractor_init timeout user_agent\<rparr>"

text \<open>The result dictionary of \<open>process_url\<close>: on success the URL, the number of
  chunks, the length of the text and the page metadata; on failure the URL and the error
  (\<open>chunks_created\<close> is 0).\<close>

datatype ingest_result =
    Ingested string nat nat meta
  | IngestFailed string py_error

fun result_url :: "ingest_result \<Rightarrow> string" where
  "result_url (Ingested u _ _ _) = u"
| "result_url (IngestFailed u _) = u"

fun result_success :: "ingest_result \<Rightarrow> bool" where
  "result_success (Ingested _ _ _ _) = True"
| "result_success (IngestFailed _ _) = False"

fun chunks_created :: "ingest_result \<Rightarrow> nat" where
  "chunks_created (Ingested _ n _ _) = n"
| "chunks_created (IngestFailed _ _) = 0"

section \<open>Operations\<close>

text \<open>\<open>if chunk_size != 1000 or chunk_overlap != 200:\<close> a new splitter replaces the
  old one for good; its construction may raise.\<close>

definition configure_splitter :: "int \<Rightarrow> int \<Rightarrow> url_chunker \<Rightarrow> py_error + url_chunker" where
  "configure_splitter sz ov uc =
     (if sz \<noteq> 1000 \<or> ov \<noteq> 200 then
        (case make_policy sz ov ru_separators of
           Inl e \<Rightarrow> Inl e
         | Inr p \<Rightarrow> Inr (uc\<lparr>text_splitter := p\<rparr>))
      else Inr uc)"

text \<open>\<open>save_to_chroma\<close>: \<open>get_or_create_collection\<close>, then one \<open>upsert\<close> of the
  three parallel lists; the upsert may raise (ChromaDB's batch validation), after the
  collection was created, and the \<open>except\<close> re-raises.\<close>

definition save_to_chroma :: "chunks_data \<Rightarrow> string \<Rightarrow> chroma \<Rightarrow> (py_error + unit) \<times> chroma" where
  "save_to_chroma chunks_data collection_name store =
     client_upsert collection_name
       (zip (cd_ids chunks_data) (zip (cd_chunks chunks_data) (cd_metadatas chunks_data))) store"

text \<open>\<open>process_url\<close>: every exception of the \<open>try\<close> body, the one of
  \<open>save_to_chroma\<close> included, becomes a failure result; the store keeps what the
  body wrote before it raised.\<close>

definition process_url ::
  "web_env \<Rightarrow> (string \<Rightarrow> string) \<Rightarrow> url_chunker \<Rightarrow> string \<Rightarrow> string \<Rightarrow> int \<Rightarrow> int
   \<Rightarrow> string option \<Rightarrow> ingest_result \<times> url_chunker" where
  "process_url env sha uc url collection_name sz ov source_name =
     (case configure_splitter sz ov uc of
        Inl e \<Rightarrow> (IngestFailed url e, uc)
      | Inr uc1 \<Rightarrow>
          (case fetch_content env (extractor uc1) url of
             Inl e \<Rightarrow> (IngestFailed url e, uc1)
           | Inr html \<Rightarrow>
               (let metadata = extract_metadata env html url
                in case extract_text env html of
                     Inl e \<Rightarrow> (IngestFailed url e, uc1)
                   | Inr text_content \<Rightarrow>
                       (if py_blank text_content then (IngestFailed url EmptyContentError, uc1)
                        else (case create_chunks sha (text_splitter uc1) text_content metadata source_name of
                                Inl e \<Rightarrow> (IngestFailed url e, uc1)
                              | Inr chunks_data \<Rightarrow>
                                  (let (saved, store') = save_to_chroma chunks_data collection_name (db uc1);
                                       uc2 = uc1\<lparr>db := store'\<rparr>
                                   in case saved of
                                        Inl e \<Rightarrow> (IngestFailed url e, uc2)
                                      | Inr _ \<Rightarrow> (Ingested url (length (cd_chunks chunks_data))
                                                   (length text_content) metadata, uc2)))))))"

text \<open>\<open>process_multiple_urls\<close>: one \<open>process_url\<close> per URL, in order. Its
  \<open>except\<close> branch is unreachable, since \<open>process_url\<close> catches every
  \<open>Exception\<close> itself.\<close>

fun process_multiple_urls ::
  "web_env \<Rightarrow> (string \<Rightarrow> string) \<Rightarrow> url_chunker \<Rightarrow> string list \<Rightarrow> string \<Rightarrow> int \<Rightarrow> int
   \<Rightarrow> string option \<Rightarrow> ingest_result list \<times> url_chunker" where
  "process_multiple_urls env sha uc [] collection_name sz ov source_name = ([], uc)"
| "process_multiple_urls env sha uc (url # urls) collection_name sz ov source_name =
     (let (r, uc1) = process_url env sha uc url collection_name sz ov source_name;
          (rs, uc2) = process_multiple_urls env sha uc1 urls collection_name sz ov source_name
      in (r # rs, uc2))"

text \<open>The summary \<open>process_multiple_urls\<close> logs: successes and total chunks.\<close>

definition batch_summary :: "ingest_result list \<Rightarrow> nat \<times> nat" where
  "batch_summary results =
     (length (filter result_success results), sum_list (map chunks_created results))"

text \<open>A page source for the examples: every URL serves the same text, except
  \<open>u2\<close>, whose fetch times out.\<close>

definition example_env :: web_env where
  "example_env = \<lparr>url_parts = (\<lambda>u. (''https'', ''example.org'')),
     fetch_page = (\<lambda>u ua t. if u = ''u2'' then Inl (SourceFetchError ''timeout'') else Inr u),
     parse_fields = (\<lambda>h. None), soup_text = (\<lambda>h. Inr ''A. B. C. D.''), clock = ''today''\<rparr>"

section \<open>Reachable states\<close>

text \<open>The states a \<open>URLChunker\<close> can reach: created over a well-formed store, then
  any number of \<open>process_url\<close> calls, with any pages, hash and arguments.\<close>

inductive uc_reachable :: "url_chunker \<Rightarrow> bool" where
  init: "store_wf store \<Longrightarrow> uc_reachable (url_chunker_init store timeout user_agent)"
| step: "uc_reachable uc \<Longrightarrow> uc_reachable (snd (process_url env sha uc url n sz ov src))"

definition uc_inv :: "url_chunker \<Rightarrow> bool" where
  "uc_inv uc \<longleftrightarrow> valid_policy (text_splitter uc) \<and> separators (text_splitter uc) = ru_separators
     \<and> store_wf (db uc)"

lemma configure_splitter_eq:
  "configure_splitter sz ov uc =
     (if sz \<noteq> 1000 \<or> ov \<noteq> 200 then
        (if sz \<le> 0 \<or> ov < 0 \<or> sz \<le> ov then Inl InvalidPolicyError
         else Inr (uc\<lparr>text_splitter := \<lparr>chunk_size = nat sz, chunk_overlap = nat ov,
                                         separators = ru_separators\<rparr>\<rparr>))
      else Inr uc)"
  by (simp add: configure_splitter_def make_policy_def)

lemma configure_splitter_db: "configure_splitter sz ov uc = Inr uc' \<Longrightarrow> db uc' = db uc"
  by (auto simp: configure_splitter_eq split: if_splits)

lemma configure_splitter_extractor:
  "configure_splitter sz ov uc = Inr uc' \<Longrightarrow> extractor uc' = extractor uc"
  by (auto simp: configure_splitter_eq split: if_splits)

lemma configure_splitter_inv: "uc_inv uc \<Longrightarrow> configure_splitter sz ov uc = Inr uc' \<Longrightarrow> uc_inv uc'"
  by (auto simp: configure_splitter_eq uc_inv_def valid_policy_def split: if_splits)

text \<open>The four ways a call ends: a rejected policy, a failure before the store is
  touched, a failed upsert, a stored page.\<close>

lemma process_url_cases:
  obtains (bad_policy) e where "configure_splitter sz ov uc = Inl e"
      "process_url env sha uc url n sz ov src = (IngestFailed url e, uc)"
  | (failed) uc1 e where "configure_splitter sz ov uc = Inr uc1"
      "process_url env sha uc url n sz ov src = (IngestFailed url e, uc1)"
  | (save_failed) uc1 html content d e where "configure_splitter sz ov uc = Inr uc1"
      "fetch_content env (extractor uc) url = Inr html" "extract_text env html = Inr content" "\<not> py_blank content"
      "create_chunks sha (text_splitter uc1) content (extract_metadata env html url) src = Inr d"
      "fst (save_to_chroma d n (db uc1)) = Inl e"
      "process_url env sha uc url n sz ov src = (IngestFailed url e, uc1\<lparr>db := snd (save_to_chroma d n (db uc1))\<rparr>)"
  | (ingested) uc1 html content d where "configure_splitter sz ov uc = Inr uc1"
      "fetch_content env (extractor uc) url = Inr html" "extract_text env html = Inr content" "\<not> py_blank content"
      "create_chunks sha (text_splitter uc1) content (extract_metadata env html url) src = Inr d"
      "fst (save_to_chroma d n (db uc1)) = Inr ()"
      "process_url env sha uc url n sz ov src =
         (Ingested url (length (cd_chunks d)) (length content) (extract_metadata env html url),
          uc1\<lparr>db := snd (save_to_chroma d n (db uc1))\<rparr>)"
proof (cases "configure_splitter sz ov uc")
  case (Inl e)
  then show ?thesis using bad_policy by (simp add: process_url_def)
next
  case (Inr uc1)
  then have ex: "extractor uc1 = extractor uc" by (rule configure_splitter_extractor)
  show ?thesis
  proof (cases "fetch_content env (extractor uc) url")
    case (Inr html)
    show ?thesis
    proof (cases "extract_text env html")
      case (Inr content)
      show ?thesis
      proof (cases "\<not> py_blank content \<and> (\<exists>d. create_chunks sha (text_splitter uc1) content
                      (extract_metadata env html url) src = Inr d)")
        case True
        then obtain d where "\<not> py_blank content"
          and d: "create_chunks sha (text_splitter uc1) content (extract_metadata env html url) src = Inr d"
          by blast
        note pre = \<open>configure_splitter sz ov uc = Inr uc1\<close> \<open>fetch_content env (extractor uc) url = Inr html\<close>
          \<open>extract_text env html = Inr content\<close> \<open>\<not> py_blank content\<close> d
        show ?thesis
        proof (cases "fst (save_to_chroma d n (db uc1))")
          case (Inl e)
          with pre show ?thesis
            by (intro save_failed) (simp_all add: process_url_def ex case_prod_beta)
        next
          case (Inr r)
          with pre show ?thesis
            by (intro ingested) (simp_all add: process_url_def ex case_prod_beta)
        qed
      next
        case False
        with \<open>configure_splitter sz ov uc = Inr uc1\<close> \<open>fetch_content env (extractor uc) url = Inr html\<close> Inr
        have "\<exists>e. process_url env sha uc url n sz ov src = (IngestFailed url e, uc1)"
          by (cases "create_chunks sha (text_splitter uc1) content (extract_metadata env html url) src")
            (auto simp: process_url_def Let_def ex)
        with \<open>configure_splitter sz ov uc = Inr uc1\<close> show ?thesis using failed by blast
      qed
    next
      case (Inl e)
      with \<open>configure_splitter sz ov uc = Inr uc1\<close> \<open>fetch_content env (extractor uc) url = Inr html\<close>
      show ?thesis by (intro failed [of uc1 e]) (simp_all add: process_url_def ex)
    qed
  next
    case (Inl e)
    with \<open>configure_splitter sz ov uc = Inr uc1\<close>
    show ?thesis by (intro failed [of uc1 e]) (simp_all add: process_url_def ex)
  qed
qed

lemma save_to_chroma_fst_db: "fst (save_to_chroma d n s) = fst (save_to_chroma d n s')"
  by (simp add: save_to_chroma_def client_upsert_fst)

lemma process_url_extractor [simp]:
  "extractor (snd (process_url env sha uc url n sz ov src)) = extractor uc"
  by (cases rule: process_url_cases [of sz ov uc env sha url n src]) (auto dest: configure_splitter_extractor)

lemma process_multiple_urls_extractor [simp]:
  "extractor (snd (process_multiple_urls env sha uc urls n sz ov src)) = extractor uc"
  by (induction urls arbitrary: uc) (simp_all add: case_prod_beta)

lemma configure_splitter_idem:
  "configure_splitter sz ov uc = Inr uc1 \<Longrightarrow> configure_splitter sz ov (uc1\<lparr>db := x\<rparr>) = Inr (uc1\<lparr>db := x\<rparr>)"
  by (auto simp: configure_splitter_eq split: if_splits)

lemma process_url_configured:
  "configure_splitter sz ov uc = Inr uc1 \<Longrightarrow>
   process_url env sha uc1 url n sz ov src = process_url env sha uc url n sz ov src"
  using configure_splitter_idem [of sz ov uc uc1 "db uc1"] by (simp add: process_url_def)

lemma process_url_fst_db:
  "fst (process_url env sha (uc\<lparr>db := x\<rparr>) url n sz ov src) = fst (process_url env sha uc url n sz ov src)"
  by (auto simp: process_url_def configure_splitter_eq Let_def case_prod_beta save_to_chroma_def client_upsert_fst
      split: sum.split)

lemma process_url_again:
  "fst (process_url env sha (snd (process_url env sha uc u' n sz ov src)) url n sz ov src)
     = fst (process_url env sha uc url n sz ov src)"
proof (cases rule: process_url_cases [of sz ov uc env sha u' n src])
  case (failed uc1 e)
  then show ?thesis by (simp add: process_url_configured)
next
  case (save_failed uc1 html content d e)
  then show ?thesis by (simp add: process_url_fst_db process_url_configured)
next
  case (ingested uc1 html content d)
  then show ?thesis by (simp add: process_url_fst_db process_url_configured)
qed simp

lemma uc_inv_init: "store_wf store \<Longrightarrow> uc_inv (url_chunker_init store timeout user_agent)"
  by (simp add: uc_inv_def url_chunker_init_def default_text_splitter_def valid_policy_def)

lemma uc_inv_save: "uc_inv uc \<Longrightarrow> uc_inv (uc\<lparr>db := snd (save_to_chroma d n (db uc))\<rparr>)"
  by (simp add: uc_inv_def save_to_chroma_def store_wf_upsert)

lemma uc_inv_process_url:
  assumes "uc_inv uc"
  shows "uc_inv (snd (process_url env sha uc url n sz ov src))"
proof (cases rule: process_url_cases [of sz ov uc env sha url n src])
  case (failed uc1 e)
  then show ?thesis using configure_splitter_inv assms by simp
next
  case (save_failed uc1 html content d e)
  then show ?thesis using configure_splitter_inv [OF assms save_failed(1)] by (simp add: uc_inv_save)
next
  case (ingested uc1 html content d)
  then show ?thesis using configure_splitter_inv [OF assms ingested(1)] by (simp add: uc_inv_save)
qed (simp add: assms)

lemma save_to_chroma_twice:
  assumes "store_wf store"
  shows "count_items n (snd (save_to_chroma d n (snd (save_to_chroma d n store))))
           = count_items n (snd (save_to_chroma d n store))"
proof (cases "zip (cd_ids d) (zip (cd_chunks d) (cd_metadatas d)) \<noteq> []
              \<and> distinct (map fst (zip (cd_ids d) (zip (cd_chunks d) (cd_metadatas d))))")
  case False
  show ?thesis
    unfolding save_to_chroma_def client_upsert_snd if_not_P [OF False] get_or_create_idem ..
next
  case True
  let ?recs = "zip (cd_ids d) (zip (cd_chunks d) (cd_metadatas d))"
  let ?s1 = "snd (save_to_chroma d n store)"
  obtain c1 where c1: "client_get n ?s1 = Inr c1"
    by (simp add: save_to_chroma_def client_upsert_get)
  have "store_wf ?s1" using assms by (simp add: save_to_chroma_def store_wf_upsert)
  then have "distinct (map fst c1)" using c1 by (rule client_get_wf)
  moreover
  define c0 where "c0 = coll_or_empty n store"
  from c1 True have "c1 = coll_upsert ?recs c0"
    by (simp add: save_to_chroma_def client_upsert_get c0_def upsert_batch_def)
  then have "set (map fst ?recs) \<subseteq> fst ` set c1"
    using coll_upsert_keys [of ?recs c0] by (simp only:) blast
  ultimately have "length (coll_upsert ?recs c1) = length c1"
    by (rule coll_upsert_same_keys)
  moreover have "coll_or_empty n ?s1 = c1"
    using client_get_Inr [THEN iffD1, OF c1] by simp
  ultimately show ?thesis using c1 True
    by (simp add: save_to_chroma_def client_upsert_get count_items_def upsert_batch_def)
qed

text \<open>A second call after a call that reached the upsert chunks the same text into the
  same records and upserts them again.\<close>

lemma process_url_resave:
  assumes c: "configure_splitter sz ov uc = Inr uc2"
    and f: "fetch_content env (extractor uc) url = Inr html" and t: "extract_text env html = Inr content"
    and d: "create_chunks sha (text_splitter uc2) content (extract_metadata env html url) src = Inr d"
    and wf: "store_wf (db uc2)"
  shows "count_items n (db (snd (process_url env sha (uc2\<lparr>db := snd (save_to_chroma d n (db uc2))\<rparr>) url n sz ov src)))
           = count_items n (snd (save_to_chroma d n (db uc2)))"
proof -
  let ?ucA = "uc2\<lparr>db := snd (save_to_chroma d n (db uc2))\<rparr>"
  have cA: "configure_splitter sz ov ?ucA = Inr ?ucA"
    using configure_splitter_idem [OF c] .
  have ex: "extractor ?ucA = extractor uc" using configure_splitter_extractor [OF c] by simp
  show ?thesis
  proof (cases rule: process_url_cases [of sz ov ?ucA env sha url n src])
    case (bad_policy e)
    with cA show ?thesis by simp
  next
    case (failed uc3 e)
    with cA show ?thesis by simp
  next
    case (save_failed uc3 html3 content3 d3 e)
    with cA f t d ex have "uc3 = ?ucA" and "d3 = d" by simp_all
    with save_failed(7) show ?thesis using save_to_chroma_twice [OF wf] by simp
  next
    case (ingested uc3 html3 content3 d3)
    with cA f t d ex have "uc3 = ?ucA" and "d3 = d" by simp_all
    with ingested(7) show ?thesis using save_to_chroma_twice [OF wf] by simp
  qed
qed

lemma reachable_uc_inv: "uc_reachable uc \<Longrightarrow> uc_inv uc"
  by (induction rule: uc_reachable.induct) (simp_all add: uc_inv_init uc_inv_process_url)

lemma reachable_process_multiple_urls:
  "uc_reachable uc \<Longrightarrow> uc_reachable (snd (process_multiple_urls env sha uc urls n sz ov src))"
  by (induction urls arbitrary: uc) (simp_all add: case_prod_beta uc_reachable.step)

lemma choose_sep_sublist: "choose_sep seps t = (s, rest) \<Longrightarrow> s = [] \<or> sublist s t"
  by (induction seps t rule: choose_sep.induct) (auto simp: occurs_iff_sublist split: if_splits)

lemma newline_isspace [simp]: "py_isspace CHR 0x0A"
  by (simp add: py_isspace_def py_whitespace_def)

text \<open>C23. Invariant of \<open>URLChunker\<close>: from any reachable
  state, after a batch of URLs, the splitter is a valid chunk policy with the Russian
  separator list and the store is well formed, whatever pages, arguments and failures
  the calls met.\<close>

theorem process_multiple_urls_inv:
  "uc_reachable uc \<Longrightarrow> uc_inv (snd (process_multiple_urls env sha uc urls n sz ov src))"
  by (intro reachable_uc_inv reachable_process_multiple_urls)

theorem process_multiple_urls_inv_witness:
  "uc_inv (snd (process_multiple_urls example_env id (url_chunker_init \<lparr>collections = []\<rparr> 30 None)
      [''u1'', ''u2''] ''docs'' 500 100 None))"
proof -
  have "store_wf \<lparr>collections = []\<rparr>" by (simp add: store_wf_def)
  then have "uc_reachable (url_chunker_init \<lparr>collections = []\<rparr> 30 None)" by (rule uc_reachable.init)
  then show ?thesis by (rule process_multiple_urls_inv)
qed

text \<open>C6. \<open>process_url\<close> with a size or overlap other
  than the defaults replaces the chunker's splitter for good, whether the URL then fails
  or not; with the defaults it keeps whatever splitter an earlier call left, instead of
  going back to 1000/200.\<close>

theorem process_url_splitter_persists:
  "text_splitter (snd (process_url env sha uc url n sz ov src)) =
     (if (sz \<noteq> 1000 \<or> ov \<noteq> 200) \<and> 0 < sz \<and> 0 \<le> ov \<and> ov < sz
      then \<lparr>chunk_size = nat sz, chunk_overlap = nat ov, separators = ru_separators\<rparr>
      else text_splitter uc)"
  by (cases rule: process_url_cases [of sz ov uc env sha url n src])
    (auto simp: configure_splitter_eq split: if_splits)


theorem process_url_splitter_persists_witness:
  "text_splitter (snd (process_url example_env id (url_chunker_init \<lparr>collections = []\<rparr> 30 None) ''u2'' ''docs'' 5 2 None))
     = \<lparr>chunk_size = 5, chunk_overlap = 2, separators = ru_separators\<rparr>"
  using process_url_splitter_persists [of example_env id "url_chunker_init \<lparr>collections = []\<rparr> 30 None" "''u2''" "''docs''" 5 2 None]
  by simp

lemma create_chunks_batch:
  assumes "create_chunks sha p text md src = Inr d" and "\<not> py_blank text"
  shows "map fst (zip (cd_ids d) (zip (cd_chunks d) (cd_metadatas d))) = cd_ids d \<and> cd_ids d \<noteq> []
    \<and> (inj sha \<longrightarrow> distinct (cd_ids d))"
proof -
  obtain u where d: "cd_chunks d = split_text p text"
      "cd_ids d = map (\<lambda>(i, c). chunk_id sha u i c) (enumerate 0 (split_text p text))"
      "cd_metadatas d = map (\<lambda>(i, c). chunk_metadata md i c src) (enumerate 0 (split_text p text))"
    using create_chunks_Inr [OF assms(1)] by blast
  moreover have "split_text p text \<noteq> []"
    using assms(2) by (simp add: split_text_empty_iff_blank)
  ultimately show ?thesis
    using chunk_id_inj_on [of sha u] by (simp add: distinct_map)
qed

text \<open>A failed upsert of \<open>process_url\<close>: the batch is never empty, so the only error
  is a repeated id, which needs a hash collision; the collection has been created.\<close>

lemma save_to_chroma_failed:
  assumes "create_chunks sha p text md src = Inr d" and "\<not> py_blank text"
    and "fst (save_to_chroma d n s) = Inl e"
  shows "e = DuplicateIDError \<and> \<not> inj sha \<and> snd (save_to_chroma d n s) = client_get_or_create n s"
  using create_chunks_batch [OF assms(1,2)] assms(3)
  by (auto simp: save_to_chroma_def client_upsert_fst client_upsert_snd split: if_splits)

text \<open>C20. A successful \<open>process_url\<close> reports the URL, at least
  one chunk and the length of the extracted text; the chunks are those of
  \<open>create_chunks\<close> on the page's text with the splitter the call left, and their
  upsert into the named collection succeeded and gave the final store.\<close>

theorem process_url_success:
  assumes "process_url env sha uc url n sz ov src = (Ingested u k l md, uc')"
  shows "u = url \<and> 0 < k \<and>
    (\<exists>html content d. fetch_content env (extractor uc) url = Inr html \<and> extract_text env html = Inr content
       \<and> md = extract_metadata env html url \<and> l = length content
       \<and> create_chunks sha (text_splitter uc') content md src = Inr d
       \<and> k = length (cd_chunks d) \<and> save_to_chroma d n (db uc) = (Inr (), db uc'))"
proof (cases rule: process_url_cases [of sz ov uc env sha url n src])
  case (ingested uc1 html content d)
  from create_chunks_Inr [OF ingested(5)] \<open>\<not> py_blank content\<close> have "cd_chunks d \<noteq> []"
    by (auto dest: split_text_nonblank)
  with ingested assms show ?thesis by (auto simp: configure_splitter_db prod_eq_iff)
qed (use assms in simp_all)

lemma example_u1_ingested:
  "process_url example_env id (url_chunker_init \<lparr>collections = []\<rparr> 30 None) ''u1'' ''docs'' 1000 200 None
     = (Ingested ''u1'' 1 11 (extract_metadata example_env ''u1'' ''u1''),
        snd (process_url example_env id (url_chunker_init \<lparr>collections = []\<rparr> 30 None) ''u1'' ''docs'' 1000 200 None))"
proof -
  have "fst (process_url example_env id (url_chunker_init \<lparr>collections = []\<rparr> 30 None) ''u1'' ''docs'' 1000 200 None)
     = Ingested ''u1'' 1 11 (extract_metadata example_env ''u1'' ''u1'')"
    by code_simp
  then show ?thesis by (metis prod.collapse)
qed

theorem process_url_success_witness:
  "process_url example_env id (url_chunker_init \<lparr>collections = []\<rparr> 30 None) ''u1'' ''docs'' 1000 200 None
     = (Ingested ''u1'' 1 11 (extract_metadata example_env ''u1'' ''u1''),
        snd (process_url example_env id (url_chunker_init \<lparr>collections = []\<rparr> 30 None) ''u1'' ''docs'' 1000 200 None))
   \<and> 0 < (1::nat)"
  using process_url_success [OF example_u1_ingested] example_u1_ingested by simp

text \<open>C21. A failed \<open>process_url\<close> reports the URL and returns no
  exception, although its docstring says it raises. It leaves the store as it was,
  except when the upsert itself was rejected: that happens only for a repeated chunk id,
  hence only when the hash collides, and then the collection has been created empty or
  left as it was.\<close>

theorem process_url_failure:
  assumes "process_url env sha uc url n sz ov src = (IngestFailed u e, uc')"
  shows "u = url \<and> (db uc' = db uc \<or>
           (e = DuplicateIDError \<and> \<not> inj sha \<and> db uc' = client_get_or_create n (db uc)))"
proof (cases rule: process_url_cases [of sz ov uc env sha url n src])
  case (save_failed uc1 html content d e')
  have "e' = DuplicateIDError \<and> \<not> inj sha \<and> snd (save_to_chroma d n (db uc1)) = client_get_or_create n (db uc1)"
    using save_to_chroma_failed [OF save_failed(5,4,6)] .
  with save_failed assms show ?thesis by (auto simp: configure_splitter_db)
qed (use assms in \<open>auto simp: configure_splitter_db\<close>)

theorem process_url_failure_witness:
  "fst (process_url example_env (\<lambda>_. ''x'') (url_chunker_init \<lparr>collections = []\<rparr> 30 None) ''u1'' ''docs'' 5 2 None)
     = IngestFailed ''u1'' DuplicateIDError
   \<and> (db (snd (process_url example_env (\<lambda>_. ''x'') (url_chunker_init \<lparr>collections = []\<rparr> 30 None) ''u1'' ''docs'' 5 2 None))
         = db (url_chunker_init \<lparr>collections = []\<rparr> 30 None)
      \<or> \<not> inj (\<lambda>_ :: string. ''x'')
         \<and> db (snd (process_url example_env (\<lambda>_. ''x'') (url_chunker_init \<lparr>collections = []\<rparr> 30 None) ''u1'' ''docs'' 5 2 None))
           = client_get_or_create ''docs'' (db (url_chunker_init \<lparr>collections = []\<rparr> 30 None)))"
proof -
  have f: "fst (process_url example_env (\<lambda>_. ''x'') (url_chunker_init \<lparr>collections = []\<rparr> 30 None) ''u1'' ''docs'' 5 2 None)
     = IngestFailed ''u1'' DuplicateIDError"
    by code_simp
  then have e: "process_url example_env (\<lambda>_. ''x'') (url_chunker_init \<lparr>collections = []\<rparr> 30 None) ''u1'' ''docs'' 5 2 None
     = (IngestFailed ''u1'' DuplicateIDError,
        snd (process_url example_env (\<lambda>_. ''x'') (url_chunker_init \<lparr>collections = []\<rparr> 30 None) ''u1'' ''docs'' 5 2 None))"
    by (metis prod.collapse)
  from process_url_failure [OF e] f show ?thesis by blast
qed

text \<open>C1. Re-ingesting a URL (same page, same arguments)
  leaves the number of records in the collection as the first ingestion left it: the
  second call chunks the same text with the same splitter, so it produces the same ids,
  and the upsert replaces instead of adding (spec section 8).\<close>

theorem process_url_idempotent:
  assumes "store_wf (db uc)"
    and "uc1 = snd (process_url env sha uc url n sz ov src)"
  shows "count_items n (db (snd (process_url env sha uc1 url n sz ov src))) = count_items n (db uc1)"
proof (cases rule: process_url_cases [of sz ov uc env sha url n src])
  case (bad_policy e)
  then show ?thesis using assms(2) by simp
next
  case (failed uc2 e)
  then show ?thesis using assms(2) by (simp add: process_url_configured)
next
  case (save_failed uc2 html content d e)
  moreover have "store_wf (db uc2)" using assms(1) configure_splitter_db [OF save_failed(1)] by simp
  ultimately show ?thesis using assms(2) process_url_resave by simp
next
  case (ingested uc2 html content d)
  moreover have "store_wf (db uc2)" using assms(1) configure_splitter_db [OF ingested(1)] by simp
  ultimately show ?thesis using assms(2) process_url_resave by simp
qed

theorem process_url_idempotent_witness:
  "count_items ''docs'' (db (snd (process_url example_env id
       (snd (process_url example_env id (url_chunker_init \<lparr>collections = []\<rparr> 30 None) ''u1'' ''docs'' 5 2 None))
       ''u1'' ''docs'' 5 2 None)))
   = count_items ''docs'' (db (snd (process_url example_env id (url_chunker_init \<lparr>collections = []\<rparr> 30 None)
       ''u1'' ''docs'' 5 2 None)))"
proof -
  have "store_wf (db (url_chunker_init \<lparr>collections = []\<rparr> 30 None))"
    by (simp add: store_wf_def url_chunker_init_def)
  then show ?thesis by (rule process_url_idempotent) simp
qed


text \<open>C5. Batch isolation and order: the result list
  of \<open>process_multiple_urls\<close> has one entry per URL, in input order, and the entry of
  each URL is exactly what \<open>process_url\<close> alone would return for it from the starting
  state; a failing URL changes nothing for the ones after it.\<close>

theorem process_multiple_urls_independent:
  "fst (process_multiple_urls env sha uc urls n sz ov src)
     = map (\<lambda>url. fst (process_url env sha uc url n sz ov src)) urls"
proof (induction urls arbitrary: uc)
  case (Cons url urls)
  show ?case
    using Cons [of "snd (process_url env sha uc url n sz ov src)"]
    by (simp add: process_url_again case_prod_beta)
qed simp

text \<open>C22. The result for the \<open>i\<close>-th URL carries that URL:
  \<open>process_multiple_urls\<close> returns its results in the order of its input.\<close>

theorem process_multiple_urls_order:
  "map result_url (fst (process_multiple_urls env sha uc urls n sz ov src)) = urls"
proof (induction urls arbitrary: uc)
  case (Cons url urls)
  have "result_url (fst (process_url env sha uc url n sz ov src)) = url"
    by (cases rule: process_url_cases [of sz ov uc env sha url n src]) simp_all
  with Cons show ?case by (simp add: case_prod_beta)
qed simp

text \<open>C2. Size bound on what is stored: from a reachable
  state, every chunk a successful \<open>process_url\<close> upserts is non-blank and at most
  the call's \<open>chunk_size\<close> long when that or its overlap differs from the defaults,
  and otherwise at most the size of the splitter the chunker held before the call
  (which an earlier call may have set). The splitter's last separator is \<open>""\<close>, so
  no piece is ever too long to be split further.\<close>

theorem process_url_chunks_bounded:
  assumes "uc_reachable uc"
    and "process_url env sha uc url n sz ov src = (Ingested u k l md, uc')"
  shows "\<exists>d. k = length (cd_chunks d) \<and> save_to_chroma d n (db uc) = (Inr (), db uc')
           \<and> (\<forall>c \<in> set (cd_chunks d). \<not> py_blank c
                 \<and> length c \<le> (if sz \<noteq> 1000 \<or> ov \<noteq> 200 then nat sz else chunk_size (text_splitter uc)))"
proof (cases rule: process_url_cases [of sz ov uc env sha url n src])
  case (ingested uc1 html content d)
  have "uc_inv uc1"
    using configure_splitter_inv [OF reachable_uc_inv [OF assms(1)] ingested(1)] .
  then have "valid_policy (text_splitter uc1)" by (simp add: uc_inv_def)
  moreover have "cd_chunks d = split_text (text_splitter uc1) content"
    using create_chunks_Inr [OF ingested(5)] by blast
  ultimately have "\<forall>c \<in> set (cd_chunks d). \<not> py_blank c \<and> length c \<le> chunk_size (text_splitter uc1)"
    using split_text_chunk by simp
  moreover have "chunk_size (text_splitter uc1)
      = (if sz \<noteq> 1000 \<or> ov \<noteq> 200 then nat sz else chunk_size (text_splitter uc))"
    using ingested(1) by (auto simp: configure_splitter_eq split: if_splits)
  ultimately have "\<forall>c \<in> set (cd_chunks d). \<not> py_blank c
      \<and> length c \<le> (if sz \<noteq> 1000 \<or> ov \<noteq> 200 then nat sz else chunk_size (text_splitter uc))"
    by simp
  with ingested assms(2) show ?thesis by (auto simp: configure_splitter_db prod_eq_iff)
qed (use assms(2) in simp_all)

theorem process_url_chunks_bounded_witness:
  "\<exists>d. (4::nat) = length (cd_chunks d)
     \<and> save_to_chroma d ''docs'' (db (url_chunker_init \<lparr>collections = []\<rparr> 30 None))
         = (Inr (), db (snd (process_url example_env id (url_chunker_init \<lparr>collections = []\<rparr> 30 None) ''u1'' ''docs'' 5 2 None)))
     \<and> (\<forall>c \<in> set (cd_chunks d). \<not> py_blank c \<and> length c \<le> 5)"
proof -
  have "store_wf \<lparr>collections = []\<rparr>" by (simp add: store_wf_def)
  then have r: "uc_reachable (url_chunker_init \<lparr>collections = []\<rparr> 30 None)" by (rule uc_reachable.init)
  have "fst (process_url example_env id (url_chunker_init \<lparr>collections = []\<rparr> 30 None) ''u1'' ''docs'' 5 2 None)
     = Ingested ''u1'' 4 11 (extract_metadata example_env ''u1'' ''u1'')"
    by code_simp
  then have e: "process_url example_env id (url_chunker_init \<lparr>collections = []\<rparr> 30 None) ''u1'' ''docs'' 5 2 None
     = (Ingested ''u1'' 4 11 (extract_metadata example_env ''u1'' ''u1''),
        snd (process_url example_env id (url_chunker_init \<lparr>collections = []\<rparr> 30 None) ''u1'' ''docs'' 5 2 None))"
    by (metis prod.collapse)
  from process_url_chunks_bounded [OF r e] show ?thesis by simp
qed

text \<open>C31. The text \<open>process_url\<close> chunks comes from
  \<open>clean_text\<close>, which turns every newline into a space: the splitter never chooses
  its paragraph (\<open>"\n\n"\<close>) or line (\<open>"\n"\<close>) separator on it, so the first two
  entries of \<open>ru_separators\<close> are dead for URL content.\<close>

theorem extract_text_no_line_separator:
  assumes "extract_text env html = Inr t"
  shows "fst (choose_sep ru_separators t) \<notin> {''\<newline>\<newline>'', ''\<newline>''}"
proof -
  from assms obtain raw where t: "t = clean_text raw"
    by (auto simp: extract_text_def split: sum.splits)
  have nl: "CHR 0x0A \<notin> set t"
  proof
    assume "CHR 0x0A \<in> set t"
    with t have "CHR 0x0A = CHR '' ''" using clean_text_whitespace newline_isspace by blast
    then show False by simp
  qed
  obtain s rest where sr: "choose_sep ru_separators t = (s, rest)" by fastforce
  from choose_sep_sublist [OF sr] have "s = [] \<or> sublist s t" .
  with nl have "s \<noteq> ''\<newline>\<newline>'' \<and> s \<noteq> ''\<newline>''"
    by (auto dest: set_mono_sublist)
  with sr show ?thesis by simp
qed

theorem extract_text_no_line_separator_witness:
  "extract_text example_env ''u1'' = Inr ''A. B. C. D.''
   \<and> fst (choose_sep ru_separators ''A. B. C. D.'') \<notin> {''\<newline>\<newline>'', ''\<newline>''}"
proof -
  have e: "extract_text example_env ''u1'' = Inr ''A. B. C. D.''" by code_simp
  from extract_text_no_line_separator [OF e] e show ?thesis by simp
qed

lemma update_fresh: "k \<notin> set (map fst al) \<Longrightarrow> AList.update k v al = al @ [(k, v)]"
  by (induction al) auto

lemma chunk_metadata_fresh:
  assumes "''chunk_index'' \<notin> set (map fst md)" "''chunk_size'' \<notin> set (map fst md)"
    "''source'' \<notin> set (map fst md)"
  shows "chunk_metadata md i c src =
    md @ [(''chunk_index'', MInt (int i)), (''chunk_size'', MInt (int (length c)))]
       @ (case src of Some s \<Rightarrow> if s \<noteq> [] then [(''source'', MStr s)] else [] | None \<Rightarrow> [])"
  using assms by (simp add: chunk_metadata_def update_fresh split: option.split)

lemma extract_metadata_shape:
  "map fst (extract_metadata env html url)
     = [''url'', ''processed_date'', ''title'', ''description'', ''keywords'', ''author'', ''language'']
   \<and> (\<forall>(key, v) \<in> set (extract_metadata env html url). \<exists>s. v = MStr s)"
  by (simp add: extract_metadata_def split: option.split)

text \<open>C14. Metadata schema of the stored records: the page
  metadata has the seven keys \<open>url\<close>, \<open>processed_date\<close>, \<open>title\<close>,
  \<open>description\<close>, \<open>keywords\<close>, \<open>author\<close>, \<open>language\<close>, all with string values,
  and the record of chunk \<open>i\<close> carries it followed by the integers \<open>chunk_index = i\<close>
  and \<open>chunk_size\<close> and, for a non-empty source name, the string \<open>source\<close>.\<close>

theorem process_url_metadata_schema:
  assumes "process_url env sha uc url n sz ov src = (Ingested u k l md, uc')"
  shows "map fst md = [''url'', ''processed_date'', ''title'', ''description'', ''keywords'', ''author'', ''language'']
    \<and> (\<forall>(key, v) \<in> set md. \<exists>s. v = MStr s)
    \<and> (\<exists>d. save_to_chroma d n (db uc) = (Inr (), db uc') \<and> length (cd_metadatas d) = k
         \<and> (\<forall>i < k. cd_metadatas d ! i =
              md @ [(''chunk_index'', MInt (int i)), (''chunk_size'', MInt (int (length (cd_chunks d ! i))))]
                 @ (case src of Some s \<Rightarrow> if s \<noteq> [] then [(''source'', MStr s)] else [] | None \<Rightarrow> [])))"
proof (cases rule: process_url_cases [of sz ov uc env sha url n src])
  case (ingested uc1 html content d)
  let ?md = "extract_metadata env html url"
  have md: "md = ?md" and k: "k = length (cd_chunks d)" and uc': "uc' = uc1\<lparr>db := snd (save_to_chroma d n (db uc1))\<rparr>"
    using ingested(7) assms by simp_all
  have d: "cd_chunks d = split_text (text_splitter uc1) content"
      "cd_metadatas d = map (\<lambda>(i, c). chunk_metadata ?md i c src) (enumerate 0 (split_text (text_splitter uc1) content))"
    using create_chunks_Inr [OF ingested(5)] by blast+
  have "\<forall>i < k. cd_metadatas d ! i =
      ?md @ [(''chunk_index'', MInt (int i)), (''chunk_size'', MInt (int (length (cd_chunks d ! i))))]
         @ (case src of Some s \<Rightarrow> if s \<noteq> [] then [(''source'', MStr s)] else [] | None \<Rightarrow> [])"
    using k d extract_metadata_shape [of env html url]
    by (simp add: nth_enumerate_eq chunk_metadata_fresh)
  moreover have "save_to_chroma d n (db uc) = (Inr (), db uc')"
    using uc' ingested(6) configure_splitter_db [OF ingested(1)] by (simp add: prod_eq_iff)
  moreover have "length (cd_metadatas d) = k" using k d by simp
  ultimately show ?thesis using md extract_metadata_shape [of env html url] by blast
qed (use assms in simp_all)

theorem process_url_metadata_schema_witness:
  "map fst (extract_metadata example_env ''u1'' ''u1'')
     = [''url'', ''processed_date'', ''title'', ''description'', ''keywords'', ''author'', ''language'']"
  using process_url_metadata_schema [OF example_u1_ingested] by (rule conjunct1)

section \<open>Requests of the extractor\<close>

lemma fetch_content_same_request:
  "g url (ex_user_agent ex) (ex_timeout ex) = fetch_page env url (ex_user_agent ex) (ex_timeout ex) \<Longrightarrow>
   fetch_content (env\<lparr>fetch_page := g\<rparr>) ex url = fetch_content env ex url"
  by (simp add: fetch_content_def case_prod_beta)

lemma process_url_same_request:
  assumes "g url (ex_user_agent (extractor uc)) (ex_timeout (extractor uc))
             = fetch_page env url (ex_user_agent (extractor uc)) (ex_timeout (extractor uc))"
  shows "process_url (env\<lparr>fetch_page := g\<rparr>) sha uc url n sz ov src = process_url env sha uc url n sz ov src"
proof (cases "configure_splitter sz ov uc")
  case (Inr uc1)
  then have "fetch_content (env\<lparr>fetch_page := g\<rparr>) (extractor uc1) url = fetch_content env (extractor uc1) url"
    using fetch_content_same_request assms configure_splitter_extractor by metis
  with Inr show ?thesis
    unfolding process_url_def extract_text_fetch_update extract_metadata_fetch_update by simp
qed (simp add: process_url_def)

text \<open>C13. A batch of a \<open>URLChunker\<close> built with
  \<open>timeout\<close> and \<open>user_agent\<close> depends on the web only through GET requests sent with
  that timeout and with \<open>user_agent\<close> as header, or the default header when it is
  \<open>None\<close> or empty: two webs that answer those requests alike give the same results and
  the same final state.\<close>

theorem process_multiple_urls_user_agent:
  assumes "\<forall>u. g u (case user_agent of Some a \<Rightarrow> if a = [] then default_user_agent else a
                                   | None \<Rightarrow> default_user_agent) timeout
             = fetch_page env u (case user_agent of Some a \<Rightarrow> if a = [] then default_user_agent else a
                                   | None \<Rightarrow> default_user_agent) timeout"
  shows "process_multiple_urls (env\<lparr>fetch_page := g\<rparr>) sha (url_chunker_init s timeout user_agent) urls n sz ov src
       = process_multiple_urls env sha (url_chunker_init s timeout user_agent) urls n sz ov src"
proof -
  have "extractor uc = extractor_init timeout user_agent \<Longrightarrow>
        process_multiple_urls (env\<lparr>fetch_page := g\<rparr>) sha uc urls n sz ov src
        = process_multiple_urls env sha uc urls n sz ov src" for uc
  proof (induction urls arbitrary: uc)
    case (Cons url urls)
    have "g url (ex_user_agent (extractor uc)) (ex_timeout (extractor uc))
          = fetch_page env url (ex_user_agent (extractor uc)) (ex_timeout (extractor uc))"
      using spec [OF assms, of url] Cons.prems by (cases user_agent) (auto simp: extractor_init_def split: if_splits)
    then show ?case
      using Cons.IH [of "snd (process_url env sha uc url n sz ov src)"] Cons.prems
      by (simp add: process_url_same_request case_prod_beta)
  qed simp
  then show ?thesis by (simp add: url_chunker_init_def)
qed

theorem process_multiple_urls_user_agent_witness:
  "process_multiple_urls (example_env\<lparr>fetch_page := \<lambda>u ua t. if ua = default_user_agent \<and> t = 30
                                          then fetch_page example_env u ua t
                                          else Inl (SourceFetchError ''403'')\<rparr>)
      id (url_chunker_init \<lparr>collections = []\<rparr> 30 (Some '''')) [''u1'', ''u2''] ''docs'' 1000 200 None
   = process_multiple_urls example_env id (url_chunker_init \<lparr>collections = []\<rparr> 30 (Some '''')) [''u1'', ''u2'']
       ''docs'' 1000 200 None"
  using process_multiple_urls_user_agent [of "\<lambda>u ua t. if ua = default_user_agent \<and> t = 30
                                          then fetch_page example_env u ua t
                                          else Inl (SourceFetchError ''403'')" "Some ''''" 30 example_env id
      "\<lparr>collections = []\<rparr>" "[''u1'', ''u2'']" "''docs''" 1000 200 None]
  by simp

end
