(* ===== verification/Query.thy ===== *)
theory Query
  imports Store
begin

text \<open>
  \<open>ChromaDBManager.query_collection\<close> (src/src/chroma_manager.py) and the
  collection query it calls. Embeddings and their distance are the store's: the
  model takes the distance as a parameter \<open>dist\<close> (query text, document) into any
  linear order. A query returns, for every query text, the at most \<open>n_results\<close>
  entries of the collection that pass the metadata filter, nearest first (spec
  section 6: ranked matches with distances); a filter of several keys raises
  \<open>ValueError\<close>, as ChromaDB's validation does. The store's answer, a dictionary of
  parallel lists \<open>ids\<close>, \<open>documents\<close>, \<open>metadatas\<close>, \<open>distances\<close> per query
  text, is one list of (id, document, metadata, distance) tuples per query text.
\<close>

text \<open>\<open>Collection.query\<close> for one query text (spec-level model of the store): the
  matching entries ordered by distance, ties in storage order, cut at \<open>n\<close>.\<close>

definition coll_query ::
  "(string \<Rightarrow> string \<Rightarrow> 'd::linorder) \<Rightarrow> string \<Rightarrow> nat \<Rightarrow> meta option \<Rightarrow> collection
   \<Rightarrow> (string \<times> string \<times> meta \<times> 'd) list" where
  "coll_query dist q n where_filter c =
     take n (sort_key (\<lambda>(i, d, m, x). x)
       (map (\<lambda>(i, d, m). (i, d, m, dist q d))
         (filter (\<lambda>(i, d, m). case where_filter of None \<Rightarrow> True | Some w \<Rightarrow> where_match w m) c)))"

text \<open>\<open>if where: query_params["where"] = where\<close>: an empty filter dictionary is
  falsy and is not passed on.\<close>

definition where_param :: "meta option \<Rightarrow> meta option" where
  "where_param where = (case where of Some w \<Rightarrow> if w \<noteq> [] then Some w else None | None \<Rightarrow> None)"

text \<open>\<open>Collection.query\<close> for a list of query texts: a \<open>where\<close> filter passed on
  must have exactly one key (ChromaDB's validation, \<open>where_ok\<close>).\<close>

definition coll_query_all ::
  "(string \<Rightarrow> string \<Rightarrow> 'd::linorder) \<Rightarrow> string list \<Rightarrow> nat \<Rightarrow> meta option \<Rightarrow> collection
   \<Rightarrow> py_error + (string \<times> string \<times> meta \<times> 'd) list list" where
  "coll_query_all dist qs n where_filter c =
     (case where_filter of
        Some w \<Rightarrow> if where_ok w then Inr (map (\<lambda>q. coll_query dist q n (Some w) c) qs)
                  else Inl (ValueError ''where'')
      | None \<Rightarrow> Inr (map (\<lambda>q. coll_query dist q n None c) qs))"

definition query_collection ::
  "(string \<Rightarrow> string \<Rightarrow> 'd::linorder) \<Rightarrow> string \<Rightarrow> string list \<Rightarrow> nat \<Rightarrow> meta option \<Rightarrow> chroma
   \<Rightarrow> py_error + (string \<times> string \<times> meta \<times> 'd) list list" where
  "query_collection dist collection_name query_texts n_results where db =
     (case client_get collection_name db of
        Inl e \<Rightarrow> Inl e
      | Inr c \<Rightarrow> coll_query_all dist query_texts n_results (where_param where) c)"

text \<open>What a caller's filter asks for, independently of how the code passes it on: no
  filter, or every key of the dictionary bound to its value in the entry's
  metadata.\<close>

definition passes_where :: "meta option \<Rightarrow> meta \<Rightarrow> bool" where
  "passes_where where m \<longleftrightarrow> (case where of None \<Rightarrow> True | Some w \<Rightarrow> list_all (\<lambda>(k, v). map_of m k = Some v) w)"

lemma where_param_passes:
  "(case where_param w of None \<Rightarrow> True | Some f \<Rightarrow> where_match f m) = passes_where w m"
  by (cases w) (simp_all add: where_param_def where_match_def passes_where_def)

lemma query_collection_Inr:
  assumes "client_get n db = Inr c" and "case w of None \<Rightarrow> True | Some f \<Rightarrow> length f \<le> 1"
  shows "query_collection dist n qs k w db = Inr (map (\<lambda>q. coll_query dist q k (where_param w) c) qs)"
  using assms by (auto simp: query_collection_def coll_query_all_def where_param_def where_ok_def le_Suc_eq
      split: option.splits)

lemma sorted_take_drop_le:
  assumes "sorted (map f xs)" and "a \<in> set (take n xs)" and "b \<in> set (drop n xs)"
  shows "f a \<le> f b"
proof -
  have "sorted (map f (take n xs) @ map f (drop n xs))"
    using assms(1) by (simp flip: map_append)
  with assms(2,3) show ?thesis by (auto simp: sorted_append)
qed

lemma coll_query_sorted: "sorted (map (\<lambda>(i, d, m, x). x) (coll_query dist q n w c))"
proof -
  have "sorted (map (\<lambda>(i, d, m, x). x) (sort_key (\<lambda>(i, d, m, x). x) xs))" for xs :: "(string \<times> string \<times> meta \<times> 'd::linorder) list"
    by (rule sorted_sort_key)
  then show ?thesis
    unfolding coll_query_def take_map [symmetric] by (rule sorted_wrt_take)
qed

lemma coll_query_member:
  "(i, d, m, x) \<in> set (coll_query dist q n w c) \<Longrightarrow>
   (i, d, m) \<in> set c \<and> (case w of None \<Rightarrow> True | Some f \<Rightarrow> where_match f m) \<and> x = dist q d"
  unfolding coll_query_def by (auto dest: in_set_takeD)

lemma coll_query_nearest:
  assumes "(i, d, m) \<in> set c" and "case w of None \<Rightarrow> True | Some f \<Rightarrow> where_match f m"
    and "(i, d, m, dist q d) \<notin> set (coll_query dist q n w c)"
    and "y \<in> set (coll_query dist q n w c)"
  shows "(\<lambda>(i, d, m, x). x) y \<le> dist q d"
proof -
  let ?key = "\<lambda>(i :: string, d :: string, m :: meta, x). x"
  let ?L = "sort_key ?key (map (\<lambda>(i, d, m). (i, d, m, dist q d))
              (filter (\<lambda>(i, d, m). case w of None \<Rightarrow> True | Some f \<Rightarrow> where_match f m) c))"
  let ?P = "\<lambda>(i :: string, d :: string, m). case w of None \<Rightarrow> True | Some f \<Rightarrow> where_match f m"
  have "(i, d, m) \<in> set (filter ?P c)" using assms(1,2) by simp
  then have "(i, d, m, dist q d) \<in> set (map (\<lambda>(i, d, m). (i, d, m, dist q d)) (filter ?P c))"
    using image_eqI [of "(i, d, m, dist q d)" "\<lambda>(i, d, m). (i, d, m, dist q d)" "(i, d, m)"] by simp
  then have "(i, d, m, dist q d) \<in> set ?L" by simp
  moreover have "(i, d, m, dist q d) \<notin> set (take n ?L)"
    using assms(3) by (simp add: coll_query_def)
  moreover have "set (take n ?L) \<union> set (drop n ?L) = set ?L"
    by (simp only: append_take_drop_id flip: set_append)
  ultimately have "(i, d, m, dist q d) \<in> set (drop n ?L)" by blast
  moreover have "y \<in> set (take n ?L)" using assms(4) by (simp add: coll_query_def)
  moreover have "sorted (map ?key ?L)" by (rule sorted_sort_key)
  ultimately have "?key y \<le> ?key (i, d, m, dist q d)"
    using sorted_take_drop_le [of ?key ?L y n "(i, d, m, dist q d)"] by blast
  then show ?thesis by simp
qed

text \<open>C9. \<open>query_collection\<close> on an existing collection
  answers every query text; the answer to each has at most \<open>n_results\<close> entries of the
  collection, all passing the metadata filter, with their distance to the query, nearest
  first, and no entry left out is nearer than one returned.\<close>

theorem query_collection_ranked:
  assumes "client_get n db = Inr c" and "j < length qs"
    and "case w of None \<Rightarrow> True | Some f \<Rightarrow> length f \<le> 1"
  shows "\<exists>rss. query_collection dist n qs k w db = Inr rss \<and> length rss = length qs
    \<and> length (rss ! j) \<le> k \<and> sorted (map (\<lambda>(i, d, m, x). x) (rss ! j))
    \<and> (\<forall>(i, d, m, x) \<in> set (rss ! j). (i, d, m) \<in> set c \<and> passes_where w m \<and> x = dist (qs ! j) d)
    \<and> (\<forall>(i, d, m) \<in> set c. passes_where w m \<and> (i, d, m, dist (qs ! j) d) \<notin> set (rss ! j)
         \<longrightarrow> (\<forall>(i', d', m', x') \<in> set (rss ! j). x' \<le> dist (qs ! j) d))"
proof -
  let ?rs = "coll_query dist (qs ! j) k (where_param w) c"
  have q: "query_collection dist n qs k w db = Inr (map (\<lambda>q. coll_query dist q k (where_param w) c) qs)"
    using assms(1,3) by (rule query_collection_Inr)
  have eq: "(map (\<lambda>q. coll_query dist q k (where_param w) c) qs) ! j = ?rs" using assms(2) by simp
  have "length ?rs \<le> k" by (simp add: coll_query_def)
  moreover have "sorted (map (\<lambda>(i, d, m, x). x) ?rs)" by (rule coll_query_sorted)
  moreover have "\<forall>(i, d, m, x) \<in> set ?rs. (i, d, m) \<in> set c \<and> passes_where w m \<and> x = dist (qs ! j) d"
    using coll_query_member [where w = "where_param w"] by (fastforce simp: where_param_passes)
  moreover have "\<forall>(i, d, m) \<in> set c. passes_where w m \<and> (i, d, m, dist (qs ! j) d) \<notin> set ?rs
         \<longrightarrow> (\<forall>(i', d', m', x') \<in> set ?rs. x' \<le> dist (qs ! j) d)"
    using coll_query_nearest [where w = "where_param w"] by (fastforce simp: where_param_passes)
  ultimately show ?thesis
  proof (intro exI conjI)
    show "query_collection dist n qs k w db = Inr (map (\<lambda>q. coll_query dist q k (where_param w) c) qs)"
      by (rule q)
  qed (simp_all only: eq length_map)
qed

theorem query_collection_ranked_witness:
  "query_collection (\<lambda>q d. length d) ''docs'' [''q''] 1 (Some [(''lang'', MStr ''ru'')])
      \<lparr>collections = [(''docs'', [(''a'', ''xyz'', [(''lang'', MStr ''ru'')]), (''b'', ''x'', [])])]\<rparr>
     = Inr [[(''a'', ''xyz'', [(''lang'', MStr ''ru'')], 3)]]
   \<and> passes_where (Some [(''lang'', MStr ''ru'')]) [(''lang'', MStr ''ru'')]"
proof -
  have g: "client_get ''docs'' \<lparr>collections = [(''docs'', [(''a'', ''xyz'', [(''lang'', MStr ''ru'')]), (''b'', ''x'', [])])]\<rparr>
      = Inr [(''a'', ''xyz'', [(''lang'', MStr ''ru'')]), (''b'', ''x'', [])]"
    by (simp add: client_get_def)
  have j: "0 < length [''q'']" by simp
  have w: "case Some [(''lang'', MStr ''ru'')] of None \<Rightarrow> True | Some f \<Rightarrow> length f \<le> (1::nat)" by simp
  have e: "query_collection (\<lambda>q d. length d) ''docs'' [''q''] 1 (Some [(''lang'', MStr ''ru'')])
      \<lparr>collections = [(''docs'', [(''a'', ''xyz'', [(''lang'', MStr ''ru'')]), (''b'', ''x'', [])])]\<rparr>
      = Inr [[(''a'', ''xyz'', [(''lang'', MStr ''ru'')], 3)]]"
    by code_simp
  from query_collection_ranked [OF g j w, of "\<lambda>q d. length d" 1] e show ?thesis by auto
qed

end
