(* ===== verification/StoreSpec.thy ===== *)
theory StoreSpec
  imports Store
begin

text \<open>
  The store's contract as spec section 6 states it, and the refinement of that contract
  by the model of \<open>ChromaDBManager\<close>. Abstractly a store maps collection names to
  collections, and a collection maps ids to (document, metadata): order and the list
  representation are forgotten. \<open>abs_store\<close> is the abstraction function; each
  abstract operation is a map operation (upsert as \<open>map_upds\<close>, deletion by ids as
  restriction, deletion by filter as removal of the matching ids), and
  \<open>count\<close> is the size of the domain. The batch \<open>add_texts\<close> promises is
  \<open>a_records\<close>, written as a comprehension over texts and their chunks.
\<close>

type_synonym abs_coll = "string \<rightharpoonup> string \<times> meta"
type_synonym abs_db = "string \<rightharpoonup> abs_coll"

definition abs_store :: "chroma \<Rightarrow> abs_db" where
  "abs_store db = (\<lambda>n. map_option map_of (map_of (collections db) n))"

definition a_get_or_create :: "string \<Rightarrow> abs_db \<Rightarrow> abs_db" where
  "a_get_or_create n S = (case S n of None \<Rightarrow> S(n \<mapsto> Map.empty) | Some _ \<Rightarrow> S)"

definition a_upsert :: "string \<Rightarrow> (string \<times> string \<times> meta) list \<Rightarrow> abs_db \<Rightarrow> abs_db" where
  "a_upsert n recs S =
     S(n \<mapsto> (case S n of None \<Rightarrow> Map.empty | Some m \<Rightarrow> m)(map fst recs [\<mapsto>] map snd recs))"

definition a_delete_collection :: "string \<Rightarrow> abs_db \<Rightarrow> py_error + abs_db" where
  "a_delete_collection n S = (case S n of None \<Rightarrow> Inl (CollectionNotFound n) | Some _ \<Rightarrow> Inr (S(n := None)))"

definition a_delete_ids :: "string \<Rightarrow> string list \<Rightarrow> abs_db \<Rightarrow> py_error + abs_db" where
  "a_delete_ids n ids S =
     (case S n of None \<Rightarrow> Inl (CollectionNotFound n) | Some m \<Rightarrow> Inr (S(n \<mapsto> m |` (- set ids))))"

definition a_delete_where :: "string \<Rightarrow> meta \<Rightarrow> abs_db \<Rightarrow> py_error + abs_db" where
  "a_delete_where n w S =
     (case S n of
        None \<Rightarrow> Inl (CollectionNotFound n)
      | Some m \<Rightarrow> if where_ok w
                   then Inr (S(n \<mapsto> (\<lambda>i. case m i of None \<Rightarrow> None
                                   | Some (d, mt) \<Rightarrow> if where_match w mt then None else Some (d, mt))))
                   else Inl (ValueError ''where''))"

definition a_count :: "string \<Rightarrow> abs_db \<Rightarrow> py_error + nat" where
  "a_count n S = (case S n of None \<Rightarrow> Inl (CollectionNotFound n) | Some m \<Rightarrow> Inr (card (dom m)))"

definition a_after :: "abs_db \<Rightarrow> py_error + abs_db \<Rightarrow> abs_db" where
  "a_after S r = (case r of Inl _ \<Rightarrow> S | Inr S' \<Rightarrow> S')"

text \<open>What \<open>add_texts\<close> promises, stated without its loop: the batch holds, for
  every text \<open>i\<close> in order and every chunk \<open>c\<close> of it in order, the record with the
  content-only id of spec section 4.2 (the hash of \<open>c\<close>), the document \<open>c\<close>, and
  the metadata \<open>metadatas[i]\<close> (an empty dictionary when there is none) with
  \<open>source\<close> set to a non-empty source name.\<close>

definition a_text_meta :: "meta list option \<Rightarrow> string option \<Rightarrow> nat \<Rightarrow> meta" where
  "a_text_meta ms src i =
     (let m = (case ms of Some l \<Rightarrow> if i < length l then l ! i else [] | None \<Rightarrow> [])
      in case src of Some s \<Rightarrow> if s \<noteq> [] then AList.update ''source'' (MStr s) m else m | None \<Rightarrow> m)"

definition a_records ::
  "(string \<Rightarrow> string) \<Rightarrow> chunk_policy \<Rightarrow> meta list option \<Rightarrow> string option \<Rightarrow> string list
   \<Rightarrow> (string \<times> string \<times> meta) list" where
  "a_records sha sp ms src texts =
     [(sha c, c, a_text_meta ms src i). i \<leftarrow> [0..<length texts], c \<leftarrow> split_text sp (texts ! i)]"

text \<open>The abstract counterpart of each \<open>manager_op\<close>. Adding texts with an invalid
  policy is rejected before any work (spec section 7); with a valid one the collection
  is created and the batch upserted, a batch that repeats an id being rejected by the
  store.\<close>

fun a_step :: "(string \<Rightarrow> string) \<Rightarrow> manager_op \<Rightarrow> abs_db \<Rightarrow> abs_db" where
  "a_step sha (GetOrCreate n) S = a_get_or_create n S"
| "a_step sha (DeleteCollection n) S = a_after S (a_delete_collection n S)"
| "a_step sha (AddTexts n texts ms src sz ov) S =
     (case make_policy sz ov default_separators of
        Inl _ \<Rightarrow> S
      | Inr sp \<Rightarrow> (if distinct (map fst (a_records sha sp ms src texts))
                  then a_upsert n (a_records sha sp ms src texts) (a_get_or_create n S)
                  else a_get_or_create n S))"
| "a_step sha (DeleteByIds n ids) S = a_after S (a_delete_ids n ids S)"
| "a_step sha (DeleteByMetadata n w) S = a_after S (a_delete_where n w S)"

text \<open>The calls the refinement covers: those whose chunk policy, if any, is valid. With
  an invalid policy \<open>add_texts\<close> creates the collection before raising, which the
  contract forbids (\<open>add_texts_invalid_policy\<close>).\<close>

fun valid_call :: "manager_op \<Rightarrow> bool" where
  "valid_call (AddTexts n texts ms src sz ov) =
     (case make_policy sz ov default_separators of Inl _ \<Rightarrow> False | Inr _ \<Rightarrow> True)"
| "valid_call op = True"

lemma abs_get_or_create: "abs_store (client_get_or_create n db) = a_get_or_create n (abs_store db)"
proof (cases "map_of (collections db) n")
  case None
  then have "n \<notin> set (map fst (collections db))" by (simp add: map_of_eq_None_iff)
  with None show ?thesis
    by (auto simp: abs_store_def a_get_or_create_def client_get_or_create_def fun_eq_iff map_add_def
        split: option.split)
next
  case (Some c)
  then have "n \<in> set (map fst (collections db))" by (simp add: map_of_Some_key)
  with Some show ?thesis
    by (simp add: abs_store_def a_get_or_create_def client_get_or_create_def)
qed

lemma abs_client_put: "abs_store (client_put n c db) = (abs_store db)(n \<mapsto> map_of c)"
  by (simp add: abs_store_def client_put_def update_conv' fun_eq_iff)

lemma abs_client_get: "client_get n db = Inr c \<Longrightarrow> abs_store db n = Some (map_of c)"
  by (simp add: abs_store_def client_get_Inr)

lemma abs_client_get_None: "client_get n db = Inl e \<Longrightarrow> abs_store db n = None \<and> e = CollectionNotFound n"
  by (simp add: abs_store_def client_get_def split: option.splits)

lemma abs_upsert:
  "abs_store (client_put n (coll_upsert recs (coll_or_empty n db)) (client_get_or_create n db))
     = a_upsert n recs (abs_store db)"
proof -
  have "map_of (coll_or_empty n db) = (case abs_store db n of None \<Rightarrow> Map.empty | Some m \<Rightarrow> m)"
    by (simp add: abs_store_def split: option.split)
  moreover have "(a_get_or_create n S)(n \<mapsto> x) = S(n \<mapsto> x)" for S :: abs_db and x
    by (simp add: a_get_or_create_def fun_eq_iff split: option.split)
  ultimately show ?thesis
    by (simp add: abs_client_put abs_get_or_create coll_upsert_lookup a_upsert_def)
qed

lemma abs_delete_collection:
  "map_sum id abs_store (delete_collection n db) = a_delete_collection n (abs_store db)"
  by (auto simp: delete_collection_def client_delete_def a_delete_collection_def abs_store_def
      delete_conv' fun_eq_iff map_of_eq_None_iff dest: map_of_Some_key split: option.split)

lemma abs_delete_by_ids:
  "map_sum id abs_store (delete_by_ids n ids db) = a_delete_ids n ids (abs_store db)"
proof (cases "client_get n db")
  case (Inl e)
  then show ?thesis using abs_client_get_None [OF Inl] by (simp add: delete_by_ids_def a_delete_ids_def)
next
  case (Inr c)
  then show ?thesis
    by (simp add: delete_by_ids_def a_delete_ids_def abs_client_get abs_client_put coll_delete_ids_def
        map_of_filter_keys)
qed

lemma map_of_delete_where:
  "distinct (map fst c) \<Longrightarrow>
   map_of (coll_delete_where w c) =
     (\<lambda>i. case map_of c i of None \<Rightarrow> None
          | Some (d, mt) \<Rightarrow> if where_match w mt then None else Some (d, mt))"
proof (induction c)
  case (Cons e c)
  obtain i d mt where e: "e = (i, d, mt)" by (cases e) auto
  from Cons.prems e have "map_of c i = None" by (simp add: map_of_eq_None_iff)
  with Cons e show ?case
    by (auto simp: coll_delete_where_def fun_eq_iff)
qed (simp add: coll_delete_where_def)

lemma abs_delete_by_metadata:
  "store_wf db \<Longrightarrow> map_sum id abs_store (delete_by_metadata n w db) = a_delete_where n w (abs_store db)"
proof (cases "client_get n db")
  case (Inl e)
  then show ?thesis using abs_client_get_None [OF Inl] by (simp add: delete_by_metadata_def a_delete_where_def)
next
  case (Inr c)
  assume "store_wf db"
  with Inr have "distinct (map fst c)" by (rule client_get_wf [rotated])
  with Inr show ?thesis
    by (simp add: delete_by_metadata_def a_delete_where_def abs_client_get abs_client_put map_of_delete_where)
qed

lemma abs_count_items: "store_wf db \<Longrightarrow> count_items n db = a_count n (abs_store db)"
proof (cases "client_get n db")
  case (Inl e)
  then show ?thesis using abs_client_get_None [OF Inl] by (simp add: count_items_def a_count_def)
next
  case (Inr c)
  assume "store_wf db"
  with Inr have "distinct (map fst c)" by (rule client_get_wf [rotated])
  with Inr show ?thesis
    by (simp add: count_items_def a_count_def abs_client_get dom_map_of_conv_image_fst distinct_length_keys)
qed

lemma abs_state_after: "abs_store (state_after db r) = a_after (abs_store db) (map_sum id abs_store r)"
  by (cases r) (simp_all add: state_after_def a_after_def)

lemma a_upsert_Nil: "a_upsert n [] S = a_get_or_create n S"
  by (auto simp: a_upsert_def a_get_or_create_def fun_eq_iff split: option.split)

lemma a_upsert_get_or_create [simp]: "a_upsert n recs (a_get_or_create n S) = a_upsert n recs S"
  by (simp add: a_upsert_def a_get_or_create_def fun_eq_iff split: option.split)

lemma a_get_or_create_present: "a_get_or_create n S n \<noteq> None"
  by (simp add: a_get_or_create_def split: option.split)

lemma text_records_spec: "text_records sha sp ms src texts = a_records sha sp ms src texts"
  unfolding text_records_def map_enumerate_upt a_records_def
  by (simp add: text_metadata_eq a_text_meta_def content_id_def concat_map_singleton)

lemma abs_add_texts:
  assumes "valid_call (AddTexts n texts ms src sz ov)"
  shows "abs_store (snd (add_texts sha n texts ms src sz ov db)) = a_step sha (AddTexts n texts ms src sz ov) (abs_store db)"
proof -
  obtain sp where sp: "make_policy sz ov default_separators = Inr sp"
    using assms by (auto split: sum.splits)
  let ?recs = "a_records sha sp ms src texts"
  show ?thesis
  proof (cases rule: upsert_batch_cases [of ?recs "coll_or_empty n db"])
    case ok
    then show ?thesis using sp
      by (simp add: add_texts_def Let_def text_records_spec get_or_create_collection_def client_upsert_ok
          map_of_get_or_create abs_upsert)
  next
    case empty
    then show ?thesis using sp
      by (simp add: add_texts_def text_records_spec get_or_create_collection_def abs_get_or_create
          a_upsert_Nil a_get_or_create_present)
  next
    case dup
    then show ?thesis using sp
      by (simp add: add_texts_def Let_def text_records_spec get_or_create_collection_def client_upsert_eq
          map_of_get_or_create abs_get_or_create)
  qed
qed

lemma abs_manager_step:
  "store_wf db \<Longrightarrow> valid_call op \<Longrightarrow> abs_store (manager_step sha op db) = a_step sha op (abs_store db)"
  by (cases op) (simp_all add: abs_state_after abs_delete_collection abs_delete_by_ids
      abs_delete_by_metadata abs_add_texts get_or_create_collection_def abs_get_or_create)

text \<open>C8. Refinement of the store's contract: after any sequence of
  \<open>ChromaDBManager\<close> calls that change the store, raising or not, whose chunk
  policies are valid, the representation is well formed, its abstraction is what the
  abstract map operations give (with \<open>a_records\<close>, the batch \<open>add_texts\<close> promises),
  and \<open>count_items\<close> is the number of ids of the abstract collection.\<close>

theorem manager_run_refines:
  assumes "store_wf db" and "list_all valid_call ops"
  shows "store_wf (manager_run sha ops db)
    \<and> abs_store (manager_run sha ops db) = fold (a_step sha) ops (abs_store db)
    \<and> count_items n (manager_run sha ops db) = a_count n (fold (a_step sha) ops (abs_store db))"
proof -
  have "abs_store (manager_run sha ops db) = fold (a_step sha) ops (abs_store db)"
    using assms
  proof (induction ops arbitrary: db)
    case (Cons op ops)
    then show ?case by (simp add: abs_manager_step store_wf_manager_step)
  qed simp
  moreover have "store_wf (manager_run sha ops db)" using assms(1) by (rule store_wf_manager_run)
  ultimately show ?thesis by (simp add: abs_count_items)
qed

theorem manager_run_refines_witness:
  "count_items ''docs'' (manager_run id [AddTexts ''docs'' [''a b'', ''c''] None None 1000 200,
       DeleteByIds ''docs'' [''c'']] \<lparr>collections = []\<rparr>)
   = a_count ''docs'' (fold (a_step id) [AddTexts ''docs'' [''a b'', ''c''] None None 1000 200,
       DeleteByIds ''docs'' [''c'']] (abs_store \<lparr>collections = []\<rparr>))"
proof -
  have "store_wf \<lparr>collections = []\<rparr>" by (simp add: store_wf_def)
  moreover have "list_all valid_call [AddTexts ''docs'' [''a b'', ''c''] None None 1000 200,
       DeleteByIds ''docs'' [''c'']]" by (simp add: make_policy_def)
  ultimately show ?thesis using manager_run_refines by blast
qed

end
