(* ===== verification/Scripts.thy ===== *)
theory Scripts
  imports Pipeline Query StoreSpec
begin

text \<open>
  The two scripts of the repository that drive the library: src/main.py (the
  \<open>ChromaDBManager\<close> walk-through) and src/demo_url_processor.py (the
  \<open>URLChunker\<close> demonstration). Their effect on the store and the values they
  report are modelled; printing and logging are not. Every
  \<open>ChromaDBManager()\<close> opens the persistent client at \<open>CHROMA_DB_PATH\<close>, so all
  managers a script creates share one store: the state of the model. The scripts'
  Russian literals (document texts, query texts, URLs, the accepted answers of
  \<open>input\<close>) are parameters, since the model's \<open>char\<close> holds code points below
  256 only; their ASCII literals (collection names, metadata, sizes) are written out.
\<close>

section \<open>Manager calls as steps\<close>

definition lift_upd :: "(chroma \<Rightarrow> chroma) \<Rightarrow> (chroma, unit) exc" where
  "lift_upd f s = (Inr (), f s)"

definition lift_sum :: "(chroma \<Rightarrow> py_error + chroma) \<Rightarrow> (chroma, unit) exc" where
  "lift_sum f s = (case f s of Inl e \<Rightarrow> (Inl e, s) | Inr s' \<Rightarrow> (Inr (), s'))"

definition lift_read :: "(chroma \<Rightarrow> py_error + 'a) \<Rightarrow> (chroma, 'a) exc" where
  "lift_read f s = (f s, s)"

text \<open>\<open>db_manager = ChromaDBManager()\<close> over the store at the configured path.\<close>

definition manager_step_init :: "(string \<Rightarrow> string option) \<Rightarrow> (chroma, unit) exc" where
  "manager_step_init getenv = lift_sum (\<lambda>s. manager_init getenv (\<lambda>path. s))"

text \<open>\<open>if name in [c.name for c in db_manager.list_collections()]:
  db_manager.delete_collection(name)\<close>\<close>

definition drop_if_exists :: "string \<Rightarrow> (chroma, unit) exc" where
  "drop_if_exists collection_name =
     exc_bind (lift_read (\<lambda>s. Inr (list_collections s))) (\<lambda>existing.
       if collection_name \<in> set existing then lift_sum (delete_collection collection_name)
       else exc_return ())"

section \<open>src/demo_url_processor.py\<close>

text \<open>The demonstration's Russian literals: the URL and search queries of
  \<open>demo_single_url\<close>, the URLs and query of \<open>demo_multiple_urls\<close>, and whether
  the answer to the cleanup question is one of \<open>y\<close>, \<open>yes\<close>, \<open>da\<close>, \<open>d\<close> (in
  Cyrillic) after \<open>lower()\<close>.\<close>

record demo_inputs =
  di_single_url :: string
  di_single_queries :: "string list"
  di_multi_urls :: "string list"
  di_multi_query :: string
  di_cleanup :: bool

text \<open>\<open>url_chunker = URLChunker(db_manager)\<close> followed by one \<open>process_url\<close> or
  \<open>process_multiple_urls\<close> call: the chunker is fresh, its store the shared one.\<close>

definition ingest_step ::
  "web_env \<Rightarrow> (string \<Rightarrow> string) \<Rightarrow> string \<Rightarrow> string \<Rightarrow> int \<Rightarrow> int \<Rightarrow> string option
   \<Rightarrow> (chroma, ingest_result) exc" where
  "ingest_step env sha url collection_name sz ov src s =
     (case process_url env sha (url_chunker_init s 30 None) url collection_name sz ov src of
        (r, uc) \<Rightarrow> (Inr r, db uc))"

definition batch_step ::
  "web_env \<Rightarrow> (string \<Rightarrow> string) \<Rightarrow> string list \<Rightarrow> string \<Rightarrow> int \<Rightarrow> int \<Rightarrow> string option
   \<Rightarrow> (chroma, ingest_result list) exc" where
  "batch_step env sha urls collection_name sz ov src s =
     (case process_multiple_urls env sha (url_chunker_init s 30 None) urls collection_name sz ov src of
        (rs, uc) \<Rightarrow> (Inr rs, db uc))"

text \<open>\<open>demo_single_url\<close>: a failed ingestion is printed and the function returns;
  otherwise the count, one search per query, and a peek at three items.\<close>

definition demo_single_url ::
  "web_env \<Rightarrow> (string \<Rightarrow> string) \<Rightarrow> (string \<Rightarrow> string option) \<Rightarrow> (string \<Rightarrow> string \<Rightarrow> 'd::linorder)
   \<Rightarrow> demo_inputs
   \<Rightarrow> (chroma, ingest_result \<times> (nat \<times> (string \<times> string \<times> meta \<times> 'd) list list list \<times> collection) option) exc" where
  "demo_single_url env sha getenv dist lits =
     exc_bind (manager_step_init getenv) (\<lambda>_.
     exc_bind (drop_if_exists ''web_content_demo'') (\<lambda>_.
     exc_bind (ingest_step env sha (di_single_url lits) ''web_content_demo'' 800 150 (Some ''wikipedia_demo'')) (\<lambda>result.
     if \<not> result_success result then exc_return (result, None)
     else
       exc_bind (lift_read (count_items ''web_content_demo'')) (\<lambda>count.
       exc_bind (exc_map (\<lambda>query. lift_read (query_collection dist ''web_content_demo'' [query] 2 None))
                   (di_single_queries lits)) (\<lambda>searches.
       exc_bind (lift_read (peek_collection ''web_content_demo'' 3)) (\<lambda>items.
       exc_return (result, Some (count, searches, items))))))))"

text \<open>\<open>demo_multiple_urls\<close>: the batch, a search when some chunk was created, and
  the final count.\<close>

definition demo_multiple_urls ::
  "web_env \<Rightarrow> (string \<Rightarrow> string) \<Rightarrow> (string \<Rightarrow> string option) \<Rightarrow> (string \<Rightarrow> string \<Rightarrow> 'd::linorder)
   \<Rightarrow> demo_inputs
   \<Rightarrow> (chroma, ingest_result list \<times> (string \<times> string \<times> meta \<times> 'd) list list option \<times> nat) exc" where
  "demo_multiple_urls env sha getenv dist lits =
     exc_bind (manager_step_init getenv) (\<lambda>_.
     exc_bind (drop_if_exists ''multi_url_demo'') (\<lambda>_.
     exc_bind (batch_step env sha (di_multi_urls lits) ''multi_url_demo'' 600 100 (Some ''wikipedia_ml_demo'')) (\<lambda>results.
     exc_bind (if 0 < snd (batch_summary results) then
                 exc_bind (lift_read (query_collection dist ''multi_url_demo'' [di_multi_query lits] 5 None))
                   (\<lambda>r. exc_return (Some r))
               else exc_return None) (\<lambda>search.
     exc_bind (lift_read (count_items ''multi_url_demo'')) (\<lambda>final_count.
     exc_return (results, search, final_count))))))"

text \<open>\<open>cleanup_demo_collections\<close>: the existing names are read once, then each demo
  collection found among them is deleted.\<close>

definition cleanup_demo_collections :: "(string \<Rightarrow> string option) \<Rightarrow> (chroma, unit list) exc" where
  "cleanup_demo_collections getenv =
     exc_bind (manager_step_init getenv) (\<lambda>_.
     exc_bind (lift_read (\<lambda>s. Inr (list_collections s))) (\<lambda>existing.
     exc_map (\<lambda>collection_name. if collection_name \<in> set existing then lift_sum (delete_collection collection_name)
                               else exc_return ())
       [''web_content_demo'', ''multi_url_demo'']))"

text \<open>The demonstration's \<open>main()\<close>: each demo function catches its own exceptions.\<close>

definition demo_main ::
  "web_env \<Rightarrow> (string \<Rightarrow> string) \<Rightarrow> (string \<Rightarrow> string option) \<Rightarrow> (string \<Rightarrow> string \<Rightarrow> 'd::linorder)
   \<Rightarrow> demo_inputs \<Rightarrow> (chroma, unit) exc" where
  "demo_main env sha getenv dist lits =
     exc_bind (exc_catch (demo_single_url env sha getenv dist lits)) (\<lambda>_.
     exc_bind (exc_catch (demo_multiple_urls env sha getenv dist lits)) (\<lambda>_.
     if di_cleanup lits then exc_bind (exc_catch (cleanup_demo_collections getenv)) (\<lambda>_. exc_return ())
     else exc_return ()))"

text \<open>Frame and presence of a collection, for the scripts' proofs: \<open>others_same n\<close>
  relates two stores that agree on every collection but \<open>n\<close>.\<close>

definition others_same :: "string \<Rightarrow> chroma \<Rightarrow> chroma \<Rightarrow> bool" where
  "others_same n s s' \<longleftrightarrow> (\<forall>m. m \<noteq> n \<longrightarrow> map_of (collections s') m = map_of (collections s) m)"

definition present :: "string \<Rightarrow> chroma \<Rightarrow> bool" where
  "present n s \<longleftrightarrow> map_of (collections s) n \<noteq> None"

definition only_changes :: "string \<Rightarrow> (chroma, 'a) exc \<Rightarrow> bool" where
  "only_changes n m \<longleftrightarrow> (\<forall>s. others_same n s (snd (m s)))"

section \<open>src/main.py\<close>

definition main_metadatas :: "meta list" where
  "main_metadatas =
     [[(''source'', MStr ''doc1''), (''author'', MStr ''AI'')],
      [(''source'', MStr ''doc2''), (''author'', MStr ''AI'')],
      [(''source'', MStr ''doc3''), (''author'', MStr ''Human'')],
      [(''source'', MStr ''doc4''), (''author'', MStr ''Human'')]]"

text \<open>The body of \<open>main()\<close>'s \<open>try\<close>: the count after \<open>add_texts\<close>, the search
  results, and the count after deleting the first peeked id (none when the peek is
  empty). The \<open>except\<close> only logs, so the outcome is this value or the exception,
  with the store as far as the script got.\<close>

definition chroma_main ::
  "(string \<Rightarrow> string) \<Rightarrow> (string \<Rightarrow> string option) \<Rightarrow> (string \<Rightarrow> string \<Rightarrow> 'd::linorder)
   \<Rightarrow> string list \<Rightarrow> string
   \<Rightarrow> (chroma, nat \<times> (string \<times> string \<times> meta \<times> 'd) list list \<times> nat option) exc" where
  "chroma_main sha getenv dist docs_to_add query =
     exc_bind (manager_step_init getenv) (\<lambda>_.
     exc_bind (drop_if_exists ''my_test_collection'') (\<lambda>_.
     exc_bind (lift_upd (get_or_create_collection ''my_test_collection'')) (\<lambda>_.
     exc_bind (add_texts sha ''my_test_collection'' docs_to_add (Some main_metadatas) (Some ''example_run'') 1000 200) (\<lambda>_.
     exc_bind (lift_read (count_items ''my_test_collection'')) (\<lambda>count.
     exc_bind (lift_read (query_collection dist ''my_test_collection'' [query] 2 None)) (\<lambda>results.
     exc_bind (lift_read (peek_collection ''my_test_collection'' 1)) (\<lambda>items.
     exc_bind (if items \<noteq> [] then
                 exc_bind (lift_sum (delete_by_ids ''my_test_collection'' [fst (hd items)])) (\<lambda>_.
                 exc_bind (lift_read (count_items ''my_test_collection'')) (\<lambda>c. exc_return (Some c)))
               else exc_return None) (\<lambda>count_after_delete.
     exc_bind (lift_sum (delete_by_metadata ''my_test_collection'' [(''author'', MStr ''Human'')])) (\<lambda>_.
     exc_bind (lift_sum (delete_collection ''my_test_collection'')) (\<lambda>_.
     exc_return (count, results, count_after_delete)))))))))))"

section \<open>Frame and step lemmas\<close>

lemma others_same_refl [simp]: "others_same n s s"
  by (simp add: others_same_def)

lemma others_same_trans: "others_same n s1 s2 \<Longrightarrow> others_same n s2 s3 \<Longrightarrow> others_same n s1 s3"
  by (simp add: others_same_def)

lemma others_get_or_create [simp]: "others_same n s (client_get_or_create n s)"
  by (auto simp: others_same_def client_get_or_create_def map_add_def split: option.split)

lemma others_put [simp]: "others_same n s (client_put n c s)"
  by (simp add: others_same_def client_put_def update_conv')

lemma others_upsert [simp]: "others_same n s (snd (client_upsert n recs s))"
  by (auto simp: client_upsert_eq split: sum.split intro: others_same_trans [OF others_get_or_create others_put])

lemma others_add_texts [simp]: "others_same n s (snd (add_texts sha n texts ms src sz ov s))"
  by (auto simp: add_texts_def Let_def get_or_create_collection_def split: sum.split
      intro: others_same_trans [OF others_get_or_create others_upsert])

lemma others_delete_by_ids: "delete_by_ids n ids s = Inr s' \<Longrightarrow> others_same n s s'"
  by (auto simp: delete_by_ids_def split: sum.splits)

lemma others_delete_by_metadata: "delete_by_metadata n w s = Inr s' \<Longrightarrow> others_same n s s'"
  by (auto simp: delete_by_metadata_def split: sum.splits if_splits)

lemma delete_collection_map_of:
  "delete_collection n s = Inr s' \<Longrightarrow> map_of (collections s') = (map_of (collections s))(n := None)"
  by (auto simp: delete_collection_def client_delete_def delete_conv' split: if_splits)

lemma delete_collection_present:
  "delete_collection n s = Inr s' \<longleftrightarrow> map_of (collections s) n \<noteq> None \<and> s' = s\<lparr>collections := AList.delete n (collections s)\<rparr>"
  by (auto simp: delete_collection_def client_delete_def map_of_eq_None_iff dest: map_of_Some_key)

lemma spec_lift_upd: "(\<And>s. P s \<Longrightarrow> Q () (f s)) \<Longrightarrow> exc_spec P (lift_upd f) Q"
  by (simp add: exc_spec_def lift_upd_def)

lemma spec_lift_read: "(\<And>s. P s \<Longrightarrow> \<exists>v. f s = Inr v \<and> Q v s) \<Longrightarrow> exc_spec P (lift_read f) Q"
  by (force simp: exc_spec_def lift_read_def)

lemma spec_lift_sum: "(\<And>s. P s \<Longrightarrow> \<exists>s'. f s = Inr s' \<and> Q () s') \<Longrightarrow> exc_spec P (lift_sum f) Q"
  by (force simp: exc_spec_def lift_sum_def)

lemma present_client_get: "present n s \<Longrightarrow> \<exists>c. client_get n s = Inr c"
  by (auto simp: present_def client_get_def)

lemma present_put [simp]: "present n (client_put n c s)"
  by (simp add: present_def client_put_def update_conv')

lemma spec_init:
  "getenv ''CHROMA_DB_PATH'' = Some p \<Longrightarrow> p \<noteq> [] \<Longrightarrow>
   exc_spec (\<lambda>s. s = s0) (manager_step_init getenv) (\<lambda>_ s. others_same n s0 s)"
  by (auto intro!: spec_lift_sum simp: manager_step_init_def manager_init_def)

lemma spec_drop:
  "exc_spec (\<lambda>s. others_same n s0 s) (drop_if_exists n) (\<lambda>_ s. others_same n s0 s)"
  unfolding drop_if_exists_def
proof (rule exc_spec_bind)
  show "exc_spec (\<lambda>s. others_same n s0 s) (lift_read (\<lambda>s. Inr (list_collections s)))
          (\<lambda>a s. others_same n s0 s \<and> a = list_collections s)"
    by (rule spec_lift_read) simp
next
  fix a
  show "exc_spec (\<lambda>s. others_same n s0 s \<and> a = list_collections s)
          (if n \<in> set a then lift_sum (delete_collection n) else exc_return ()) (\<lambda>_ s. others_same n s0 s)"
  proof (rule exc_spec_if)
    assume "n \<in> set a"
    show "exc_spec (\<lambda>s. others_same n s0 s \<and> a = list_collections s) (lift_sum (delete_collection n))
            (\<lambda>_ s. others_same n s0 s)"
    proof (rule spec_lift_sum)
      fix s assume s: "others_same n s0 s \<and> a = list_collections s"
      with \<open>n \<in> set a\<close> have "map_of (collections s) n \<noteq> None"
        by (simp add: list_collections_def map_of_eq_None_iff)
      then obtain s' where d: "delete_collection n s = Inr s'"
        using delete_collection_present by blast
      with s have "others_same n s0 s'"
        by (simp add: others_same_def delete_collection_map_of)
      with d show "\<exists>s'. delete_collection n s = Inr s' \<and> others_same n s0 s'" by blast
    qed
  qed (rule exc_spec_return, simp)
qed

lemma spec_get_or_create:
  "exc_spec (\<lambda>s. others_same n s0 s) (lift_upd (get_or_create_collection n))
     (\<lambda>_ s. others_same n s0 s \<and> present n s)"
  by (rule spec_lift_upd)
    (auto simp: get_or_create_collection_def present_def map_of_get_or_create
      intro: others_same_trans [OF _ others_get_or_create])

lemma present_add_texts: "present n (snd (add_texts sha n texts ms src sz ov s))"
proof -
  have "present n (client_get_or_create n s)" by (simp add: present_def map_of_get_or_create)
  then show ?thesis
    by (auto simp: add_texts_def Let_def get_or_create_collection_def client_upsert_eq split: sum.split)
qed

lemma add_texts_fst:
  "make_policy sz ov default_separators = Inr sp \<Longrightarrow> distinct (map fst (text_records sha sp ms src texts)) \<Longrightarrow>
   fst (add_texts sha n texts ms src sz ov s) = Inr ()"
  by (simp add: add_texts_outcome)

lemma spec_add_texts:
  assumes "make_policy sz ov default_separators = Inr sp"
    and "distinct (map fst (text_records sha sp ms src texts))"
  shows "exc_spec (\<lambda>s. others_same n s0 s \<and> present n s) (add_texts sha n texts ms src sz ov)
     (\<lambda>_ s. others_same n s0 s \<and> present n s)"
  unfolding exc_spec_def
proof (intro allI impI)
  fix s assume s: "others_same n s0 s \<and> present n s"
  let ?r = "add_texts sha n texts ms src sz ov s"
  have "?r = (Inr (), snd ?r)"
    using add_texts_fst [OF assms, of n s] by (cases ?r) simp
  moreover have "others_same n s0 (snd ?r)"
    using s others_add_texts others_same_trans by blast
  ultimately show "\<exists>a s'. ?r = (Inr a, s') \<and> others_same n s0 s' \<and> present n s'"
    using present_add_texts by blast
qed

lemma spec_read:
  "(\<And>s. present n s \<Longrightarrow> \<exists>v. f s = Inr v) \<Longrightarrow>
   exc_spec (\<lambda>s. others_same n s0 s \<and> present n s) (lift_read f) (\<lambda>_ s. others_same n s0 s \<and> present n s)"
  by (rule spec_lift_read) blast

lemma count_items_present: "present n s \<Longrightarrow> \<exists>v. count_items n s = Inr v"
  by (auto simp: count_items_def dest: present_client_get)

lemma query_present: "present n s \<Longrightarrow> \<exists>v. query_collection dist n qs k None s = Inr v"
  by (auto simp: query_collection_def coll_query_all_def where_param_def dest: present_client_get)

lemma peek_present: "present n s \<Longrightarrow> \<exists>v. peek_collection n k s = Inr v"
  by (auto simp: peek_collection_def dest: present_client_get)

lemma spec_delete_ids:
  "exc_spec (\<lambda>s. others_same n s0 s \<and> present n s) (lift_sum (delete_by_ids n ids))
     (\<lambda>_ s. others_same n s0 s \<and> present n s)"
  by (rule spec_lift_sum)
    (auto simp: delete_by_ids_def dest!: present_client_get
      intro: others_same_trans [OF _ others_put])

lemma spec_delete_metadata:
  "where_ok w \<Longrightarrow> exc_spec (\<lambda>s. others_same n s0 s \<and> present n s) (lift_sum (delete_by_metadata n w))
     (\<lambda>_ s. others_same n s0 s \<and> present n s)"
  by (rule spec_lift_sum)
    (auto simp: delete_by_metadata_def dest!: present_client_get
      intro: others_same_trans [OF _ others_put])

lemma spec_delete_collection:
  "exc_spec (\<lambda>s. others_same n s0 s \<and> present n s) (lift_sum (delete_collection n))
     (\<lambda>_ s. others_same n s0 s \<and> map_of (collections s) n = None)"
proof (rule spec_lift_sum)
  fix s assume s: "others_same n s0 s \<and> present n s"
  then obtain s' where d: "delete_collection n s = Inr s'"
    using delete_collection_present by (auto simp: present_def)
  with s show "\<exists>s'. delete_collection n s = Inr s' \<and> others_same n s0 s' \<and> map_of (collections s') n = None"
    by (simp add: others_same_def delete_collection_map_of)
qed

lemmas script_step_specs = spec_read count_items_present query_present peek_present
  spec_delete_ids spec_delete_metadata

lemma main_policy:
  "make_policy 1000 200 default_separators
     = Inr \<lparr>chunk_size = 1000, chunk_overlap = 200, separators = default_separators\<rparr>"
  by (simp add: make_policy_def)

lemma chroma_main_spec:
  assumes "getenv ''CHROMA_DB_PATH'' = Some p" and "p \<noteq> []"
    and "distinct (map fst (text_records sha \<lparr>chunk_size = 1000, chunk_overlap = 200, separators = default_separators\<rparr>
                              (Some main_metadatas) (Some ''example_run'') docs))"
  shows "exc_spec (\<lambda>s. s = s0) (chroma_main sha getenv dist docs q)
           (\<lambda>_ s. others_same ''my_test_collection'' s0 s \<and> map_of (collections s) ''my_test_collection'' = None)"
  unfolding chroma_main_def
  apply (rule exc_spec_bind, rule spec_init [where getenv = getenv, OF assms(1,2)])
  apply (rule exc_spec_bind, rule spec_drop)
  apply (rule exc_spec_bind, rule spec_get_or_create)
  apply (rule exc_spec_bind, rule spec_add_texts [OF main_policy assms(3)])
  apply (rule exc_spec_bind, rule spec_read, erule count_items_present)
  apply (rule exc_spec_bind, rule spec_read, erule query_present)
  apply (rule exc_spec_bind, rule spec_read, erule peek_present)
  apply (rule exc_spec_bind [where Q = "\<lambda>_ s. others_same ''my_test_collection'' s0 s
                                            \<and> present ''my_test_collection'' s"])
   apply (rule exc_spec_if)
    apply (rule exc_spec_bind, rule spec_delete_ids)
    apply (rule exc_spec_bind, rule spec_read, erule count_items_present)
    apply (rule exc_spec_return, assumption)
   apply (rule exc_spec_return, assumption)
  apply (rule exc_spec_bind, rule spec_delete_metadata, simp add: where_ok_def)
  apply (rule exc_spec_bind, rule spec_delete_collection)
  apply (rule exc_spec_return, assumption)
  done

lemma drop_if_exists_run:
  "\<exists>s'. drop_if_exists n s = (Inr (), s') \<and> map_of (collections s') = (map_of (collections s))(n := None)"
proof (cases "n \<in> set (list_collections s)")
  case True
  then have "map_of (collections s) n \<noteq> None"
    by (simp add: list_collections_def map_of_eq_None_iff)
  then obtain s' where d: "delete_collection n s = Inr s'"
    using delete_collection_present by blast
  with True show ?thesis
    by (simp add: drop_if_exists_def lift_read_def lift_sum_def delete_collection_map_of)
next
  case False
  then have "map_of (collections s) n = None"
    by (simp add: list_collections_def map_of_eq_None_iff)
  with False show ?thesis
    by (simp add: drop_if_exists_def lift_read_def exc_return_def fun_upd_idem)
qed

text \<open>When two chunks of the documents share their text, the store's upsert rejects the
  batch: \<open>main()\<close> stops at \<open>add_texts\<close>, leaving its collection created and empty.\<close>

lemma chroma_main_duplicate:
  assumes "getenv ''CHROMA_DB_PATH'' = Some p" and "p \<noteq> []"
    and "\<not> distinct (map fst (text_records sha \<lparr>chunk_size = 1000, chunk_overlap = 200, separators = default_separators\<rparr>
                              (Some main_metadatas) (Some ''example_run'') docs))"
  shows "\<exists>s'. chroma_main sha getenv dist docs q s0 = (Inl DuplicateIDError, s')
           \<and> map_of (collections s') = (map_of (collections s0))(''my_test_collection'' \<mapsto> [])"
proof -
  let ?n = "''my_test_collection''"
  obtain s1 where d: "drop_if_exists ?n s0 = (Inr (), s1)"
      and m1: "map_of (collections s1) = (map_of (collections s0))(?n := None)"
    using drop_if_exists_run by blast
  have i: "manager_step_init getenv s0 = (Inr (), s0)"
    using assms(1,2) by (simp add: manager_step_init_def lift_sum_def manager_init_def)
  let ?s2 = "get_or_create_collection ?n s1"
  have a: "add_texts sha ?n docs (Some main_metadatas) (Some ''example_run'') 1000 200 ?s2 = (Inl DuplicateIDError, ?s2)"
    using add_texts_not_distinct [OF main_policy assms(3)] by (simp add: get_or_create_collection_def)
  have "map_of (collections ?s2) = (map_of (collections s0))(?n \<mapsto> [])"
  proof
    fix m show "map_of (collections ?s2) m = ((map_of (collections s0))(?n \<mapsto> [])) m"
      using m1 map_of_get_or_create [of ?n s1] others_get_or_create [of ?n s1]
      by (cases "m = ?n") (simp_all add: get_or_create_collection_def others_same_def)
  qed
  moreover have "chroma_main sha getenv dist docs q s0 = (Inl DuplicateIDError, ?s2)"
    unfolding chroma_main_def using i d a by (simp add: lift_upd_def)
  ultimately show ?thesis by blast
qed

text \<open>C10. src/main.py with a configured store path, whatever
  collections exist: when the chunk texts of its documents are pairwise distinct it runs
  to the end without an exception and leaves the store as it found it except that
  \<open>my_test_collection\<close> is gone, every other collection untouched; otherwise it stops
  with \<open>DuplicateIDError\<close> at \<open>add_texts\<close> and leaves \<open>my_test_collection\<close>
  created and empty, every other collection untouched.\<close>

theorem chroma_main_frame:
  assumes "getenv ''CHROMA_DB_PATH'' = Some p" and "p \<noteq> []"
  shows "\<exists>r s'. chroma_main sha getenv dist docs q s0 = (r, s')
           \<and> (if distinct (map fst (text_records sha \<lparr>chunk_size = 1000, chunk_overlap = 200, separators = default_separators\<rparr>
                                       (Some main_metadatas) (Some ''example_run'') docs))
              then (\<exists>v. r = Inr v) \<and> map_of (collections s') = (map_of (collections s0))(''my_test_collection'' := None)
              else r = Inl DuplicateIDError \<and> map_of (collections s') = (map_of (collections s0))(''my_test_collection'' \<mapsto> []))"
proof (cases "distinct (map fst (text_records sha \<lparr>chunk_size = 1000, chunk_overlap = 200, separators = default_separators\<rparr>
                                       (Some main_metadatas) (Some ''example_run'') docs))")
  case True
  obtain r s' where "chroma_main sha getenv dist docs q s0 = (Inr r, s')"
      and "others_same ''my_test_collection'' s0 s'" and "map_of (collections s') ''my_test_collection'' = None"
    using exc_specD [OF chroma_main_spec [where getenv = getenv, OF assms True, of s0 dist q], of s0] by blast
  moreover from this(2,3)
  have "map_of (collections s') = (map_of (collections s0))(''my_test_collection'' := None)"
    by (auto simp: others_same_def fun_eq_iff)
  ultimately show ?thesis using True by (intro exI [of _ "Inr r"] exI [of _ s']) (simp only: True if_True, blast)
next
  case False
  then show ?thesis using chroma_main_duplicate [where getenv = getenv, OF assms False, of dist q s0] by auto
qed

theorem chroma_main_frame_witness:
  "\<exists>r s'. chroma_main id (\<lambda>k. Some ''/db'') (\<lambda>q d. length d) [''alpha'', ''beta''] ''q''
      \<lparr>collections = [(''keep'', [(''k'', ''v'', [])])]\<rparr> = (r, s')
     \<and> (\<exists>v. r = Inr v)
     \<and> map_of (collections s') = (map_of [(''keep'', [(''k'', ''v'', [])])])(''my_test_collection'' := None)"
proof -
  have h: "(\<lambda>k. Some ''/db'') ''CHROMA_DB_PATH'' = Some ''/db''" and "''/db'' \<noteq> []" by simp_all
  have "distinct (map fst (text_records id \<lparr>chunk_size = 1000, chunk_overlap = 200, separators = default_separators\<rparr>
                              (Some main_metadatas) (Some ''example_run'') [''alpha'', ''beta'']))"
    by code_simp
  with chroma_main_frame [OF h, of id "\<lambda>q d. length d" "[''alpha'', ''beta'']" "''q''"
      "\<lparr>collections = [(''keep'', [(''k'', ''v'', [])])]\<rparr>"]
  show ?thesis by simp
qed

section \<open>The demonstration script\<close>

lemma only_changes_bind:
  "only_changes n m \<Longrightarrow> (\<And>a. only_changes n (f a)) \<Longrightarrow> only_changes n (exc_bind m f)"
  unfolding only_changes_def
proof (intro allI)
  assume m: "\<forall>s. others_same n s (snd (m s))" and f: "\<And>a. \<forall>s. others_same n s (snd (f a s))"
  fix s
  obtain r s1 where rs: "m s = (r, s1)" by fastforce
  with m have "others_same n s s1" by (metis snd_conv)
  then show "others_same n s (snd (exc_bind m f s))"
    using rs f others_same_trans by (cases r) auto
qed

lemma only_changes_return [simp]: "only_changes n (exc_return a)"
  by (simp add: only_changes_def exc_return_def)

lemma only_changes_read [simp]: "only_changes n (lift_read f)"
  by (simp add: only_changes_def lift_read_def)

lemma only_changes_if:
  "only_changes n m1 \<Longrightarrow> only_changes n m2 \<Longrightarrow> only_changes n (if b then m1 else m2)"
  by simp

lemma only_changes_init [simp]: "only_changes n (manager_step_init getenv)"
  by (simp add: only_changes_def manager_step_init_def lift_sum_def manager_init_def split: option.split)

lemma only_changes_delete_collection [simp]: "only_changes n (lift_sum (delete_collection n))"
  by (auto simp: only_changes_def lift_sum_def others_same_def delete_collection_map_of split: sum.split)

lemma only_changes_drop [simp]: "only_changes n (drop_if_exists n)"
  unfolding drop_if_exists_def
  by (intro only_changes_bind only_changes_if) simp_all

lemma only_changes_map: "(\<And>x. only_changes n (f x)) \<Longrightarrow> only_changes n (exc_map f xs)"
  by (induction xs) (simp_all add: only_changes_bind)

lemma only_changes_catch [simp]: "only_changes n (exc_catch m) \<longleftrightarrow> only_changes n m"
  by (simp add: only_changes_def exc_catch_def case_prod_beta)

lemma others_process_url: "others_same n (db uc) (db (snd (process_url env sha uc url n sz ov src)))"
proof (cases rule: process_url_cases [of sz ov uc env sha url n src])
  case (bad_policy e)
  then show ?thesis by simp
next
  case (failed uc1 e)
  then show ?thesis by (simp add: configure_splitter_db)
next
  case (save_failed uc1 html content d e)
  then show ?thesis by (simp add: configure_splitter_db save_to_chroma_def)
next
  case (ingested uc1 html content d)
  then show ?thesis by (simp add: configure_splitter_db save_to_chroma_def)
qed

lemma others_process_multiple_urls:
  "others_same n (db uc) (db (snd (process_multiple_urls env sha uc urls n sz ov src)))"
proof (induction urls arbitrary: uc)
  case (Cons url urls)
  then show ?case
    using others_process_url [of n uc env sha url sz ov src]
    by (simp add: case_prod_beta) (blast intro: others_same_trans)
qed simp

lemma only_changes_ingest [simp]: "only_changes n (ingest_step env sha url n sz ov src)"
  using others_process_url [of n "url_chunker_init _ _ _"]
  by (simp add: only_changes_def ingest_step_def url_chunker_init_def split: prod.split)
    (metis snd_conv)

lemma only_changes_batch [simp]: "only_changes n (batch_step env sha urls n sz ov src)"
  using others_process_multiple_urls [of n "url_chunker_init _ _ _"]
  by (simp add: only_changes_def batch_step_def url_chunker_init_def split: prod.split)
    (metis snd_conv)

lemma only_changes_demo_single: "only_changes ''web_content_demo'' (demo_single_url env sha getenv dist lits)"
  unfolding demo_single_url_def
  by (intro only_changes_bind only_changes_if only_changes_map) simp_all

lemma only_changes_demo_multiple: "only_changes ''multi_url_demo'' (demo_multiple_urls env sha getenv dist lits)"
  unfolding demo_multiple_urls_def
  by (intro only_changes_bind only_changes_if) simp_all

lemma delete_listed:
  assumes "n \<in> set existing \<longleftrightarrow> map_of (collections s) n \<noteq> None"
  shows "\<exists>r s'. (if n \<in> set existing then lift_sum (delete_collection n) else exc_return ()) s = (Inr r, s')
           \<and> map_of (collections s') = (map_of (collections s))(n := None)"
proof (cases "n \<in> set existing")
  case True
  with assms obtain s' where "delete_collection n s = Inr s'"
    using delete_collection_present by auto
  with True show ?thesis by (simp add: lift_sum_def delete_collection_map_of)
next
  case False
  with assms have "map_of (collections s) n = None" by simp
  with False show ?thesis by (simp add: exc_return_def fun_upd_idem)
qed

lemma listed_iff_present: "n \<in> set (list_collections s) \<longleftrightarrow> map_of (collections s) n \<noteq> None"
  by (simp add: list_collections_def map_of_eq_None_iff)

lemma cleanup_effect:
  assumes "getenv ''CHROMA_DB_PATH'' = Some p" "p \<noteq> []"
  shows "\<exists>r s'. cleanup_demo_collections getenv s = (Inr r, s')
           \<and> map_of (collections s') = (map_of (collections s))(''web_content_demo'' := None, ''multi_url_demo'' := None)"
proof -
  let ?g = "\<lambda>collection_name. if collection_name \<in> set (list_collections s) then lift_sum (delete_collection collection_name)
                               else exc_return ()"
  obtain r1 s1 where 1: "?g ''web_content_demo'' s = (Inr r1, s1)"
    and m1: "map_of (collections s1) = (map_of (collections s))(''web_content_demo'' := None)"
    using delete_listed [OF listed_iff_present] by blast
  have "''multi_url_demo'' \<in> set (list_collections s) \<longleftrightarrow> map_of (collections s1) ''multi_url_demo'' \<noteq> None"
    by (simp add: m1 listed_iff_present)
  then obtain r2 s2 where 2: "?g ''multi_url_demo'' s1 = (Inr r2, s2)"
    and m2: "map_of (collections s2) = (map_of (collections s1))(''multi_url_demo'' := None)"
    using delete_listed by blast
  have "cleanup_demo_collections getenv s = (Inr [r1, r2], s2)"
    using assms 1 2 by (simp add: cleanup_demo_collections_def manager_step_init_def manager_init_def lift_sum_def
        lift_read_def exc_bind_def exc_return_def)
  then show ?thesis by (simp add: m1 m2)
qed

lemma only_changesD: "only_changes n m \<Longrightarrow> m s = (r, s') \<Longrightarrow> m' \<noteq> n \<Longrightarrow>
    map_of (collections s') m' = map_of (collections s) m'"
  by (metis only_changes_def others_same_def snd_conv)

text \<open>C11. With the store configured and cleanup chosen, the
  demonstration's main() always returns normally (each demo catches its own
  exceptions), and it leaves every collection but its two demo collections as it found
  them, those two deleted.\<close>

theorem demo_main_cleanup:
  assumes "getenv ''CHROMA_DB_PATH'' = Some p" "p \<noteq> []" "di_cleanup lits"
  shows "\<exists>s'. demo_main env sha getenv dist lits s0 = (Inr (), s')
           \<and> map_of (collections s') = (map_of (collections s0))(''web_content_demo'' := None, ''multi_url_demo'' := None)"
proof -
  obtain r1 s1 where 1: "demo_single_url env sha getenv dist lits s0 = (r1, s1)" by fastforce
  obtain r2 s2 where 2: "demo_multiple_urls env sha getenv dist lits s1 = (r2, s2)" by fastforce
  obtain r3 s3 where 3: "cleanup_demo_collections getenv s2 = (Inr r3, s3)"
    and m3: "map_of (collections s3) = (map_of (collections s2))(''web_content_demo'' := None, ''multi_url_demo'' := None)"
    using cleanup_effect [where getenv = getenv and s = s2, OF assms(1,2)] by blast
  have "demo_main env sha getenv dist lits s0 = (Inr (), s3)"
    using 1 2 3 assms(3) by (simp add: demo_main_def exc_catch_def exc_bind_def exc_return_def)
  moreover have "map_of (collections s3) = (map_of (collections s0))(''web_content_demo'' := None, ''multi_url_demo'' := None)"
  proof
    fix m
    show "map_of (collections s3) m = ((map_of (collections s0))(''web_content_demo'' := None, ''multi_url_demo'' := None)) m"
      using only_changesD [OF only_changes_demo_single 1, of m] only_changesD [OF only_changes_demo_multiple 2, of m]
      by (simp add: m3)
  qed
  ultimately show ?thesis by blast
qed

lemma process_url_fetch_fail:
  "fetch_content env (extractor uc) url = Inl e \<Longrightarrow> db (snd (process_url env sha uc url n sz ov src)) = db uc"
  by (cases rule: process_url_cases [of sz ov uc env sha url n src]) (simp_all add: configure_splitter_db)

lemma process_multiple_urls_fetch_fail:
  "\<forall>u\<in>set urls. \<exists>e. fetch_content env (extractor uc) u = Inl e \<Longrightarrow>
   db (snd (process_multiple_urls env sha uc urls n sz ov src)) = db uc"
proof (induction urls arbitrary: uc)
  case (Cons url urls)
  then obtain e where "fetch_content env (extractor uc) url = Inl e" by auto
  with Cons show ?case by (simp add: case_prod_beta process_url_fetch_fail)
qed simp

text \<open>C17. When no URL of the batch can be fetched, the
  multi-URL demo ends in the collection-not-found error of its final count: the
  collection was dropped at the start and nothing re-created it. The docstring of
  \<open>count_items\<close> promises \<open>None\<close> on error, so the demo would print \<open>None\<close>
  elements; the code re-raises, and the demo's \<open>except\<close> reports a failure instead.\<close>

theorem demo_multiple_all_fail:
  assumes "getenv ''CHROMA_DB_PATH'' = Some p" "p \<noteq> []"
    and "\<forall>u\<in>set (di_multi_urls lits). \<exists>e. fetch_content env (extractor_init 30 None) u = Inl e"
  shows "fst (demo_multiple_urls env sha getenv dist lits s0) = Inl (CollectionNotFound ''multi_url_demo'')"
proof -
  obtain r1 s1 where d: "drop_if_exists ''multi_url_demo'' s0 = (Inr r1, s1)"
    and m1: "map_of (collections s1) ''multi_url_demo'' = None"
    using drop_if_exists_run [of "''multi_url_demo''" s0] by auto
  obtain rs where b: "batch_step env sha (di_multi_urls lits) ''multi_url_demo'' 600 100 (Some ''wikipedia_ml_demo'') s1
                      = (Inr rs, s1)"
    using process_multiple_urls_fetch_fail [of "di_multi_urls lits" env "url_chunker_init s1 30 None" sha
        "''multi_url_demo''" 600 100 "Some ''wikipedia_ml_demo''"] assms(3)
    by (simp add: batch_step_def url_chunker_init_def case_prod_beta)
  have "query_collection dist ''multi_url_demo'' q k w s1 = Inl (CollectionNotFound ''multi_url_demo'')"
    and "count_items ''multi_url_demo'' s1 = Inl (CollectionNotFound ''multi_url_demo'')" for q k w
    using m1 by (simp_all add: query_collection_def count_items_def client_get_def)
  with assms(1,2) d b show ?thesis
    by (simp add: demo_multiple_urls_def manager_step_init_def manager_init_def lift_sum_def lift_read_def
        exc_bind_def exc_return_def)
qed

theorem demo_main_cleanup_witness:
  "\<exists>s'. demo_main example_env id (\<lambda>k. Some ''/db'') (\<lambda>q d. length d)
          \<lparr>di_single_url = ''u1'', di_single_queries = [''q''], di_multi_urls = [''u1'', ''u2''],
           di_multi_query = ''q'', di_cleanup = True\<rparr>
          \<lparr>collections = [(''keep'', [(''k'', ''v'', [])]), (''multi_url_demo'', [])]\<rparr> = (Inr (), s')
     \<and> map_of (collections s') = (map_of [(''keep'', [(''k'', ''v'', [])]), (''multi_url_demo'', [])])
         (''web_content_demo'' := None, ''multi_url_demo'' := None)"
  using demo_main_cleanup [of "\<lambda>k. Some ''/db''" "''/db''"
      "\<lparr>di_single_url = ''u1'', di_single_queries = [''q''], di_multi_urls = [''u1'', ''u2''],
        di_multi_query = ''q'', di_cleanup = True\<rparr>" example_env id "\<lambda>q d. length d"
      "\<lparr>collections = [(''keep'', [(''k'', ''v'', [])]), (''multi_url_demo'', [])]\<rparr>"]
  by simp

theorem demo_multiple_all_fail_witness:
  "fst (demo_multiple_urls example_env id (\<lambda>k. Some ''/db'') (\<lambda>q d. length d)
          \<lparr>di_single_url = ''u1'', di_single_queries = [''q''], di_multi_urls = [''u2'', ''u2''],
           di_multi_query = ''q'', di_cleanup = False\<rparr>
          \<lparr>collections = [(''multi_url_demo'', [(''k'', ''v'', [])])]\<rparr>)
     = Inl (CollectionNotFound ''multi_url_demo'')"
  using demo_multiple_all_fail [of "\<lambda>k. Some ''/db''" "''/db''"
      "\<lparr>di_single_url = ''u1'', di_single_queries = [''q''], di_multi_urls = [''u2'', ''u2''],
        di_multi_query = ''q'', di_cleanup = False\<rparr>" example_env id "\<lambda>q d. length d"
      "\<lparr>collections = [(''multi_url_demo'', [(''k'', ''v'', [])])]\<rparr>"]
  by (simp add: example_env_def fetch_content_def)

lemma save_fresh_collection:
  assumes "inj sha" "create_chunks sha p text md src = Inr d" "map_of (collections s) n = None"
  shows "\<exists>c. client_get n (snd (save_to_chroma d n s)) = Inr c \<and> length c = length (cd_chunks d)"
proof -
  obtain u where d: "cd_chunks d = split_text p text"
      "cd_ids d = map (\<lambda>(i, c). chunk_id sha u i c) (enumerate 0 (split_text p text))"
      "cd_metadatas d = map (\<lambda>(i, c). chunk_metadata md i c src) (enumerate 0 (split_text p text))"
    using create_chunks_Inr [OF assms(2)] by blast
  have dist: "distinct (cd_ids d)"
    using chunk_id_inj_on [OF assms(1)] by (simp add: d(2) distinct_map)
  have keys: "map fst (zip (cd_ids d) (zip (cd_chunks d) (cd_metadatas d))) = cd_ids d"
    by (simp add: d)
  then have "fst ` set (zip (cd_ids d) (zip (cd_chunks d) (cd_metadatas d))) = set (cd_ids d)"
    by (metis set_map)
  then have "length (coll_upsert (zip (cd_ids d) (zip (cd_chunks d) (cd_metadatas d))) []) = length (cd_ids d)"
    using coll_upsert_length [of "[]"] dist by (simp add: distinct_card)
  then show ?thesis
    using assms(3) dist keys
    by (cases "split_text p text = []") (simp_all add: save_to_chroma_def client_upsert_get upsert_batch_def d)
qed

lemma exc_map_read_state: "snd (exc_map (\<lambda>x. lift_read (f x)) xs s) = s"
  by (induction xs) (auto simp: exc_bind_def exc_return_def lift_read_def split: prod.split sum.split)

lemma demo_single_tail:
  assumes "count_items n s = Inr c0" "peek_collection n k s = Inr it0"
    and "fst (exc_bind (lift_read (count_items n)) (\<lambda>count.
           exc_bind (exc_map (\<lambda>q. lift_read (g q)) qs) (\<lambda>searches.
           exc_bind (lift_read (peek_collection n k)) (\<lambda>items.
           exc_return (r, Some (count, searches, items))))) s) = Inr (r', Some (c, sr, it))"
  shows "r' = r \<and> c = c0 \<and> it = it0"
proof -
  obtain v where "exc_map (\<lambda>q. lift_read (g q)) qs s = (v, s)"
    using exc_map_read_state [of g qs s] by (metis prod.collapse)
  with assms show ?thesis
    by (cases v) (simp_all add: exc_bind_def exc_return_def lift_read_def)
qed

lemma init_cases:
  "manager_step_init getenv s = (Inr (), s) \<or> (\<exists>e. manager_step_init getenv s = (Inl e, s))"
  by (simp add: manager_step_init_def lift_sum_def manager_init_def split: option.split)

lemma ingest_fresh_collection:
  assumes "inj sha" and "map_of (collections s) n = None"
    and "fst (process_url env sha (url_chunker_init s t ua) url n sz ov src) = Ingested u k l md"
  shows "\<exists>c. client_get n (db (snd (process_url env sha (url_chunker_init s t ua) url n sz ov src))) = Inr c
           \<and> length c = k"
proof (cases rule: process_url_cases [of sz ov "url_chunker_init s t ua" env sha url n src])
  case (ingested uc1 html content d)
  have "db uc1 = s" using configure_splitter_db [OF ingested(1)] by (simp add: url_chunker_init_def)
  with ingested assms show ?thesis using save_fresh_collection [OF assms(1) ingested(5), of s n] by auto
qed (use assms in simp_all)

text \<open>C16. When the single-URL demo ingests its page, the count it
  prints is the number of chunks the ingestion reports, and the peek shows
  \<open>min 3\<close> of them: the collection was dropped first, and the ids of one page's chunks
  are distinct under a collision-free hash.\<close>

theorem demo_single_count:
  assumes "inj sha"
    and res: "fst (demo_single_url env sha getenv dist lits s0) = Inr (Ingested u k l md, Some (c, sr, it))"
  shows "c = k \<and> length it = min 3 k"
proof -
  have init: "manager_step_init getenv s0 = (Inr (), s0)"
    using init_cases [of getenv s0] res by (auto simp: demo_single_url_def)
  obtain r1 s1 where drop: "drop_if_exists ''web_content_demo'' s0 = (Inr r1, s1)"
    and fresh: "map_of (collections s1) ''web_content_demo'' = None"
    using drop_if_exists_run [of "''web_content_demo''" s0] by auto
  let ?P = "process_url env sha (url_chunker_init s1 30 None) (di_single_url lits) ''web_content_demo'' 800 150
              (Some ''wikipedia_demo'')"
  have ing: "ingest_step env sha (di_single_url lits) ''web_content_demo'' 800 150 (Some ''wikipedia_demo'') s1
               = (Inr (fst ?P), db (snd ?P))"
    by (simp add: ingest_step_def case_prod_beta)
  have "result_success (fst ?P)"
    using res init drop ing by (cases "result_success (fst ?P)") (simp_all add: demo_single_url_def exc_return_def)
  then obtain u' k' l' md' where P: "fst ?P = Ingested u' k' l' md'" by (cases "fst ?P") auto
  obtain c0 where c0: "client_get ''web_content_demo'' (db (snd ?P)) = Inr c0" and len: "length c0 = k'"
    using ingest_fresh_collection [OF assms(1) fresh P] by blast
  have "count_items ''web_content_demo'' (db (snd ?P)) = Inr (length c0)"
    and "peek_collection ''web_content_demo'' 3 (db (snd ?P)) = Inr (take 3 c0)"
    by (simp_all add: c0 count_items_def peek_collection_def)
  moreover have "fst (exc_bind (lift_read (count_items ''web_content_demo'')) (\<lambda>count.
         exc_bind (exc_map (\<lambda>q. lift_read (query_collection dist ''web_content_demo'' [q] 2 None))
           (di_single_queries lits)) (\<lambda>searches.
         exc_bind (lift_read (peek_collection ''web_content_demo'' 3)) (\<lambda>items.
         exc_return (fst ?P, Some (count, searches, items))))) (db (snd ?P)))
       = Inr (Ingested u k l md, Some (c, sr, it))"
    using res init drop ing P by (simp add: demo_single_url_def)
  ultimately have "Ingested u k l md = fst ?P \<and> c = length c0 \<and> it = take 3 c0"
    by (rule demo_single_tail)
  with P len show ?thesis by simp
qed

theorem demo_single_count_witness:
  "inj (id :: string \<Rightarrow> string)
   \<and> fst (demo_single_url example_env id (\<lambda>k. Some ''/db'') (\<lambda>q d. length d)
          \<lparr>di_single_url = ''u1'', di_single_queries = [''q''], di_multi_urls = [],
           di_multi_query = ''q'', di_cleanup = False\<rparr> \<lparr>collections = []\<rparr>)
     = Inr (Ingested ''u1'' 1 11 [(''url'', MStr ''u1''), (''processed_date'', MStr ''today''), (''title'', MStr []),
     (''description'', MStr []), (''keywords'', MStr []), (''author'', MStr []), (''language'', MStr [])], Some (1, [[[(''u1_0_A. B. C. D.'', ''A. B. C. D.'', [(''url'', MStr ''u1''), (''processed_date'', MStr ''today''), (''title'', MStr []),
     (''description'', MStr []), (''keywords'', MStr []), (''author'', MStr []), (''language'', MStr [])] @
     [(''chunk_index'', MInt 0), (''chunk_size'', MInt 11), (''source'', MStr ''wikipedia_demo'')], 11)]]], [(''u1_0_A. B. C. D.'', ''A. B. C. D.'', [(''url'', MStr ''u1''), (''processed_date'', MStr ''today''), (''title'', MStr []),
     (''description'', MStr []), (''keywords'', MStr []), (''author'', MStr []), (''language'', MStr [])] @
     [(''chunk_index'', MInt 0), (''chunk_size'', MInt 11), (''source'', MStr ''wikipedia_demo'')])]))
   \<and> length [(''u1_0_A. B. C. D.'', ''A. B. C. D.'', [(''url'', MStr ''u1''), (''processed_date'', MStr ''today''), (''title'', MStr []),
     (''description'', MStr []), (''keywords'', MStr []), (''author'', MStr []), (''language'', MStr [])] @
     [(''chunk_index'', MInt 0), (''chunk_size'', MInt 11), (''source'', MStr ''wikipedia_demo'')])] = min 3 (1::nat)"
proof -
  have i: "inj (id :: string \<Rightarrow> string)" by simp
  have e: "fst (demo_single_url example_env id (\<lambda>k. Some ''/db'') (\<lambda>q d. length d)
          \<lparr>di_single_url = ''u1'', di_single_queries = [''q''], di_multi_urls = [],
           di_multi_query = ''q'', di_cleanup = False\<rparr> \<lparr>collections = []\<rparr>)
     = Inr (Ingested ''u1'' 1 11 [(''url'', MStr ''u1''), (''processed_date'', MStr ''today''), (''title'', MStr []),
     (''description'', MStr []), (''keywords'', MStr []), (''author'', MStr []), (''language'', MStr [])], Some (1, [[[(''u1_0_A. B. C. D.'', ''A. B. C. D.'', [(''url'', MStr ''u1''), (''processed_date'', MStr ''today''), (''title'', MStr []),
     (''description'', MStr []), (''keywords'', MStr []), (''author'', MStr []), (''language'', MStr [])] @
     [(''chunk_index'', MInt 0), (''chunk_size'', MInt 11), (''source'', MStr ''wikipedia_demo'')], 11)]]], [(''u1_0_A. B. C. D.'', ''A. B. C. D.'', [(''url'', MStr ''u1''), (''processed_date'', MStr ''today''), (''title'', MStr []),
     (''description'', MStr []), (''keywords'', MStr []), (''author'', MStr []), (''language'', MStr [])] @
     [(''chunk_index'', MInt 0), (''chunk_size'', MInt 11), (''source'', MStr ''wikipedia_demo'')])]))"
    by code_simp
  from demo_single_count [OF i e] i e show ?thesis by simp
qed

end
