(* ===== verification/Spec2Isabelle.thy ===== *)
theory Spec2Isabelle
  imports Scripts
begin

text \<open>
  \<^bold>\<open>A verification model of RagByKilo.\<close>

  The program (src/src/url_processor.py and src/src/chroma_manager.py) fetches web
  pages, extracts and normalises their text, cuts it into overlapping chunks with
  langchain's \<open>RecursiveCharacterTextSplitter\<close>, derives a SHA-256 id per chunk and
  upserts the chunks into ChromaDB collections, which it can then count, peek, search
  and prune. Two scripts drive it: src/main.py exercises the store manager and
  src/demo_url_processor.py the URL pipeline. The parts and the theories that model
  them, leaves first:

  \<^item> \<open>Prelude\<close>: Python values (a \<open>str\<close> is a \<open>string\<close>, one \<open>char\<close> per code
    point; a metadata \<open>dict\<close> is an association list updated with \<open>AList.update\<close>),
    the exceptions as the datatype \<open>py_error\<close> (every \<open>raise\<close> is an \<open>Inl\<close> of a
    result type), \<open>str.isspace\<close> below code point 256, \<open>str()\<close> of integers with its
    inverse, and the list lemmas the components share. It also holds the
    exception-and-state monad \<open>exc\<close> the scripts are written in (\<open>exc_bind\<close>,
    \<open>exc_return\<close>, the \<open>for\<close> loop \<open>exc_map\<close>, \<open>try/except\<close> as \<open>exc_catch\<close>) and
    the total-correctness judgement \<open>exc_spec\<close> with its composition rules.
  \<^item> \<open>Chunker\<close>: the splitter (spec section 4.1). Its code is langchain's, not this
    repository's, so it is modelled from the spec: \<open>make_policy\<close> is the constructor
    with its validation, \<open>choose_sep\<close> the separator priority, \<open>split_pieces\<close>
    the cut that keeps the separator, the mutually recursive \<open>split_rec\<close>/\<open>pack\<close>
    the greedy packing with overlap seed and the recursion on oversized pieces with the
    remaining separators, \<open>hard_cut\<close> the fallback when they are exhausted, and
    \<open>split_text\<close> the result without blank chunks. Two choices follow the spec where
    langchain differs: \<open>make_policy\<close> rejects an overlap equal to the size (spec
    section 3 asks for overlap below the target size), and the overlap seed of a chunk is
    the trailing \<open>min overlap (size - length piece)\<close> characters of the previous one,
    since the seed of spec step 3 taken literally can exceed the size bound of section 8.
    Every chunk is paired with the
    length of its overlap seed, so that losslessness (\<open>split_rec_fresh\<close>), the size
    bound (\<open>split_rec_size\<close>) and the overlap (\<open>split_rec_chained\<close>,
    \<open>split_rec_seeds\<close>) are stated exactly; all are proved by one mutual
    computation induction over \<open>split_rec_pack.induct\<close>. The mutual recursion is a
    \<open>function\<close> whose well-foundedness is shown with a lexicographic measure (remaining
    separators, then remaining pieces), so no fuel is needed anywhere in the development.
  \<^item> \<open>Addresser\<close>: the id preimages, \<open>f"{url}_{i}_{chunk}"\<close> of
    \<open>URLChunker.create_chunks\<close> (\<open>chunk_id_preimage\<close>) and the chunk alone of
    \<open>ChromaDBManager.add_texts\<close> (\<open>content_id\<close>). SHA-256 is a parameter
    \<open>sha\<close>; collision freedom is the hypothesis \<open>inj sha\<close> where it is needed.
  \<^item> \<open>Assembler\<close>: \<open>URLChunker.create_chunks\<close>: the loop \<open>chunk_records\<close> with
    its \<open>KeyError('url')\<close>, the per-chunk metadata \<open>chunk_metadata\<close>, and the three
    parallel lists of \<open>chunks_data\<close>; and \<open>assemble_spec\<close>, spec section 4.3 written
    independently (records with metadata as maps, the addresser a parameter, zero chunks
    an \<open>EmptyContentError\<close>), which the loop implements on every document with a url
    and a non-blank text.
  \<^item> \<open>Store\<close>: ChromaDB as the program uses it (spec section 6), modelled from the
    spec: a client \<open>chroma\<close> holding named collections, each an association list
    from id to document and metadata, with idempotent \<open>coll_upsert\<close> and filtered
    deletes. ChromaDB's own validation is modelled where the program can reach it: an
    upsert batch must be non-empty and without repeated ids (\<open>upsert_batch\<close>, else
    \<open>ValueError\<close> or \<open>DuplicateIDError\<close>, after \<open>get_or_create\<close> has created the
    collection), and a \<open>where\<close> filter must have exactly one key (\<open>where_ok\<close>). And
    every method of \<open>ChromaDBManager\<close> that changes or reads the store
    (\<open>manager_init\<close>, \<open>get_or_create_collection\<close>, \<open>delete_collection\<close>,
    \<open>list_collections\<close>, \<open>add_texts\<close>, \<open>delete_by_ids\<close>,
    \<open>delete_by_metadata\<close>, \<open>count_items\<close>, \<open>peek_collection\<close>). The calls that
    change the store form the datatype \<open>manager_op\<close>, run in sequence by
    \<open>manager_run\<close>; the invariant \<open>store_wf\<close> (distinct collection names, one
    entry per id) holds after any sequence.
  \<^item> \<open>Query\<close>: \<open>ChromaDBManager.query_collection\<close>, with the \<open>if where\<close>
    guard (\<open>where_param\<close>) and the store's query \<open>coll_query_all\<close> (spec-level: the
    filtered entries ordered by a distance parameter \<open>dist\<close>, cut at
    \<open>n_results\<close>; a filter with several keys raises). Its result is stated against
    \<open>passes_where\<close>, the filter semantics written without \<open>where_param\<close>.
  \<^item> \<open>StoreSpec\<close>: the store's contract as an abstract state, a map from collection
    names to maps from ids to (document, metadata) (\<open>abs_store\<close>), with one abstract
    operation per manager call (\<open>a_step\<close>); \<open>add_texts\<close> is specified by
    \<open>a_records\<close>, the batch written as a comprehension over texts and chunks, and a
    batch with a repeated id changes nothing but the creation of the collection. The
    refinement lemmas show each concrete call with a valid chunk policy
    (\<open>valid_call\<close>) commutes with the abstraction on well-formed stores.
  \<^item> \<open>Extractor\<close>: \<open>WebContentExtractor\<close>. HTTP and HTML parsing are the
    parameters of a record \<open>web_env\<close> (the response to a GET of a URL with a given
    \<open>User-Agent\<close> header and timeout, the parsed fields, the visible text); the
    program's own logic is modelled: the extractor's state \<open>extractor\<close> (timeout and
    header, \<open>extractor_init\<close> with its default for a missing or empty user agent),
    URL validation in \<open>fetch_content\<close>, the metadata dictionary with its fallback in
    \<open>extract_metadata\<close>, and the regular-expression normalisation \<open>clean_text\<close>
    (each \<open>re.sub\<close> is a \<open>squeeze_runs\<close> over maximal runs).
  \<^item> \<open>Pipeline\<close>: \<open>URLChunker\<close>. Its state \<open>url_chunker\<close> is the splitter it
    keeps, the store and its extractor (\<open>url_chunker_init\<close> takes the timeout and
    user agent of \<open>__init__\<close>); \<open>process_url\<close> is the whole method (splitter
    reconfiguration, fetch, metadata, text, the empty-content check, \<open>create_chunks\<close>,
    \<open>save_to_chroma\<close>, whose upsert may raise, and the \<open>except\<close> that turns every
    error into a failure result, keeping what was written), and \<open>process_multiple_urls\<close> the loop over URLs threading the state. The
    inductive \<open>uc_reachable\<close> gives the states reachable from \<open>__init__\<close>.
  \<^item> \<open>Scripts\<close>: the two scripts as \<open>exc\<close> programs over the store. Each manager
    call is lifted to a step (\<open>lift_upd\<close>, \<open>lift_sum\<close>, \<open>lift_read\<close>,
    \<open>manager_step_init\<close>); \<open>chroma_main\<close> is the \<open>try\<close> body of src/main.py;
    \<open>demo_single_url\<close>, \<open>demo_multiple_urls\<close>, \<open>cleanup_demo_collections\<close> and
    \<open>demo_main\<close> are the functions of src/demo_url_processor.py, each pipeline call a
    fresh \<open>URLChunker\<close> over the current store (\<open>ingest_step\<close>, \<open>batch_step\<close>).
    The scripts' Russian literals (URLs, queries) cannot be written as 8-bit Isabelle
    characters, so they are the fields of the record \<open>demo_inputs\<close> and the
    arguments of \<open>chroma_main\<close>. The frame predicate \<open>only_changes n\<close> (every
    collection but \<open>n\<close> unchanged) is proved for every step and composed through
    \<open>exc_bind\<close>.

  \<^bold>\<open>What is proved.\<close> For the pipeline: the invariant of reachable states
  (\<open>uc_inv\<close>: valid policy, Russian separators, well-formed store); that re-ingesting
  a URL leaves the collection's count unchanged; that every stored chunk is non-blank
  and within the call's \<open>chunk_size\<close>, or the kept splitter's with the default
  arguments; success and failure results with what they leave in the store (a failure
  writes only when the upsert rejects a repeated id, which needs a hash collision) and
  the metadata schema of stored records; order and independence of batch results; that
  the splitter set by one call persists into later calls (a defect); that a batch depends on the web only through
  requests sent with the chunker's timeout and user agent (the default one when none
  or an empty one was given). For the chunk assembly: lossless overlapping
  chunks, the size bound, metadata of every chunk, distinct ids, the \<open>KeyError\<close> and
  blank-text behaviour, and refinement of the spec's assembler. For addressing: the
  preimage is unambiguous within a document and for URLs without \<open>_\<close>, and for every
  URL, index and text ambiguous across documents otherwise. For the store: invariant
  preservation, refinement of the abstract map store by any sequence of manager calls,
  \<open>add_texts\<close> results, its \<open>DuplicateIDError\<close> when a chunk text repeats (its
  docstring promises a duplicate check it does not make), idempotence and its raising
  after creating the collection, deletion and missing-collection errors (the docstrings
  of \<open>count_items\<close> and \<open>peek_collection\<close> promise \<open>None\<close>), \<open>__init__\<close>'s
  \<open>ValueError\<close>, and that a query returns at most \<open>n_results\<close> filtered entries,
  nearest first, none nearer left out. For extraction: \<open>clean_text\<close> leaves only plain spaces and no space at either
  end, so the newline separators of the splitter never apply to URL content. For the
  scripts: src/main.py with a configured path runs to its end and removes only its
  test collection when its chunk texts are distinct, and otherwise stops with
  \<open>DuplicateIDError\<close> leaving that collection empty; the demo's \<open>main()\<close> returns normally and, with cleanup, leaves
  every other collection as it was; the single-URL demo counts exactly the chunks it
  ingested; and the multi-URL demo with no fetchable URL ends in the
  collection-not-found error of its final count (a defect).

  \<^bold>\<open>Not modelled.\<close> The bodies of \<open>requests\<close>, \<open>BeautifulSoup\<close>,
  \<open>hashlib\<close>, \<open>chromadb\<close> embeddings and langchain (parameters or spec-level models
  as above), including the other default headers of \<open>requests.Session\<close>; logging
  and \<open>print\<close> output, wall-clock time (\<open>processing_time\<close>, the pause between
  URLs); the scripts' Russian string
  literals (parameters, as said above); the test scripts src/simple_test.py and
  src/test_integration.py, which only call the modelled methods and print; ChromaDB's
  checks the program never fails (metadata value types, embeddings).
\<close>

end
